(* ===== verification/Prelude.thy ===== *)
theory Prelude
  imports Main "HOL-Library.Multiset" "HOL-Library.Sublist" "HOL-Library.AList"
    "HOL-Library.Char_ord" "HOL-Library.List_Lexorder"
begin

text \<open>
  Shared vocabulary of the development: Go's error values, the world-passing
  computations that model the code's calls to services it does not own (the Kubernetes
  API, the operating system, the HTTP peers), Go maps as association lists, wall-clock
  times and durations, and Go's \<^verbatim>\<open>sort.SliceStable\<close> with the facts the selection
  routines rest on.
\<close>

section \<open>Collections of facts\<close>

named_theorems io_defs \<open>unfoldings of the world-passing combinators\<close>
named_theorems io_inv_intros \<open>which computations keep an invariant of the world\<close>

section \<open>Errors\<close>

text \<open>
  Go's \<^verbatim>\<open>error\<close> values. The sentinel errors the code declares are constructors; an
  error built by \<^verbatim>\<open>fmt.Errorf\<close> carries its text, and \<^verbatim>\<open>%w\<close> wraps. Operating-system
  errors distinguish the two classes the code asks about (\<^verbatim>\<open>os.IsNotExist\<close>,
  \<^verbatim>\<open>os.IsPermission\<close>).
\<close>

datatype go_error =
    Errorf string
  | Wrapf string go_error
  | ErrAutoPromotionDisabled
  | ErrGracePeriodActive
  | ErrNoFreshReplica
  | ErrNoEligibleAgents
  | ErrPathOutsidePool
  | ErrNonEmptyPool string nat
  | ErrInvalidPoolPath string
  | ErrNodeNotAuthorized
  | ErrInvalidMountPath
  | ErrNotExist
  | ErrPermission
  | ErrNotFound
  | ErrCanceled
  | ErrSkipDir
  | ErrNameTooLong
  | ErrEOF
  | ErrEINVAL
  | ErrENOSYS
  | CommandError go_error string

section \<open>World-passing computations\<close>

text \<open>
  A computation reads and changes a world \<^typ>\<open>'s\<close> and returns an error or a value. The
  world is a type variable: nothing is assumed of a service beyond what a theorem states.
  \<open>io_bind\<close> is the Go idiom \<^verbatim>\<open>x, err := m(); if err != nil { return err }\<close>, and
  \<open>io_try\<close> hands the error to the code that inspects it.
\<close>

type_synonym ('s, 'a) io = "'s \<Rightarrow> (go_error + 'a) \<times> 's"

definition io_return :: "'a \<Rightarrow> ('s, 'a) io" where
  "io_return x = (\<lambda>s. (Inr x, s))"

definition io_fail :: "go_error \<Rightarrow> ('s, 'a) io" where
  "io_fail e = (\<lambda>s. (Inl e, s))"

definition io_bind :: "('s, 'a) io \<Rightarrow> ('a \<Rightarrow> ('s, 'b) io) \<Rightarrow> ('s, 'b) io" where
  "io_bind m f = (\<lambda>s. case m s of (Inl e, t) \<Rightarrow> (Inl e, t) | (Inr x, t) \<Rightarrow> f x t)"

definition io_try :: "('s, 'a) io \<Rightarrow> (go_error + 'a \<Rightarrow> ('s, 'b) io) \<Rightarrow> ('s, 'b) io" where
  "io_try m f = (\<lambda>s. case m s of (r, t) \<Rightarrow> f r t)"

definition io_lift :: "go_error + 'a \<Rightarrow> ('s, 'a) io" where
  "io_lift r = (\<lambda>s. (r, s))"

fun io_foreach :: "('x \<Rightarrow> ('s, unit) io) \<Rightarrow> 'x list \<Rightarrow> ('s, unit) io" where
  "io_foreach f [] = io_return ()"
| "io_foreach f (x # xs) = io_bind (f x) (\<lambda>_. io_foreach f xs)"

declare io_return_def [io_defs] io_fail_def [io_defs] io_bind_def [io_defs]
  io_try_def [io_defs] io_lift_def [io_defs]

lemma io_bind_return [simp]: "io_bind (io_return x) f = f x"
  by (simp add: io_defs)

lemma io_bind_fail [simp]: "io_bind (io_fail e) f = io_fail e"
  by (simp add: io_defs)

lemma io_bind_assoc: "io_bind (io_bind m f) g = io_bind m (\<lambda>x. io_bind (f x) g)"
  by (auto simp: io_defs fun_eq_iff split: prod.splits sum.splits)

lemma io_bind_Inr:
  "io_bind m f s = (Inr y, t) \<longleftrightarrow> (\<exists>x u. m s = (Inr x, u) \<and> f x u = (Inr y, t))"
  by (auto simp: io_bind_def split: prod.splits sum.splits)

lemma io_bind_Inl:
  "io_bind m f s = (Inl e, t) \<longleftrightarrow>
     m s = (Inl e, t) \<or> (\<exists>x u. m s = (Inr x, u) \<and> f x u = (Inl e, t))"
  by (auto simp: io_bind_def split: prod.splits sum.splits)

lemma io_try_run: "io_try m f s = (x, t) \<longleftrightarrow> (\<exists>r u. m s = (r, u) \<and> f r u = (x, t))"
  by (auto simp: io_try_def split: prod.splits)

lemma io_return_run [simp]: "io_return x s = (r, t) \<longleftrightarrow> r = Inr x \<and> t = s"
  by (auto simp: io_return_def)

lemma io_fail_run [simp]: "io_fail e s = (r, t) \<longleftrightarrow> r = Inl e \<and> t = s"
  by (auto simp: io_fail_def)

lemma io_lift_run [simp]: "io_lift v s = (r, t) \<longleftrightarrow> r = v \<and> t = s"
  by (auto simp: io_lift_def)

text \<open>
  An invariant of the world kept by a computation, whatever the computation returns: the
  rule by which a whole handler keeps what each of its calls keeps.
\<close>

definition io_inv :: "('s \<Rightarrow> bool) \<Rightarrow> ('s, 'a) io \<Rightarrow> bool" where
  "io_inv I m \<longleftrightarrow> (\<forall>s. I s \<longrightarrow> I (snd (m s)))"

lemma io_invD: "io_inv I m \<Longrightarrow> I s \<Longrightarrow> m s = (r, t) \<Longrightarrow> I t"
  by (auto simp: io_inv_def dest: spec [of _ s])

lemma io_inv_return [io_inv_intros, simp]: "io_inv I (io_return x)"
  by (simp add: io_inv_def io_defs)

lemma io_inv_fail [io_inv_intros, simp]: "io_inv I (io_fail e)"
  by (simp add: io_inv_def io_defs)

lemma io_inv_lift [io_inv_intros, simp]: "io_inv I (io_lift r)"
  by (simp add: io_inv_def io_defs)

lemma io_inv_bind [io_inv_intros]:
  "io_inv I m \<Longrightarrow> (\<And>x. io_inv I (f x)) \<Longrightarrow> io_inv I (io_bind m f)"
  by (force simp: io_inv_def io_bind_def split: prod.splits sum.splits)

lemma io_inv_try [io_inv_intros]:
  "io_inv I m \<Longrightarrow> (\<And>r. io_inv I (f r)) \<Longrightarrow> io_inv I (io_try m f)"
  by (force simp: io_inv_def io_try_def split: prod.splits)

lemma io_inv_foreach [io_inv_intros]:
  "(\<And>x. x \<in> set xs \<Longrightarrow> io_inv I (f x)) \<Longrightarrow> io_inv I (io_foreach f xs)"
  by (induction xs) (auto intro: io_inv_bind)

text \<open>What a computation returns, whatever the world.\<close>

definition io_result :: "(go_error + 'a \<Rightarrow> bool) \<Rightarrow> ('s, 'a) io \<Rightarrow> bool" where
  "io_result R m \<longleftrightarrow> (\<forall>s. R (fst (m s)))"

lemma io_resultD: "io_result R m \<Longrightarrow> m s = (r, t) \<Longrightarrow> R r"
  by (metis fst_conv io_result_def)

lemma io_inv_try_result:
  assumes "io_result R m" "io_inv I m" "\<And>r. R r \<Longrightarrow> io_inv I (f r)"
  shows "io_inv I (io_try m f)"
  unfolding io_inv_def
proof (intro allI impI)
  fix s
  assume "I s"
  obtain r t where m: "m s = (r, t)" by fastforce
  then have "io_inv I (f r)" "I t"
    using assms io_invD [OF assms(2) \<open>I s\<close> m] io_resultD [OF assms(1) m] by auto
  then show "I (snd (io_try m f s))" by (simp add: m io_try_def io_inv_def)
qed

lemma io_inv_bind_result:
  assumes "io_result (\<lambda>r. \<forall>x. r = Inr x \<longrightarrow> R x) m" "io_inv I m" "\<And>x. R x \<Longrightarrow> io_inv I (f x)"
  shows "io_inv I (io_bind m f)"
proof -
  have "io_bind m f = io_try m (\<lambda>r. case r of Inl e \<Rightarrow> io_fail e | Inr x \<Rightarrow> f x)"
    by (auto simp: io_defs fun_eq_iff split: prod.splits sum.splits)
  then show ?thesis
    using assms(3) by (auto intro!: io_inv_try_result [OF assms(1,2)] split: sum.splits)
qed

lemma io_inv_bind_lift:
  "(\<And>x. v = Inr x \<Longrightarrow> io_inv I (f x)) \<Longrightarrow> io_inv I (io_bind (io_lift v) f)"
  by (cases v) (auto simp: io_inv_def io_defs)

text \<open>
  Computations over a controller's own state beside the outside world: \<open>io_outside\<close> runs a
  call of the world, \<open>io_get\<close> and \<open>io_modify\<close> read and change the state (one critical section).
\<close>

definition io_outside :: "('k, 'a) io \<Rightarrow> ('c \<times> 'k, 'a) io" where
  "io_outside m = (\<lambda>(c, k). case m k of (r, k') \<Rightarrow> (r, (c, k')))"

definition io_get :: "('c \<Rightarrow> 'a) \<Rightarrow> ('c \<times> 'k, 'a) io" where
  "io_get f = (\<lambda>(c, k). (Inr (f c), (c, k)))"

definition io_modify :: "('c \<Rightarrow> 'c) \<Rightarrow> ('c \<times> 'k, unit) io" where
  "io_modify f = (\<lambda>(c, k). (Inr (), (f c, k)))"

declare io_outside_def [io_defs] io_get_def [io_defs] io_modify_def [io_defs]

lemma io_outside_run [simp]: "io_outside m (c, k) = (r, s) \<longleftrightarrow> (\<exists>k'. m k = (r, k') \<and> s = (c, k'))"
  by (auto simp: io_outside_def split: prod.splits)

lemma io_get_run [simp]: "io_get f (c, k) = (r, s) \<longleftrightarrow> r = Inr (f c) \<and> s = (c, k)"
  by (auto simp: io_get_def)

lemma io_modify_run [simp]: "io_modify f (c, k) = (r, s) \<longleftrightarrow> r = Inr () \<and> s = (f c, k)"
  by (auto simp: io_modify_def)

lemma io_inv_outside [io_inv_intros]:
  "(\<And>c. io_inv (\<lambda>k. I (c, k)) m) \<Longrightarrow> io_inv I (io_outside m)"
  by (force simp: io_inv_def io_outside_def split: prod.splits)

lemma io_inv_get [io_inv_intros, simp]: "io_inv I (io_get f)"
  by (auto simp: io_inv_def io_get_def)

lemma io_inv_modify: "(\<And>c k. I (c, k) \<Longrightarrow> I (f c, k)) \<Longrightarrow> io_inv I (io_modify f)"
  by (auto simp: io_inv_def io_modify_def)

text \<open>
  Hoare triples: from a world satisfying \<open>P\<close> the computation ends in \<open>Q x\<close> if it returns
  \<open>x\<close>, and in \<open>E\<close> if it returns an error.
\<close>

definition io_triple :: "('s \<Rightarrow> bool) \<Rightarrow> ('s, 'a) io \<Rightarrow> ('a \<Rightarrow> 's \<Rightarrow> bool) \<Rightarrow> ('s \<Rightarrow> bool) \<Rightarrow> bool" where
  "io_triple P m Q E \<longleftrightarrow>
     (\<forall>s. P s \<longrightarrow> (case m s of (Inl e, t) \<Rightarrow> E t | (Inr x, t) \<Rightarrow> Q x t))"

lemma io_tripleD: "io_triple P m Q E \<Longrightarrow> P s \<Longrightarrow> m s = (r, t) \<Longrightarrow> (case r of Inl e \<Rightarrow> E t | Inr x \<Rightarrow> Q x t)"
  unfolding io_triple_def by (drule spec [of _ s]) (auto split: sum.splits)

lemma io_triple_bind:
  "io_triple P m R E \<Longrightarrow> (\<And>x. io_triple (R x) (f x) Q E) \<Longrightarrow> io_triple P (io_bind m f) Q E"
  unfolding io_triple_def io_bind_def by (fastforce split: prod.splits sum.splits)

lemma io_triple_try:
  assumes "io_triple P m (\<lambda>x. R (Inr x)) (\<lambda>t. \<forall>e. R (Inl e) t)" "\<And>r. io_triple (R r) (f r) Q E"
  shows "io_triple P (io_try m f) Q E"
  unfolding io_triple_def
proof (intro allI impI)
  fix s
  assume "P s"
  obtain r t where m: "m s = (r, t)" by fastforce
  then have "R r t" using io_tripleD [OF assms(1) \<open>P s\<close> m] by (cases r) auto
  then show "case io_try m f s of (Inl e, t) \<Rightarrow> E t | (Inr x, t) \<Rightarrow> Q x t"
    using assms(2) [of r] m by (simp add: io_triple_def io_try_def)
qed

lemma io_triple_return: "(\<And>s. P s \<Longrightarrow> Q x s) \<Longrightarrow> io_triple P (io_return x) Q E"
  by (simp add: io_triple_def io_return_def)

lemma io_triple_fail: "(\<And>s. P s \<Longrightarrow> E s) \<Longrightarrow> io_triple P (io_fail e) Q E"
  by (simp add: io_triple_def io_fail_def)

lemma io_triple_get: "(\<And>c k. P (c, k) \<Longrightarrow> Q (f c) (c, k)) \<Longrightarrow> io_triple P (io_get f) Q E"
  by (auto simp: io_triple_def io_get_def)

lemma io_triple_modify: "(\<And>c k. P (c, k) \<Longrightarrow> Q () (f c, k)) \<Longrightarrow> io_triple P (io_modify f) Q E"
  by (auto simp: io_triple_def io_modify_def)

lemma io_triple_conseq:
  "io_triple P m Q E \<Longrightarrow> (\<And>s. P' s \<Longrightarrow> P s) \<Longrightarrow> (\<And>x s. Q x s \<Longrightarrow> Q' x s) \<Longrightarrow> (\<And>s. E s \<Longrightarrow> E' s) \<Longrightarrow>
   io_triple P' m Q' E'"
  unfolding io_triple_def by (fastforce split: prod.splits sum.splits)

lemma io_triple_known: "(x = y \<Longrightarrow> io_triple P m Q E) \<Longrightarrow> io_triple (\<lambda>s. x = y \<and> P s) m Q E"
  by (auto simp: io_triple_def)

lemma io_triple_inv: "io_inv I m \<Longrightarrow> io_triple I m (\<lambda>_. I) I"
  unfolding io_triple_def io_inv_def by (auto split: prod.splits sum.splits)

lemma io_triple_foreach:
  assumes "\<And>x. x \<in> set xs \<Longrightarrow> io_triple I (f x) (\<lambda>_. I) E"
  shows "io_triple I (io_foreach f xs) (\<lambda>_. I) E"
  using assms
proof (induction xs)
  case (Cons x xs)
  then show ?case by (auto intro: io_triple_bind)
qed (simp add: io_triple_return)

text \<open>
  A computation with local variables that its callbacks change; what holds of the variables
  whatever the world does.
\<close>

definition io_local :: "'c \<Rightarrow> ('c \<times> 'w, 'a) io \<Rightarrow> ('w, 'a \<times> 'c) io" where
  "io_local c m = (\<lambda>w. case m (c, w) of (Inl e, (_, w')) \<Rightarrow> (Inl e, w') | (Inr x, (c', w')) \<Rightarrow> (Inr (x, c'), w'))"

lemma io_inv_fst: "io_inv (\<lambda>(c, w). P c) (io_outside m)"
  by (rule io_inv_outside) (simp add: io_inv_def)

lemma io_inv_fst_modify: "(\<And>c. P c \<Longrightarrow> P (f c)) \<Longrightarrow> io_inv (\<lambda>(c, w). P c) (io_modify f)"
  by (rule io_inv_modify) auto

lemma io_local_result:
  assumes "io_inv (\<lambda>(c, w). P c) m" "P c"
  shows "io_result (\<lambda>r. \<forall>x c'. r = Inr (x, c') \<longrightarrow> P c') (io_local c m)"
  unfolding io_result_def io_local_def
proof (intro allI impI)
  fix w x c'
  assume "fst (case m (c, w) of (Inl e, (_, w')) \<Rightarrow> (Inl e, w') | (Inr x, (c', w')) \<Rightarrow> (Inr (x, c'), w')) = Inr (x, c')"
  then obtain w' where "m (c, w) = (Inr x, (c', w'))" by (auto split: prod.splits sum.splits)
  from io_invD [OF assms(1) _ this] assms(2) show "P c'" by simp
qed

lemma io_local_inv:
  assumes "io_inv (\<lambda>(c, w). I w) m"
  shows "io_inv I (io_local c m)"
  unfolding io_inv_def
proof (intro allI impI)
  fix w
  assume "I w"
  obtain r c' w' where m: "m (c, w) = (r, (c', w'))" by (metis prod.exhaust)
  from io_invD [OF assms _ this] \<open>I w\<close> show "I (snd (io_local c m w))" by (auto simp: io_local_def m split: sum.split)
qed

lemma io_result_outside: "io_result R m \<Longrightarrow> io_result R (io_outside m)"
  by (auto simp: io_result_def io_outside_def split: prod.split) (metis fst_conv)

lemma io_inv_triple:
  assumes "io_triple I m (\<lambda>_. I) I"
  shows "io_inv I m"
  unfolding io_inv_def
proof (intro allI impI)
  fix s
  assume "I s"
  obtain r t where m: "m s = (r, t)" by fastforce
  from io_tripleD [OF assms \<open>I s\<close> m] show "I (snd (m s))" by (simp add: m split: sum.splits)
qed

lemma io_triple_if:
  "(b \<Longrightarrow> io_triple P m Q E) \<Longrightarrow> (\<not> b \<Longrightarrow> io_triple P m' Q E) \<Longrightarrow> io_triple P (if b then m else m') Q E"
  by simp

lemma io_inv_const: "io_inv (\<lambda>_. P) m"
  by (simp add: io_inv_def)

text \<open>
  Observed computations: the world is paired with a log; \<open>io_noisy e\<close> runs a call and records
  the event, \<open>io_quiet\<close> runs one that leaves no trace. An interface whose effects a theorem
  speaks about is wrapped by these.
\<close>

definition io_quiet :: "('k, 'a) io \<Rightarrow> ('k \<times> 'e list, 'a) io" where
  "io_quiet m = (\<lambda>(k, es). case m k of (r, k') \<Rightarrow> (r, (k', es)))"

definition io_noisy :: "'e \<Rightarrow> ('k, 'a) io \<Rightarrow> ('k \<times> 'e list, 'a) io" where
  "io_noisy e m = (\<lambda>(k, es). case m k of (r, k') \<Rightarrow> (r, (k', es @ [e])))"

lemma io_run_eta: "p = (fst p, (fst (snd p), snd (snd p)))"
  by simp

lemma io_inv_quiet [io_inv_intros]: "io_inv (\<lambda>(k, es). J es) (io_quiet m)"
  by (auto simp: io_inv_def io_quiet_def split: prod.splits)

lemma io_inv_noisy: "(\<And>es. J es \<Longrightarrow> J (es @ [e])) \<Longrightarrow> io_inv (\<lambda>(k, es). J es) (io_noisy e m)"
  by (auto simp: io_inv_def io_noisy_def split: prod.splits)

lemma io_try_cong: "(\<And>r. f r = g r) \<Longrightarrow> io_try m f = io_try m g"
  by (simp add: io_try_def)

text \<open>Observing commutes with the combinators, so a routine of quiet calls is quiet.\<close>

lemma io_quiet_return [simp]: "io_quiet (io_return x) = io_return x"
  by (auto simp: io_quiet_def io_defs)

lemma io_quiet_fail [simp]: "io_quiet (io_fail e) = io_fail e"
  by (auto simp: io_quiet_def io_defs)

lemma io_quiet_try: "io_quiet (io_try m f) = io_try (io_quiet m) (\<lambda>r. io_quiet (f r))"
  by (auto simp: io_quiet_def io_defs fun_eq_iff split: prod.splits)

lemma io_quiet_bind: "io_quiet (io_bind m f) = io_bind (io_quiet m) (\<lambda>x. io_quiet (f x))"
  by (auto simp: io_quiet_def io_defs fun_eq_iff split: prod.splits sum.splits)

lemma io_quiet_foreach: "io_quiet (io_foreach f xs) = io_foreach (\<lambda>x. io_quiet (f x)) xs"
  by (induction xs) (simp_all add: io_quiet_bind)

text \<open>Computations that fail in every world: a loop with such a turn, a sequence with such a part.\<close>

abbreviation io_fails :: "('s, 'a) io \<Rightarrow> bool" where
  "io_fails m \<equiv> io_result (\<lambda>r. \<exists>e. r = Inl e) m"

lemma io_fails_bind:
  "io_fails m \<Longrightarrow> io_fails (io_bind m f)" "(\<And>x. io_fails (f x)) \<Longrightarrow> io_fails (io_bind m f)"
  unfolding io_result_def io_bind_def by (auto split: prod.splits sum.splits) (metis fst_conv sum.distinct(1))+

lemma io_foreach_fails: "x \<in> set xs \<Longrightarrow> io_fails (f x) \<Longrightarrow> io_fails (io_foreach f xs)"
  by (induction xs) (auto intro: io_fails_bind)

lemma io_inv_bind_failing:
  assumes "io_fails m" "io_inv I m"
  shows "io_inv I (io_bind m f)"
proof (rule io_inv_bind_result [where R = "\<lambda>_. False"])
  show "io_result (\<lambda>r. \<forall>x. r = Inr x \<longrightarrow> False) m"
    using assms(1) unfolding io_result_def by (metis sum.distinct(1))
qed (use assms in auto)

lemma io_result_quiet [simp]: "io_result R (io_quiet m) \<longleftrightarrow> io_result R m"
  by (auto simp: io_result_def io_quiet_def split: prod.splits) (metis fst_conv prod.exhaust)+

lemma io_result_noisy [simp]: "io_result R (io_noisy e m) \<longleftrightarrow> io_result R m"
  by (auto simp: io_result_def io_noisy_def split: prod.splits) (metis fst_conv prod.exhaust)+

text \<open>What a loop logs, from what each of its turns logs; \<open>D x fs\<close> is what turn \<open>x\<close> leaves in the log.\<close>

lemma io_foreach_trace:
  assumes step: "\<And>x w es r w' es'. f x (w, es) = (r, (w', es')) \<Longrightarrow>
      \<exists>fs. es' = es @ fs \<and> length fs \<le> k \<and> (r = Inr () \<longrightarrow> D x fs)"
    and mono: "\<And>x fs gs hs. D x gs \<Longrightarrow> D x (fs @ gs @ hs)"
    and "io_foreach f xs (w, es) = (r, (w', es'))"
  shows "\<exists>fs. es' = es @ fs \<and> length fs \<le> k * length xs \<and> (r = Inr () \<longrightarrow> (\<forall>x \<in> set xs. D x fs))"
  using assms(3)
proof (induction xs arbitrary: w es)
  case (Cons x xs)
  obtain r1 w1 es1 where run: "f x (w, es) = (r1, (w1, es1))" by (metis prod.exhaust)
  from step [OF run] obtain fs where fs: "es1 = es @ fs" "length fs \<le> k" "r1 = Inr () \<longrightarrow> D x fs" by blast
  show ?case
  proof (cases r1)
    case (Inl e)
    with Cons.prems run fs show ?thesis by (auto simp: io_bind_def)
  next
    case (Inr u)
    with Cons.prems run have "io_foreach f xs (w1, es1) = (r, (w', es'))" by (simp add: io_bind_def)
    from Cons.IH [OF this] obtain gs where gs: "es' = es1 @ gs" "length gs \<le> k * length xs"
      "r = Inr () \<longrightarrow> (\<forall>x \<in> set xs. D x gs)" by blast
    have "r = Inr () \<longrightarrow> (\<forall>y \<in> set (x # xs). D y (fs @ gs))"
      using fs(3) gs(3) Inr mono [where fs = "[]" and hs = gs] mono [where fs = fs and hs = "[]"] by auto
    then show ?thesis using fs gs by (intro exI [of _ "fs @ gs"]) auto
  qed
qed simp

section \<open>Go maps\<close>

text \<open>
  A Go map is an association list. The order of the list is the order in which a
  \<^verbatim>\<open>range\<close> loop meets the keys, which Go leaves open: where a routine ranges over a map,
  the theorems show that the order does not matter.
\<close>

type_synonym ('k, 'v) gomap = "('k \<times> 'v) list"

definition gokeys :: "('k, 'v) gomap \<Rightarrow> 'k list" where
  "gokeys m = map fst m"

definition goget :: "('k, 'v) gomap \<Rightarrow> 'k \<Rightarrow> 'v \<Rightarrow> 'v" where
  "goget m k z = (case map_of m k of None \<Rightarrow> z | Some v \<Rightarrow> v)"

abbreviation gostr :: "('k, string) gomap \<Rightarrow> 'k \<Rightarrow> string" where
  "gostr m k \<equiv> goget m k ''''"

definition gohas :: "('k, 'v) gomap \<Rightarrow> 'k \<Rightarrow> bool" where
  "gohas m k \<longleftrightarrow> map_of m k \<noteq> None"

definition DeepEqualMap :: "('k, 'v) gomap \<Rightarrow> ('k, 'v) gomap \<Rightarrow> bool" where
  "DeepEqualMap a b \<longleftrightarrow> (\<forall>k \<in> set (gokeys a @ gokeys b). map_of a k = map_of b k)"

lemma gohas_iff [simp]: "gohas m k \<longleftrightarrow> k \<in> fst ` set m"
  by (auto simp: gohas_def map_of_eq_None_iff)

lemma DeepEqualMap_iff: "DeepEqualMap a b \<longleftrightarrow> map_of a = map_of b"
proof
  assume eq: "DeepEqualMap a b"
  show "map_of a = map_of b"
  proof
    fix k
    show "map_of a k = map_of b k"
    proof (cases "k \<in> set (gokeys a @ gokeys b)")
      case True
      with eq show ?thesis by (simp add: DeepEqualMap_def)
    next
      case False
      then have "map_of a k = None" and "map_of b k = None"
        by (auto simp: gokeys_def map_of_eq_None_iff)
      then show ?thesis by simp
    qed
  qed
qed (simp add: DeepEqualMap_def)

lemma goget_update [simp]:
  "goget (AList.update k v m) k' z = (if k' = k then v else goget m k' z)"
  by (simp add: goget_def update_conv')

lemma goget_delete [simp]:
  "goget (AList.delete k m) k' z = (if k' = k then z else goget m k' z)"
  by (simp add: goget_def delete_conv')

lemma alist_update_member: "x \<in> set (AList.update k v m) \<Longrightarrow> x = (k, v) \<or> x \<in> set m"
  by (induction m) (auto split: if_splits)

lemma map_of_perm:
  assumes "mset xs = mset ys" and "distinct (map fst xs)"
  shows "map_of xs = map_of ys"
proof -
  have "mset (map fst xs) = mset (map fst ys)"
    using assms(1) by simp
  with assms(2) have "distinct (map fst ys)"
    using mset_eq_imp_distinct_iff by blast
  then show ?thesis
    using assms by (metis map_of_inject_set mset_eq_setD)
qed

lemma list_all_butlast: "list_all P xs \<Longrightarrow> list_all P (butlast xs)"
  by (auto simp: list_all_iff dest: in_set_butlastD)

text \<open>Two fields joined by a separator that does not occur in the first.\<close>

lemma append_sep_inject:
  assumes "c \<notin> set xs" "c \<notin> set ys"
  shows "xs @ c # us = ys @ c # vs \<longleftrightarrow> xs = ys \<and> us = vs"
  using assms
proof (induction xs arbitrary: ys)
  case Nil
  then show ?case by (cases ys) auto
next
  case (Cons x xs)
  then show ?case by (cases ys) auto
qed

section \<open>Times and durations\<close>

text \<open>
  A \<^verbatim>\<open>time.Time\<close> is its wall-clock instant in nanoseconds since Go's zero time, so the
  zero value is \<^term>\<open>0 :: int\<close>; a \<^verbatim>\<open>time.Duration\<close> is an int64 count of nanoseconds, and
  \<^verbatim>\<open>Time.Sub\<close> saturates at its bounds.
\<close>

type_synonym time = int
type_synonym duration = int

definition IsZero :: "time \<Rightarrow> bool" where
  "IsZero t \<longleftrightarrow> t = 0"

definition time_Sub :: "time \<Rightarrow> time \<Rightarrow> duration" where
  "time_Sub t u = max (- (2 ^ 63)) (min (2 ^ 63 - 1) (t - u))"

definition second :: duration where "second = 1000000000"
definition minute :: duration where "minute = 60 * second"

lemma time_Sub_less: "d \<le> 2 ^ 63 - 1 \<Longrightarrow> time_Sub t u < d \<Longrightarrow> t - u < d"
  by (auto simp: time_Sub_def max_def min_def split: if_splits)

lemma time_Sub_le_iff:
  "- (2 ^ 63) \<le> d \<Longrightarrow> d < 2 ^ 63 - 1 \<Longrightarrow> time_Sub t u \<le> d \<longleftrightarrow> t - u \<le> d"
  by (auto simp: time_Sub_def max_def min_def)

lemma time_Sub_less_iff:
  "- (2 ^ 63) < d \<Longrightarrow> d \<le> 2 ^ 63 - 1 \<Longrightarrow> time_Sub t u < d \<longleftrightarrow> t - u < d"
  by (auto simp: time_Sub_def max_def min_def)

section \<open>Sorting\<close>

text \<open>
  \<^verbatim>\<open>sort.SliceStable(xs, lt)\<close>: the stable sort by a comparison, given as the insertion
  sort that puts an element in front of the elements it is not greater than.
\<close>

fun insert_by :: "('a \<Rightarrow> 'a \<Rightarrow> bool) \<Rightarrow> 'a \<Rightarrow> 'a list \<Rightarrow> 'a list" where
  "insert_by lt x [] = [x]"
| "insert_by lt x (y # ys) = (if lt y x then y # insert_by lt x ys else x # y # ys)"

definition SliceStable :: "('a \<Rightarrow> 'a \<Rightarrow> bool) \<Rightarrow> 'a list \<Rightarrow> 'a list" where
  "SliceStable lt xs = foldr (insert_by lt) xs []"

lemma SliceStable_Nil [simp]: "SliceStable lt [] = []"
  by (simp add: SliceStable_def)

lemma SliceStable_Cons [simp]: "SliceStable lt (x # xs) = insert_by lt x (SliceStable lt xs)"
  by (simp add: SliceStable_def)

lemma mset_insert_by [simp]: "mset (insert_by lt x xs) = add_mset x (mset xs)"
  by (induction xs) auto

lemma mset_SliceStable [simp]: "mset (SliceStable lt xs) = mset xs"
  by (induction xs) auto

lemma set_SliceStable [simp]: "set (SliceStable lt xs) = set xs"
  by (metis mset_SliceStable set_mset_mset)

lemma set_insert_by [simp]: "set (insert_by lt x xs) = insert x (set xs)"
  by (metis mset_insert_by set_mset_add_mset_insert set_mset_mset)

lemma length_SliceStable [simp]: "length (SliceStable lt xs) = length xs"
  by (metis mset_SliceStable size_mset)

lemma SliceStable_eq_Nil [simp]: "SliceStable lt xs = [] \<longleftrightarrow> xs = []"
  by (metis length_0_conv length_SliceStable)

text \<open>
  The contract \<^verbatim>\<open>sort\<close> asks of a comparison function: a strict weak order. What the
  callers rely on is proved once from it.
\<close>

locale go_less =
  fixes lt :: "'a \<Rightarrow> 'a \<Rightarrow> bool"
  assumes lt_asym: "lt x y \<Longrightarrow> \<not> lt y x"
    and lt_neg_trans: "\<not> lt x y \<Longrightarrow> \<not> lt y z \<Longrightarrow> \<not> lt x z"
begin

lemma lt_irrefl: "\<not> lt x x"
  using lt_asym by blast

lemma lt_trans: "lt x y \<Longrightarrow> lt y z \<Longrightarrow> lt x z"
  using lt_asym lt_neg_trans by blast

lemma sorted_insert_by:
  "sorted_wrt (\<lambda>a b. \<not> lt b a) xs \<Longrightarrow> sorted_wrt (\<lambda>a b. \<not> lt b a) (insert_by lt x xs)"
  by (induction xs) (auto dest: lt_asym lt_neg_trans)

lemma sorted_SliceStable: "sorted_wrt (\<lambda>a b. \<not> lt b a) (SliceStable lt xs)"
  by (induction xs) (auto intro: sorted_insert_by)

lemma hd_SliceStable_least:
  assumes "xs \<noteq> []" and "y \<in> set xs"
  shows "\<not> lt y (hd (SliceStable lt xs))"
proof -
  obtain z zs where z: "SliceStable lt xs = z # zs"
    using assms(1) by (metis SliceStable_eq_Nil neq_Nil_conv)
  have "y \<in> set (z # zs)"
    using assms(2) z by (metis set_SliceStable)
  moreover have "sorted_wrt (\<lambda>a b. \<not> lt b a) (z # zs)"
    using sorted_SliceStable [of xs] z by simp
  ultimately show ?thesis
    using z lt_irrefl by auto
qed

lemma hd_SliceStable_mem: "xs \<noteq> [] \<Longrightarrow> hd (SliceStable lt xs) \<in> set xs"
  by (metis SliceStable_eq_Nil list.set_sel(1) set_SliceStable)

text \<open>Stability: elements that compare equal keep their order.\<close>

lemma filter_insert_by:
  assumes "sorted_wrt (\<lambda>a b. \<not> lt b a) xs"
  shows "filter (\<lambda>y. \<not> lt y k \<and> \<not> lt k y) (insert_by lt x xs) =
    (if \<not> lt x k \<and> \<not> lt k x then x # filter (\<lambda>y. \<not> lt y k \<and> \<not> lt k y) xs
     else filter (\<lambda>y. \<not> lt y k \<and> \<not> lt k y) xs)"
  using assms
proof (induction xs)
  case (Cons y ys)
  have "lt y x \<Longrightarrow> \<not> lt x k \<Longrightarrow> \<not> lt k x \<Longrightarrow> lt y k"
    using lt_neg_trans by blast
  with Cons show ?case by auto
qed simp

lemma SliceStable_stable:
  "filter (\<lambda>y. \<not> lt y k \<and> \<not> lt k y) (SliceStable lt xs) =
   filter (\<lambda>y. \<not> lt y k \<and> \<not> lt k y) xs"
  by (induction xs) (simp_all add: filter_insert_by sorted_SliceStable)

text \<open>The head of the sorted list is the first of the least elements.\<close>

lemma hd_SliceStable_first:
  assumes "xs \<noteq> []"
  shows "hd (SliceStable lt xs) = hd (filter (\<lambda>y. \<forall>x \<in> set xs. \<not> lt x y) xs)"
proof -
  define k where "k = hd (SliceStable lt xs)"
  obtain ys where ys: "SliceStable lt xs = k # ys"
    using assms unfolding k_def by (metis SliceStable_eq_Nil list.collapse)
  have "\<not> lt x k" if "x \<in> set xs" for x
    using hd_SliceStable_least [OF assms that] by (simp add: k_def)
  moreover have "k \<in> set xs" using hd_SliceStable_mem [OF assms] by (simp add: k_def)
  ultimately have "filter (\<lambda>y. \<not> lt y k \<and> \<not> lt k y) xs = filter (\<lambda>y. \<forall>x \<in> set xs. \<not> lt x y) xs"
    using lt_neg_trans by (intro filter_cong) blast+
  moreover have "filter (\<lambda>y. \<not> lt y k \<and> \<not> lt k y) xs = k # filter (\<lambda>y. \<not> lt y k \<and> \<not> lt k y) ys"
    using SliceStable_stable [of k xs] lt_irrefl by (simp add: ys)
  ultimately show ?thesis by (simp add: k_def)
qed

end

text \<open>
  Where elements that compare equal have equal keys, a list with distinct keys has one
  sorted permutation: the result depends neither on the order of the input nor on whether
  the sort is stable.
\<close>

locale go_less_keyed = go_less lt for lt :: "'a \<Rightarrow> 'a \<Rightarrow> bool" +
  fixes key :: "'a \<Rightarrow> 'k"
  assumes ties: "\<not> lt x y \<Longrightarrow> \<not> lt y x \<Longrightarrow> key x = key y"
begin

lemma sorted_perm_unique:
  assumes "sorted_wrt (\<lambda>a b. \<not> lt b a) xs" and "sorted_wrt (\<lambda>a b. \<not> lt b a) ys"
    and "mset xs = mset ys" and "distinct (map key xs)"
  shows "xs = ys"
  using assms
proof (induction xs arbitrary: ys)
  case (Cons x xs)
  then obtain y ys' where ys: "ys = y # ys'"
    by (metis list.exhaust mset.simps(1) mset_zero_iff_right list.distinct(1))
  have sets: "set (x # xs) = set (y # ys')"
    using Cons.prems(3) ys by (metis mset_eq_setD)
  have "\<not> lt y x"
  proof (cases "y = x")
    case False
    then have "y \<in> set xs" using sets by auto
    with Cons.prems(1) show ?thesis by auto
  qed (simp add: lt_irrefl)
  moreover have "\<not> lt x y"
  proof (cases "x = y")
    case False
    then have "x \<in> set ys'" using sets by auto
    with Cons.prems(2) ys show ?thesis by auto
  qed (simp add: lt_irrefl)
  ultimately have "key x = key y" by (rule ties [THEN sym])
  have "y = x"
  proof (rule ccontr)
    assume "y \<noteq> x"
    then have "y \<in> set xs" using sets by auto
    then have "key y \<in> key ` set xs" by simp
    with Cons.prems(4) \<open>key x = key y\<close> show False by simp
  qed
  with Cons ys show ?case by simp
qed simp

lemma SliceStable_perm:
  assumes "mset xs = mset ys" and "distinct (map key xs)"
  shows "SliceStable lt xs = SliceStable lt ys"
proof (rule sorted_perm_unique)
  show "distinct (map key (SliceStable lt xs))"
    using assms(2) by (metis mset_SliceStable mset_eq_imp_distinct_iff mset_map)
qed (use assms in \<open>simp_all add: sorted_SliceStable\<close>)

end

end
