(* ===== verification/GoStrings.thy ===== *)
theory GoStrings
  imports Prelude
begin

text \<open>
  The part of Go's \<^verbatim>\<open>strings\<close>, \<^verbatim>\<open>bytes\<close>, \<^verbatim>\<open>unicode/utf8\<close> and \<^verbatim>\<open>strconv\<close> packages that
  the program uses. A Go string is a sequence of bytes, here a \<^typ>\<open>string\<close> whose
  characters are bytes; the functions that work on runes decode UTF-8 as Go does, an
  invalid byte being one replacement rune.
\<close>

section \<open>Prefixes, suffixes, trimming\<close>

abbreviation slash :: char where "slash \<equiv> CHR ''/''"
abbreviation dot :: char where "dot \<equiv> CHR ''.''"

definition HasPrefix :: "string \<Rightarrow> string \<Rightarrow> bool" where
  "HasPrefix s p \<longleftrightarrow> prefix p s"

definition HasSuffix :: "string \<Rightarrow> string \<Rightarrow> bool" where
  "HasSuffix s p \<longleftrightarrow> suffix p s"

definition TrimPrefix :: "string \<Rightarrow> string \<Rightarrow> string" where
  "TrimPrefix s p = (if HasPrefix s p then drop (length p) s else s)"

definition TrimSuffix :: "string \<Rightarrow> string \<Rightarrow> string" where
  "TrimSuffix s p = (if HasSuffix s p then take (length s - length p) s else s)"

text \<open>\<^verbatim>\<open>Trim\<close>, \<^verbatim>\<open>TrimLeft\<close> and \<^verbatim>\<open>TrimRight\<close> for cutsets of ASCII characters.\<close>

definition TrimLeft :: "string \<Rightarrow> string \<Rightarrow> string" where
  "TrimLeft s cutset = dropWhile (\<lambda>c. c \<in> set cutset) s"

definition TrimRight :: "string \<Rightarrow> string \<Rightarrow> string" where
  "TrimRight s cutset = rev (dropWhile (\<lambda>c. c \<in> set cutset) (rev s))"

definition Trim :: "string \<Rightarrow> string \<Rightarrow> string" where
  "Trim s cutset = TrimRight (TrimLeft s cutset) cutset"

lemma set_TrimLeft: "set (TrimLeft s cs) \<subseteq> set s"
  by (auto simp: TrimLeft_def dest: set_dropWhileD)

lemma set_TrimRight: "set (TrimRight s cs) \<subseteq> set s"
  by (auto simp: TrimRight_def dest: set_dropWhileD)

lemma set_Trim: "set (Trim s cs) \<subseteq> set s"
  unfolding Trim_def using set_TrimLeft set_TrimRight by blast

lemma length_Trim_le: "length (Trim s cs) \<le> length s"
  by (metis Trim_def TrimLeft_def TrimRight_def length_dropWhile_le length_rev order_trans)

lemma TrimRight_last: "TrimRight s cs \<noteq> [] \<Longrightarrow> last (TrimRight s cs) \<notin> set cs"
  by (metis TrimRight_def hd_dropWhile last_rev rev_is_Nil_conv)

lemma prefix_TrimRight: "prefix (TrimRight s cs) s"
  by (metis TrimRight_def rev_rev_ident suffix_dropWhile suffix_to_prefix)

lemma suffix_TrimLeft: "suffix (TrimLeft s cs) s"
  by (simp add: TrimLeft_def suffix_dropWhile)

lemma Trim_hd:
  assumes "Trim s cs \<noteq> []"
  shows "hd (Trim s cs) \<notin> set cs"
proof -
  obtain r where r: "TrimLeft s cs = Trim s cs @ r"
    using prefix_TrimRight [of "TrimLeft s cs" cs] by (auto simp: Trim_def prefix_def)
  with assms have "TrimLeft s cs \<noteq> []" by auto
  then have "hd (TrimLeft s cs) \<notin> set cs"
    unfolding TrimLeft_def by (metis hd_dropWhile)
  with assms r show ?thesis by simp
qed

lemma Trim_last: "Trim s cs \<noteq> [] \<Longrightarrow> last (Trim s cs) \<notin> set cs"
  by (simp add: Trim_def TrimRight_last)

lemma Trim_id:
  assumes "s \<noteq> []" "hd s \<notin> set cs" "last s \<notin> set cs"
  shows "Trim s cs = s"
proof -
  have "TrimLeft s cs = s"
    using assms(1,2) by (cases s) (auto simp: TrimLeft_def)
  moreover have "TrimRight s cs = s"
    using assms(1,3) by (cases s rule: rev_cases) (auto simp: TrimRight_def)
  ultimately show ?thesis by (simp add: Trim_def)
qed

lemma Trim_Nil [simp]: "Trim [] cs = []"
  by (simp add: Trim_def TrimLeft_def TrimRight_def)

lemma Trim_idem [simp]: "Trim (Trim s cs) cs = Trim s cs"
  by (cases "Trim s cs = []") (auto intro: Trim_id dest: Trim_hd Trim_last)

lemma HasPrefix_append [simp]: "HasPrefix (p @ s) p"
  by (simp add: HasPrefix_def)

lemma HasPrefix_iff: "HasPrefix s p \<longleftrightarrow> (\<exists>r. s = p @ r)"
  by (auto simp: HasPrefix_def prefix_def)

lemma TrimSuffix_append [simp]: "TrimSuffix (s @ p) p = s"
  by (simp add: TrimSuffix_def HasSuffix_def suffix_def)

lemma TrimPrefix_append [simp]: "TrimPrefix (p @ s) p = s"
  by (simp add: TrimPrefix_def)

section \<open>Replacing, searching, splitting\<close>

text \<open>\<^verbatim>\<open>ReplaceAll\<close> for a non-empty old string, left to right and not overlapping.\<close>

function ReplaceAll :: "string \<Rightarrow> string \<Rightarrow> string \<Rightarrow> string" where
  "ReplaceAll [] old new = []"
| "ReplaceAll (c # s) old new =
     (if old \<noteq> [] \<and> prefix old (c # s) then new @ ReplaceAll (drop (length old - 1) s) old new
      else c # ReplaceAll s old new)"
  by pat_completeness auto
termination
  by (relation "measure (\<lambda>(s, _, _). length s)") auto

text \<open>\<^verbatim>\<open>Replace(s, old, new, 1)\<close>.\<close>

fun ReplaceFirst :: "string \<Rightarrow> string \<Rightarrow> string \<Rightarrow> string" where
  "ReplaceFirst [] old new = []"
| "ReplaceFirst (c # s) old new =
     (if prefix old (c # s) then new @ drop (length old) (c # s)
      else c # ReplaceFirst s old new)"

fun Contains :: "string \<Rightarrow> string \<Rightarrow> bool" where
  "Contains [] sub \<longleftrightarrow> sub = []"
| "Contains (c # s) sub \<longleftrightarrow> prefix sub (c # s) \<or> Contains s sub"

definition ContainsAny :: "string \<Rightarrow> string \<Rightarrow> bool" where
  "ContainsAny s chars \<longleftrightarrow> (\<exists>c \<in> set s. c \<in> set chars)"

text \<open>\<^verbatim>\<open>Index\<close> and \<^verbatim>\<open>LastIndex\<close> of a one-character string.\<close>

fun IndexChar :: "string \<Rightarrow> char \<Rightarrow> nat option" where
  "IndexChar [] c = None"
| "IndexChar (d # s) c = (if d = c then Some 0 else map_option Suc (IndexChar s c))"

definition LastIndexChar :: "string \<Rightarrow> char \<Rightarrow> nat option" where
  "LastIndexChar s c = map_option (\<lambda>i. length s - 1 - i) (IndexChar (rev s) c)"

text \<open>\<^verbatim>\<open>Split\<close> at a one-character separator, and \<^verbatim>\<open>Join\<close>.\<close>

fun Split :: "char \<Rightarrow> string \<Rightarrow> string list" where
  "Split sep [] = [[]]"
| "Split sep (c # s) =
     (if c = sep then [] # Split sep s
      else (case Split sep s of [] \<Rightarrow> [[c]] | w # ws \<Rightarrow> (c # w) # ws))"

fun Join :: "string \<Rightarrow> string list \<Rightarrow> string" where
  "Join sep [] = []"
| "Join sep [w] = w"
| "Join sep (w # v # ws) = w @ sep @ Join sep (v # ws)"

lemma set_ReplaceAll: "set (ReplaceAll s old new) \<subseteq> set s \<union> set new"
  by (induction s old new rule: ReplaceAll.induct) (auto dest: in_set_dropD)

lemma ReplaceAll_id: "old \<noteq> [] \<Longrightarrow> \<not> sublist old s \<Longrightarrow> ReplaceAll s old new = s"
  by (induction s old new rule: ReplaceAll.induct) (auto simp: sublist_Cons_right)

lemma ReplaceAll_notin: "c \<notin> set s \<Longrightarrow> ReplaceAll s [c] new = s"
  by (induction s) (auto simp: prefix_Cons)

lemma Split_neq_Nil [simp]: "Split sep s \<noteq> []"
  by (induction s) (auto split: list.splits)

lemma Split_no_sep: "w \<in> set (Split sep s) \<Longrightarrow> sep \<notin> set w"
  by (induction s arbitrary: w) (auto split: list.splits if_splits)

lemma Split_single [simp]: "sep \<notin> set s \<Longrightarrow> Split sep s = [s]"
  by (induction s) auto

lemma Split_append_sep: "Split sep (s @ sep # t) = Split sep s @ Split sep t"
proof (induction s)
  case (Cons c s)
  then show ?case
    by (cases "Split sep s") auto
qed simp

lemma Join_Split [simp]: "Join [sep] (Split sep s) = s"
proof (induction s)
  case (Cons c s)
  obtain w ws where "Split sep s = w # ws"
    by (cases "Split sep s") auto
  with Cons show ?case by (cases ws) auto
qed simp

lemma Join_Cons: "ws \<noteq> [] \<Longrightarrow> Join sep (w # ws) = w @ sep @ Join sep ws"
  by (cases ws) auto

lemma Join_append:
  "us \<noteq> [] \<Longrightarrow> vs \<noteq> [] \<Longrightarrow> Join sep (us @ vs) = Join sep us @ sep @ Join sep vs"
  by (induction us rule: induct_list012) (auto simp: Join_Cons)

lemma Split_Join:
  "ws \<noteq> [] \<Longrightarrow> \<forall>w \<in> set ws. sep \<notin> set w \<Longrightarrow> Split sep (Join [sep] ws) = ws"
  by (induction ws rule: induct_list012) (auto simp: Split_append_sep)

lemma Split_Cons_other:
  "c \<noteq> sep \<Longrightarrow> Split sep (c # s) = (c # hd (Split sep s)) # tl (Split sep s)"
  by (cases "Split sep s") auto

lemma sublist_single: "sublist [c] s \<longleftrightarrow> c \<in> set s"
  by (auto simp: sublist_def in_set_conv_decomp)

lemma Contains_iff: "Contains s sub \<longleftrightarrow> sublist sub s"
  by (induction s) (auto simp: sublist_Cons_right)

section \<open>Runes\<close>

text \<open>
  \<^verbatim>\<open>utf8.DecodeRuneInString\<close>: the first rune of a non-empty string and the number of
  bytes it takes; \<open>(65533, 1)\<close> for an invalid encoding. The table of first bytes and of
  the range of the second byte is Go's.
\<close>

abbreviation byte :: "char \<Rightarrow> nat" where "byte c \<equiv> of_char c"

definition cont :: "nat \<Rightarrow> bool" where
  "cont b \<longleftrightarrow> 128 \<le> b \<and> b < 192"

definition secondByte :: "nat \<Rightarrow> nat \<times> nat" where
  "secondByte b = (if b = 224 then (160, 191) else if b = 237 then (128, 159)
     else if b = 240 then (144, 191) else if b = 244 then (128, 143) else (128, 191))"

definition inSecond :: "nat \<Rightarrow> nat \<Rightarrow> bool" where
  "inSecond b0 b1 \<longleftrightarrow> fst (secondByte b0) \<le> b1 \<and> b1 \<le> snd (secondByte b0)"

fun decodeBytes :: "nat list \<Rightarrow> nat \<times> nat" where
  "decodeBytes [] = (65533, 0)"
| "decodeBytes (b0 # bs) =
     (if b0 < 128 then (b0, 1)
      else if 194 \<le> b0 \<and> b0 \<le> 223 then
        (case bs of b1 # _ \<Rightarrow> if inSecond b0 b1 then ((b0 mod 32) * 64 + b1 mod 64, 2) else (65533, 1)
         | _ \<Rightarrow> (65533, 1))
      else if 224 \<le> b0 \<and> b0 \<le> 239 then
        (case bs of b1 # b2 # _ \<Rightarrow>
           if inSecond b0 b1 \<and> cont b2
           then ((b0 mod 16) * 4096 + (b1 mod 64) * 64 + b2 mod 64, 3) else (65533, 1)
         | _ \<Rightarrow> (65533, 1))
      else if 240 \<le> b0 \<and> b0 \<le> 244 then
        (case bs of b1 # b2 # b3 # _ \<Rightarrow>
           if inSecond b0 b1 \<and> cont b2 \<and> cont b3
           then ((b0 mod 8) * 262144 + (b1 mod 64) * 4096 + (b2 mod 64) * 64 + b3 mod 64, 4)
           else (65533, 1)
         | _ \<Rightarrow> (65533, 1))
      else (65533, 1))"

definition DecodeRune :: "string \<Rightarrow> nat \<times> nat" where
  "DecodeRune s = decodeBytes (map byte (take 4 s))"

lemma decodeBytes_width: "bs \<noteq> [] \<Longrightarrow> 1 \<le> snd (decodeBytes bs) \<and> snd (decodeBytes bs) \<le> length bs"
  by (cases bs) (auto split: list.splits)

lemma DecodeRune_width:
  "s \<noteq> [] \<Longrightarrow> 1 \<le> snd (DecodeRune s) \<and> snd (DecodeRune s) \<le> length s"
  using decodeBytes_width [of "map byte (take 4 s)"] by (auto simp: DecodeRune_def)

lemma DecodeRune_ascii: "byte c < 128 \<Longrightarrow> DecodeRune (c # s) = (byte c, 1)"
  by (simp add: DecodeRune_def)

section \<open>White space\<close>

text \<open>The UTF-8 encodings of the runes for which \<^verbatim>\<open>unicode.IsSpace\<close> holds.\<close>

definition unicodeSpaces :: "string list" where
  "unicodeSpaces = map (\<lambda>b. [char_of (b :: nat)]) [9, 10, 11, 12, 13, 32] @
     map (map (char_of :: nat \<Rightarrow> char))
       ([[194, 133], [194, 160], [225, 154, 128]] @
        map (\<lambda>b. [226, 128, b]) [128, 129, 130, 131, 132, 133, 134, 135, 136, 137, 138, 168, 169, 175] @
        [[226, 129, 159], [227, 128, 128]])"

definition spaceWidth :: "string \<Rightarrow> nat" where
  "spaceWidth s = (case find (\<lambda>p. prefix p s) unicodeSpaces of None \<Rightarrow> 0 | Some p \<Rightarrow> length p)"

definition lastSpaceWidth :: "string \<Rightarrow> nat" where
  "lastSpaceWidth s = (case find (\<lambda>p. suffix p s) unicodeSpaces of None \<Rightarrow> 0 | Some p \<Rightarrow> length p)"

lemma spaceWidth_le: "spaceWidth s \<le> length s"
  by (auto simp: spaceWidth_def find_Some_iff prefix_length_le split: option.splits)

lemma lastSpaceWidth_le: "lastSpaceWidth s \<le> length s"
  by (auto simp: lastSpaceWidth_def find_Some_iff suffix_length_le split: option.splits)

function TrimLeftSpace :: "string \<Rightarrow> string" where
  "TrimLeftSpace s = (if spaceWidth s = 0 then s else TrimLeftSpace (drop (spaceWidth s) s))"
  by pat_completeness auto
termination
proof (relation "measure length")
  fix s :: string
  assume "spaceWidth s \<noteq> 0"
  with spaceWidth_le [of s] show "(drop (spaceWidth s) s, s) \<in> measure length" by simp
qed simp

function TrimRightSpace :: "string \<Rightarrow> string" where
  "TrimRightSpace s = (if lastSpaceWidth s = 0 then s
     else TrimRightSpace (take (length s - lastSpaceWidth s) s))"
  by pat_completeness auto
termination
proof (relation "measure length")
  fix s :: string
  assume "lastSpaceWidth s \<noteq> 0"
  with lastSpaceWidth_le [of s]
  show "(take (length s - lastSpaceWidth s) s, s) \<in> measure length" by simp
qed simp

declare TrimLeftSpace.simps [simp del] TrimRightSpace.simps [simp del]

definition TrimSpace :: "string \<Rightarrow> string" where
  "TrimSpace s = TrimRightSpace (TrimLeftSpace s)"

lemma unicodeSpaces_neq_Nil: "p \<in> set unicodeSpaces \<Longrightarrow> p \<noteq> []"
  by (auto simp: unicodeSpaces_def)

text \<open>The bytes that occur in a white-space rune.\<close>

definition spaceByte :: "char \<Rightarrow> bool" where
  "spaceByte c \<longleftrightarrow> byte c \<in> {9, 10, 11, 12, 13, 32} \<or> 128 \<le> byte c"

lemma unicodeSpaces_bytes: "p \<in> set unicodeSpaces \<Longrightarrow> c \<in> set p \<Longrightarrow> spaceByte c"
  by (auto simp: unicodeSpaces_def spaceByte_def)

lemma spaceWidth_0:
  assumes "s = [] \<or> \<not> spaceByte (hd s)"
  shows "spaceWidth s = 0"
proof -
  have "\<not> prefix p s" if p: "p \<in> set unicodeSpaces" for p
  proof -
    obtain c q where "p = c # q"
      using unicodeSpaces_neq_Nil [OF p] by (cases p) auto
    with assms unicodeSpaces_bytes [OF p, of c] show ?thesis
      by (cases s) auto
  qed
  then have "find (\<lambda>p. prefix p s) unicodeSpaces = None"
    by (simp add: find_None_iff)
  then show ?thesis by (simp add: spaceWidth_def)
qed

lemma lastSpaceWidth_0:
  assumes "s = [] \<or> \<not> spaceByte (last s)"
  shows "lastSpaceWidth s = 0"
proof -
  have "\<not> suffix p s" if p: "p \<in> set unicodeSpaces" for p
  proof -
    obtain c q where "p = q @ [c]"
      using unicodeSpaces_neq_Nil [OF p] by (cases p rule: rev_cases) auto
    with assms unicodeSpaces_bytes [OF p, of c] show ?thesis
      by (cases s rule: rev_cases) auto
  qed
  then have "find (\<lambda>p. suffix p s) unicodeSpaces = None"
    by (simp add: find_None_iff)
  then show ?thesis by (simp add: lastSpaceWidth_def)
qed

lemma TrimSpace_id:
  assumes "s = [] \<or> \<not> spaceByte (hd s) \<and> \<not> spaceByte (last s)"
  shows "TrimSpace s = s"
proof -
  have "TrimLeftSpace s = s"
    using assms spaceWidth_0 by (subst TrimLeftSpace.simps) auto
  moreover have "TrimRightSpace s = s"
    using assms lastSpaceWidth_0 by (subst TrimRightSpace.simps) auto
  ultimately show ?thesis by (simp add: TrimSpace_def)
qed

lemma TrimSpace_Nil [simp]: "TrimSpace [] = []"
  by (simp add: TrimSpace_id)

text \<open>Trimming twice is trimming once.\<close>

lemma spaceWidth_0_iff: "spaceWidth s = 0 \<longleftrightarrow> (\<forall>p \<in> set unicodeSpaces. \<not> prefix p s)"
proof (cases "find (\<lambda>p. prefix p s) unicodeSpaces")
  case None
  then have "\<forall>p \<in> set unicodeSpaces. \<not> prefix p s" by (auto simp: find_None_iff)
  with None show ?thesis by (simp add: spaceWidth_def)
next
  case (Some p)
  then have "p \<in> set unicodeSpaces" "prefix p s" by (auto simp: find_Some_iff)
  then show ?thesis using Some unicodeSpaces_neq_Nil by (auto simp: spaceWidth_def)
qed

lemma spaceWidth_prefix: "spaceWidth s = 0 \<Longrightarrow> prefix t s \<Longrightarrow> spaceWidth t = 0"
  unfolding spaceWidth_0_iff by (meson prefix_order.trans)

lemma spaceWidth_TrimLeftSpace: "spaceWidth (TrimLeftSpace s) = 0"
  by (induction s rule: TrimLeftSpace.induct) (subst TrimLeftSpace.simps, simp)

lemma lastSpaceWidth_TrimRightSpace: "lastSpaceWidth (TrimRightSpace s) = 0"
  by (induction s rule: TrimRightSpace.induct) (subst TrimRightSpace.simps, simp)

lemma prefix_TrimRightSpace: "prefix (TrimRightSpace s) s"
proof (induction s rule: TrimRightSpace.induct)
  case (1 s)
  then show ?case by (subst TrimRightSpace.simps) (auto intro: prefix_order.trans take_is_prefix)
qed

lemma TrimSpace_idem [simp]: "TrimSpace (TrimSpace s) = TrimSpace s"
proof -
  let ?t = "TrimSpace s"
  have "spaceWidth ?t = 0"
    unfolding TrimSpace_def by (rule spaceWidth_prefix [OF spaceWidth_TrimLeftSpace prefix_TrimRightSpace])
  then have "TrimLeftSpace ?t = ?t" by (subst TrimLeftSpace.simps) simp
  moreover have "TrimRightSpace ?t = ?t"
    using lastSpaceWidth_TrimRightSpace [of "TrimLeftSpace s"] by (subst TrimRightSpace.simps) (simp add: TrimSpace_def)
  ultimately show ?thesis by (simp add: TrimSpace_def)
qed

lemma set_TrimLeftSpace: "set (TrimLeftSpace s) \<subseteq> set s"
proof (induction s rule: TrimLeftSpace.induct)
  case (1 s)
  then show ?case
    by (subst TrimLeftSpace.simps) (auto dest: in_set_dropD)
qed

lemma set_TrimRightSpace: "set (TrimRightSpace s) \<subseteq> set s"
proof (induction s rule: TrimRightSpace.induct)
  case (1 s)
  then show ?case
    by (subst TrimRightSpace.simps) (auto dest: in_set_takeD)
qed

lemma set_TrimSpace: "set (TrimSpace s) \<subseteq> set s"
  unfolding TrimSpace_def using set_TrimLeftSpace set_TrimRightSpace by blast

text \<open>\<^verbatim>\<open>strings.Fields\<close>: the maximal runs of non-space bytes.\<close>

function fieldsFrom :: "string \<Rightarrow> string \<Rightarrow> string list" where
  "fieldsFrom w [] = (if w = [] then [] else [w])"
| "fieldsFrom w (c # s) =
     (if spaceWidth (c # s) = 0 then fieldsFrom (w @ [c]) s
      else (if w = [] then [] else [w]) @ fieldsFrom [] (drop (spaceWidth (c # s)) (c # s)))"
  by pat_completeness auto
termination
proof (relation "measure (\<lambda>(_, s). length s)")
  fix w s :: string and c
  assume "spaceWidth (c # s) \<noteq> 0"
  then show "(([], drop (spaceWidth (c # s)) (c # s)), w, c # s) \<in> measure (\<lambda>(_, s). length s)"
    by (cases "spaceWidth (c # s)") auto
qed auto

definition Fields :: "string \<Rightarrow> string list" where
  "Fields s = fieldsFrom [] s"

section \<open>Case\<close>

text \<open>
  \<^verbatim>\<open>strings.ToLower\<close>: exact on ASCII bytes and on the two runes outside ASCII whose lower
  case is an ASCII letter (U+0130 and U+212A). Every other rune outside ASCII has a lower
  case outside ASCII; which one is left open (the bytes are kept), and no caller can tell:
  each compares the result with ASCII words or replaces every rune outside ASCII.
\<close>

definition lowerByte :: "char \<Rightarrow> char" where
  "lowerByte c = (if 65 \<le> byte c \<and> byte c \<le> 90 then char_of (byte c + 32) else c)"

fun ToLower :: "string \<Rightarrow> string" where
  "ToLower [] = []"
| "ToLower (c # s) =
     (if byte c = 196 \<and> s \<noteq> [] \<and> byte (hd s) = 176 then CHR ''i'' # ToLower (tl s)
      else if byte c = 226 \<and> map byte (take 2 s) = [132, 170] then CHR ''k'' # ToLower (drop 2 s)
      else lowerByte c # ToLower s)"

section \<open>Numbers\<close>

text \<open>
  \<^verbatim>\<open>strconv.ParseUint(s, base, bits)\<close> for an explicit base up to ten,
  \<^verbatim>\<open>ParseInt(s, 10, 64)\<close> and \<^verbatim>\<open>Atoi\<close> (64-bit ints): \<^const>\<open>None\<close> is the error, for a
  syntax error and for a value out of range alike.
\<close>

definition isDigit :: "nat \<Rightarrow> char \<Rightarrow> bool" where
  "isDigit base c \<longleftrightarrow> 48 \<le> byte c \<and> byte c < 48 + base"

definition digitsVal :: "nat \<Rightarrow> string \<Rightarrow> nat" where
  "digitsVal base s = foldl (\<lambda>n c. n * base + (byte c - 48)) 0 s"

definition ParseUint :: "string \<Rightarrow> nat \<Rightarrow> nat \<Rightarrow> nat option" where
  "ParseUint s base bits =
     (if s = [] \<or> \<not> list_all (isDigit base) s then None
      else let n = digitsVal base s in if n < 2 ^ bits then Some n else None)"

definition ParseInt64 :: "string \<Rightarrow> int option" where
  "ParseInt64 s =
     (case s of [] \<Rightarrow> None
      | c # r \<Rightarrow>
         let neg = (c = CHR ''-''); body = (if c = CHR ''-'' \<or> c = CHR ''+'' then r else s) in
         (case ParseUint body 10 64 of None \<Rightarrow> None
          | Some n \<Rightarrow>
             if \<not> neg \<and> n \<ge> 2 ^ 63 then None
             else if neg \<and> n > 2 ^ 63 then None
             else Some (if neg then - int n else int n)))"

definition Atoi :: "string \<Rightarrow> int option" where
  "Atoi s = ParseInt64 s"

text \<open>\<^verbatim>\<open>strconv.FormatUint\<close>, \<^verbatim>\<open>FormatInt\<close>, \<^verbatim>\<open>Itoa\<close> and \<^verbatim>\<open>FormatBool\<close>.\<close>

function FormatUint :: "nat \<Rightarrow> nat \<Rightarrow> string" where
  "FormatUint base n = (if n < base \<or> base < 2 then [char_of (48 + n)]
     else FormatUint base (n div base) @ [char_of (48 + n mod base)])"
  by pat_completeness auto
termination
  by (relation "measure (\<lambda>(_, n). n)") auto

declare FormatUint.simps [simp del]

definition FormatInt :: "int \<Rightarrow> string" where
  "FormatInt i = (if i < 0 then CHR ''-'' # FormatUint 10 (nat (- i)) else FormatUint 10 (nat i))"

definition FormatBool :: "bool \<Rightarrow> string" where
  "FormatBool b = (if b then ''true'' else ''false'')"

lemma FormatUint_digits:
  assumes "2 \<le> base" "base \<le> 10"
  shows "list_all (isDigit base) (FormatUint base n) \<and> FormatUint base n \<noteq> [] \<and>
    digitsVal base (FormatUint base n) = n"
  using assms
proof (induction base n rule: FormatUint.induct)
  case (1 base n)
  show ?case
  proof (cases "n < base")
    case True
    with "1.prems" show ?thesis
      by (subst (1 2 3) FormatUint.simps) (simp add: isDigit_def digitsVal_def)
  next
    case False
    have lt: "n mod base < base" using "1.prems" by simp
    with "1.prems" have "48 + n mod base < 256" by linarith
    then have d: "byte (char_of (48 + n mod base) :: char) = 48 + n mod base"
      by simp
    from False "1.prems" have IH: "list_all (isDigit base) (FormatUint base (n div base))"
      "digitsVal base (FormatUint base (n div base)) = n div base"
      using "1.IH" by auto
    from False "1.prems"
    have u: "FormatUint base n = FormatUint base (n div base) @ [char_of (48 + n mod base)]"
      by (subst FormatUint.simps) simp
    show ?thesis
      unfolding u using IH d lt by (simp add: list_all_iff isDigit_def digitsVal_def)
  qed
qed

lemma ParseUint_FormatUint:
  "2 \<le> base \<Longrightarrow> base \<le> 10 \<Longrightarrow> n < 2 ^ bits \<Longrightarrow> ParseUint (FormatUint base n) base bits = Some n"
  using FormatUint_digits [of base n] by (simp add: ParseUint_def)

lemma FormatUint_inject:
  "2 \<le> base \<Longrightarrow> base \<le> 10 \<Longrightarrow> FormatUint base m = FormatUint base n \<Longrightarrow> m = n"
  by (metis FormatUint_digits)

lemma FormatUint_hd:
  assumes "2 \<le> base" "base \<le> 10" "c \<in> set (FormatUint base n)"
  shows "48 \<le> byte c \<and> byte c < 58"
  using FormatUint_digits [OF assms(1,2), of n] assms
  by (auto simp: list_all_iff isDigit_def)

lemma ParseInt64_FormatInt:
  assumes "- (2 ^ 63) \<le> i" and "i < 2 ^ 63"
  shows "ParseInt64 (FormatInt i) = Some i"
proof (cases "i < 0")
  case True
  then have "nat (- i) < 2 ^ 64" and "nat (- i) \<le> 2 ^ 63" using assms by auto
  then show ?thesis
    using True ParseUint_FormatUint [of 10 "nat (- i)" 64]
    by (simp add: FormatInt_def ParseInt64_def)
next
  case False
  define s where "s = FormatUint 10 (nat i)"
  have s: "s \<noteq> []" using FormatUint_digits [of 10 "nat i"] by (simp add: s_def)
  then obtain c r where cr: "s = c # r" by (cases s) auto
  have "c \<noteq> CHR ''-''" and "c \<noteq> CHR ''+''"
    using FormatUint_hd [of 10 c "nat i"] cr s_def by auto
  moreover have "ParseUint s 10 64 = Some (nat i)"
    using False assms ParseUint_FormatUint [of 10 "nat i" 64] by (simp add: s_def)
  ultimately show ?thesis
    using False assms cr by (simp add: FormatInt_def ParseInt64_def flip: s_def)
qed

lemma FormatInt_inject: "FormatInt i = FormatInt j \<Longrightarrow> i = j"
proof -
  assume eq: "FormatInt i = FormatInt j"
  have hd: "hd (FormatUint 10 n) \<noteq> CHR ''-''" for n
    using FormatUint_hd [of 10 "hd (FormatUint 10 n)" n] FormatUint_digits [of 10 n] by auto
  have same: "(i < 0) = (j < 0)"
    using eq hd by (auto simp: FormatInt_def split: if_splits) (metis list.sel(1))+
  then show "i = j"
    using eq by (auto simp: FormatInt_def split: if_splits dest!: FormatUint_inject [rotated 2])
qed

end
