(* ===== verification/Labels.thy ===== *)
theory Labels
  imports GoStrings
begin

text \<open>
  \<^verbatim>\<open>internal/controller/labels.go\<close>: the identifiers of volumes and pools that are usable in
  Kubernetes label keys, and the label keys built from them.
\<close>

section \<open>Definitions\<close>

definition LabelPrefix :: string where
  "LabelPrefix = ''simple-volume.shipstuff.io''"

text \<open>\<^verbatim>\<open>labelUnsafe\<close>, the regular expression \<^verbatim>\<open>[^a-z0-9A-Z_.-]+\<close>, and its \<^verbatim>\<open>ReplaceAllString\<close>
  with a dash: every maximal run of other bytes becomes one dash.\<close>

definition labelChar :: "char \<Rightarrow> bool" where
  "labelChar c \<longleftrightarrow> (CHR ''a'' \<le> c \<and> c \<le> CHR ''z'') \<or> (CHR ''0'' \<le> c \<and> c \<le> CHR ''9'') \<or>
     (CHR ''A'' \<le> c \<and> c \<le> CHR ''Z'') \<or> c = CHR ''_'' \<or> c = CHR ''.'' \<or> c = CHR ''-''"

fun replaceUnsafe :: "bool \<Rightarrow> string \<Rightarrow> string" where
  "replaceUnsafe inRun [] = []"
| "replaceUnsafe inRun (c # s) =
     (if labelChar c then c # replaceUnsafe False s
      else if inRun then replaceUnsafe True s
      else CHR ''-'' # replaceUnsafe True s)"

definition VolumeLabelID :: "string \<Rightarrow> string \<Rightarrow> string" where
  "VolumeLabelID namespace name =
     (let id0 = (if namespace \<noteq> '''' then namespace @ ''.'' @ name else name);
          id1 = ToLower id0;
          id2 = ReplaceAll id1 ''/'' ''.'';
          id3 = replaceUnsafe False id2;
          id4 = Trim id3 ''-.'' in
      if id4 = '''' then ''volume''
      else if length id4 > 45 then Trim (take 45 id4) ''-.''
      else id4)"

definition HealthyLabel :: "string \<Rightarrow> string \<Rightarrow> string" where
  "HealthyLabel namespace name = LabelPrefix @ ''/'' @ VolumeLabelID namespace name @ ''-healthy''"

definition RoleLabel :: "string \<Rightarrow> string \<Rightarrow> string" where
  "RoleLabel namespace name = LabelPrefix @ ''/'' @ VolumeLabelID namespace name @ ''-role''"

definition CandidateLabel :: "string \<Rightarrow> string \<Rightarrow> string" where
  "CandidateLabel namespace name = LabelPrefix @ ''/'' @ VolumeLabelID namespace name @ ''-candidate''"

definition PoolLabel :: "string \<Rightarrow> string" where
  "PoolLabel pool = LabelPrefix @ ''/pool-'' @ VolumeLabelID '''' pool"

section \<open>Well-formed label names\<close>

definition lowerLabelChar :: "char \<Rightarrow> bool" where
  "lowerLabelChar c \<longleftrightarrow> labelChar c \<and> \<not> (CHR ''A'' \<le> c \<and> c \<le> CHR ''Z'')"

lemma byte_order: "c \<le> d \<longleftrightarrow> byte c \<le> byte d"
  by (simp add: less_eq_char_def)

lemma lowerByte_not_upper: "\<not> (CHR ''A'' \<le> lowerByte c \<and> lowerByte c \<le> CHR ''Z'')"
  by (auto simp: lowerByte_def byte_order)

lemma ToLower_not_upper: "c \<in> set (ToLower s) \<Longrightarrow> \<not> (CHR ''A'' \<le> c \<and> c \<le> CHR ''Z'')"
  by (induction s rule: ToLower.induct)
    (use lowerByte_not_upper in \<open>auto simp: byte_order split: if_splits\<close>)

lemma replaceUnsafe_chars:
  "c \<in> set (replaceUnsafe b s) \<Longrightarrow> labelChar c \<and> (c \<in> set s \<or> c = CHR ''-'')"
  by (induction b s rule: replaceUnsafe.induct) (auto simp: labelChar_def split: if_splits)

lemma labelID_chars:
  "c \<in> set (replaceUnsafe False (ReplaceAll (ToLower s) ''/'' ''.'')) \<Longrightarrow> lowerLabelChar c"
proof -
  assume c: "c \<in> set (replaceUnsafe False (ReplaceAll (ToLower s) ''/'' ''.''))"
  then have "c \<in> set (ToLower s) \<or> c = CHR ''.'' \<or> c = CHR ''-''"
    using replaceUnsafe_chars [OF c] set_ReplaceAll [of "ToLower s" "''/''" "''.''"] by auto
  then have "\<not> (CHR ''A'' \<le> c \<and> c \<le> CHR ''Z'')"
    using ToLower_not_upper by (auto simp: byte_order)
  then show "lowerLabelChar c"
    using replaceUnsafe_chars [OF c] by (simp add: lowerLabelChar_def)
qed

lemma Trim_take_neq_Nil:
  assumes "Trim s cs = s" "s \<noteq> []" "0 < n"
  shows "Trim (take n s) cs \<noteq> []"
proof -
  obtain c r where s: "s = c # r" using assms(2) by (cases s) auto
  then have "c \<notin> set cs" using Trim_hd [of s cs] assms(1) by auto
  then have c: "TrimLeft (take n s) cs = c # take (n - 1) r"
    using s assms(3) by (cases n) (auto simp: TrimLeft_def)
  have "c \<in> set (rev (c # take (n - 1) r))" by simp
  with \<open>c \<notin> set cs\<close> have "dropWhile (\<lambda>x. x \<in> set cs) (rev (c # take (n - 1) r)) \<noteq> []"
    by (auto simp: dropWhile_eq_Nil_conv)
  then show ?thesis unfolding Trim_def c TrimRight_def by simp
qed

text \<open>
  Label identifiers are well formed for every namespace and name: between 1 and 45
  lower-case label characters that neither begin nor end with a dash or a dot, so the name
  part of each label key stays within the 63 characters Kubernetes allows.
\<close>

theorem VolumeLabelID_wellformed:
  "0 < length (VolumeLabelID ns name) \<and> length (VolumeLabelID ns name) \<le> 45 \<and>
   list_all lowerLabelChar (VolumeLabelID ns name) \<and>
   hd (VolumeLabelID ns name) \<notin> set ''-.'' \<and> last (VolumeLabelID ns name) \<notin> set ''-.''"
proof -
  define t where "t = Trim (replaceUnsafe False (ReplaceAll (ToLower
    (if ns \<noteq> '''' then ns @ ''.'' @ name else name)) ''/'' ''.'')) ''-.''"
  have v: "VolumeLabelID ns name =
      (if t = '''' then ''volume'' else if length t > 45 then Trim (take 45 t) ''-.'' else t)"
    by (simp add: VolumeLabelID_def t_def Let_def)
  have chars: "\<forall>c \<in> set t. lowerLabelChar c"
    unfolding t_def using set_Trim labelID_chars by blast
  have "\<forall>c \<in> set (Trim (take 45 t) ''-.''). lowerLabelChar c"
    using chars set_Trim [of "take 45 t" "''-.''"] set_take_subset [of 45 t] by blast
  moreover have "list_all lowerLabelChar ''volume''"
    by (simp add: lowerLabelChar_def labelChar_def byte_order)
  moreover have "t \<noteq> '''' \<Longrightarrow> Trim (take 45 t) ''-.'' \<noteq> ''''"
    by (rule Trim_take_neq_Nil) (simp_all add: t_def)
  moreover have "length (Trim (take 45 t) ''-.'') \<le> 45"
    using length_Trim_le [of "take 45 t" "''-.''"] by simp
  moreover have "t \<noteq> '''' \<Longrightarrow> hd t \<notin> set ''-.'' \<and> last t \<notin> set ''-.''"
    unfolding t_def using Trim_hd Trim_last by blast
  moreover have "Trim (take 45 t) ''-.'' \<noteq> '''' \<Longrightarrow>
      hd (Trim (take 45 t) ''-.'') \<notin> set ''-.'' \<and> last (Trim (take 45 t) ''-.'') \<notin> set ''-.''"
    using Trim_hd Trim_last by blast
  ultimately show ?thesis
    using chars by (auto simp: v list_all_iff)
qed

section \<open>Distinct claims have distinct labels, up to the length bound\<close>

text \<open>Names as Kubernetes admits them: a namespace is a DNS label, a claim a DNS subdomain.\<close>

definition dnsEdge :: "char \<Rightarrow> bool" where
  "dnsEdge c \<longleftrightarrow> (CHR ''a'' \<le> c \<and> c \<le> CHR ''z'') \<or> (CHR ''0'' \<le> c \<and> c \<le> CHR ''9'')"

definition dnsSubdomain :: "string \<Rightarrow> bool" where
  "dnsSubdomain s \<longleftrightarrow> s \<noteq> [] \<and> list_all (\<lambda>c. dnsEdge c \<or> c = CHR ''-'' \<or> c = CHR ''.'') s \<and>
     dnsEdge (hd s) \<and> dnsEdge (last s)"

definition dnsLabel :: "string \<Rightarrow> bool" where
  "dnsLabel s \<longleftrightarrow> dnsSubdomain s \<and> CHR ''.'' \<notin> set s"

definition plainLabelChar :: "char \<Rightarrow> bool" where
  "plainLabelChar c \<longleftrightarrow> dnsEdge c \<or> c = CHR ''-'' \<or> c = CHR ''.''"

lemma plainLabelChar_simps:
  assumes "plainLabelChar c"
  shows "labelChar c" "lowerByte c = c" "c \<noteq> slash" "byte c < 128"
  using assms by (auto simp: plainLabelChar_def dnsEdge_def labelChar_def lowerByte_def byte_order)

lemma ToLower_plain: "list_all plainLabelChar s \<Longrightarrow> ToLower s = s"
proof (induction s)
  case (Cons c s)
  then show ?case using plainLabelChar_simps [of c] by simp
qed simp

lemma replaceUnsafe_plain: "list_all plainLabelChar s \<Longrightarrow> replaceUnsafe b s = s"
proof (induction s arbitrary: b)
  case (Cons c s)
  then show ?case using plainLabelChar_simps [of c] by simp
qed simp

lemma VolumeLabelID_plain:
  assumes "dnsSubdomain (ns @ ''.'' @ name)" "ns \<noteq> ''''" "length (ns @ ''.'' @ name) \<le> 45"
  shows "VolumeLabelID ns name = ns @ ''.'' @ name"
proof -
  let ?s = "ns @ ''.'' @ name"
  have pl: "list_all plainLabelChar ?s"
    using assms(1) unfolding dnsSubdomain_def plainLabelChar_def by blast
  then have "slash \<notin> set ?s" using plainLabelChar_simps(3) by (auto simp: list_all_iff)
  then have "ReplaceAll ?s ''/'' ''.'' = ?s" by (rule ReplaceAll_notin)
  moreover have "Trim ?s ''-.'' = ?s"
    using assms(1) by (intro Trim_id) (auto simp: dnsSubdomain_def dnsEdge_def byte_order)
  ultimately show ?thesis
    using assms(2,3) unfolding VolumeLabelID_def Let_def
    by (simp add: ToLower_plain [OF pl] replaceUnsafe_plain [OF pl] del: append_Cons append_Nil)
qed

lemma dnsSubdomain_join:
  assumes "dnsLabel ns" "dnsSubdomain name"
  shows "dnsSubdomain (ns @ ''.'' @ name)" "ns \<noteq> ''''"
  using assms by (auto simp: dnsLabel_def dnsSubdomain_def)

text \<open>
  Two claims with valid Kubernetes names get the same role label only if they are the
  same claim, as long as namespace and name together fit the 45 characters that are kept.
\<close>

theorem RoleLabel_inject:
  assumes "dnsLabel ns" "dnsSubdomain name" "dnsLabel ns'" "dnsSubdomain name'"
    and "length ns + length name \<le> 44" "length ns' + length name' \<le> 44"
    and "RoleLabel ns name = RoleLabel ns' name'"
  shows "ns = ns' \<and> name = name'"
proof -
  have "VolumeLabelID ns name = ns @ ''.'' @ name" "VolumeLabelID ns' name' = ns' @ ''.'' @ name'"
    using assms(5,6) VolumeLabelID_plain [OF dnsSubdomain_join [OF assms(1,2)]]
      VolumeLabelID_plain [OF dnsSubdomain_join [OF assms(3,4)]] by simp_all
  then have eq: "ns @ CHR ''.'' # name = ns' @ CHR ''.'' # name'"
    using assms(7) by (simp add: RoleLabel_def)
  moreover have "CHR ''.'' \<notin> set ns" "CHR ''.'' \<notin> set ns'"
    using assms(1,3) by (simp_all add: dnsLabel_def)
  ultimately show ?thesis
    by (simp add: append_sep_inject)
qed

theorem RoleLabel_inject_witness: "RoleLabel ''games'' ''world'' \<noteq> RoleLabel ''games'' ''mods''"
  using RoleLabel_inject [of "''games''" "''world''" "''games''" "''mods''"]
  by (auto simp: dnsLabel_def dnsSubdomain_def dnsEdge_def byte_order)

text \<open>Beyond the bound two claims of one namespace can share their labels.\<close>

lemma RoleLabel_collision:
  fixes long
  defines "long \<equiv> replicate 50 (CHR ''a'')"
  shows "RoleLabel ''n'' (long @ ''1'') = RoleLabel ''n'' (long @ ''2'')"
  unfolding long_def by code_simp

end
