(* ===== verification/GoDuration.thy ===== *)
theory GoDuration
  imports GoStrings
begin

text \<open>
  \<^verbatim>\<open>time.ParseDuration\<close>: an optional sign, then numbers with units. Fractions go through
  \<^verbatim>\<open>float64\<close> arithmetic in the library; the roundings to 53 bits are written out on
  fractions of naturals. \<^const>\<open>None\<close> stands for every syntax or range error.
\<close>

function bitLen :: "int \<Rightarrow> int" where
  "bitLen n = (if n \<le> 0 then 0 else 1 + bitLen (n div 2))"
  by pat_completeness auto
termination
  by (relation "measure nat") auto

declare bitLen.simps [simp del]

definition roundHalfEven :: "int \<Rightarrow> int \<Rightarrow> int" where
  "roundHalfEven p q =
     (let m = p div q; r = p mod q in
      if 2 * r < q then m else if 2 * r > q then m + 1 else if even m then m else m + 1)"

text \<open>The \<^verbatim>\<open>float64\<close> nearest to a positive fraction, as a fraction again (no subnormals arise here).\<close>

definition float64 :: "int \<times> int \<Rightarrow> int \<times> int" where
  "float64 x = (case x of (p, q) \<Rightarrow>
     if p = 0 then (0, 1)
     else
       let up = 54 + bitLen q; big = p * 2 ^ nat up div q;
           sh = up - (bitLen big - 53)
       in if sh \<ge> 0 then (roundHalfEven (p * 2 ^ nat sh) q, 2 ^ nat sh)
          else (roundHalfEven p (q * 2 ^ nat (- sh)) * 2 ^ nat (- sh), 1))"

definition floatMul :: "int \<times> int \<Rightarrow> int \<times> int \<Rightarrow> int \<times> int" where
  "floatMul x y = float64 (fst x * fst y, snd x * snd y)"

definition durationUnit :: "string \<Rightarrow> int option" where
  "durationUnit u = map_of [(''ns'', 1), (''us'', 1000),
     ([CHR 0xC2, CHR 0xB5, CHR ''s''], 1000), ([CHR 0xCE, CHR 0xBC, CHR ''s''], 1000),
     (''ms'', 1000000), (''s'', 1000000000), (''m'', 60000000000), (''h'', 3600000000000)] u"

text \<open>\<^verbatim>\<open>leadingInt\<close> on the digits it consumes, and \<^verbatim>\<open>leadingFraction\<close> with its silent overflow.\<close>

definition leadingInt :: "string \<Rightarrow> int option" where
  "leadingInt ds = foldl (\<lambda>acc c. case acc of None \<Rightarrow> None
     | Some x \<Rightarrow> if x > 2 ^ 63 div 10 then None
         else let y = x * 10 + (int (byte c) - 48) in if y > 2 ^ 63 then None else Some y) (Some 0) ds"

definition leadingFraction :: "string \<Rightarrow> int \<times> int" where
  "leadingFraction ds = (case foldl (\<lambda>(x, scale, over) c.
       if over then (x, scale, over)
       else if x > (2 ^ 63 - 1) div 10 then (x, scale, True)
       else let y = x * 10 + (int (byte c) - 48) in if y > 2 ^ 63 then (x, scale, True) else (y, scale * 10, False))
     (0, 1, False) ds of (x, scale, _) \<Rightarrow> (x, scale))"

abbreviation digit :: "char \<Rightarrow> bool" where "digit c \<equiv> isDigit 10 c"

text \<open>One number with its unit: its value and the rest of the text.\<close>

definition durationTerm :: "string \<Rightarrow> (int \<times> string) option" where
  "durationTerm s =
     (let ds = takeWhile digit s; s1 = dropWhile digit s;
          isDot = (s1 \<noteq> [] \<and> hd s1 = dot);
          fs = (if isDot then takeWhile digit (tl s1) else []);
          s2 = (if isDot then dropWhile digit (tl s1) else s1);
          u = takeWhile (\<lambda>c. \<not> (c = dot \<or> digit c)) s2;
          rest = dropWhile (\<lambda>c. \<not> (c = dot \<or> digit c)) s2 in
      if s = [] \<or> \<not> (hd s = dot \<or> digit (hd s)) then None
      else case leadingInt ds of None \<Rightarrow> None
      | Some v \<Rightarrow>
          if ds = [] \<and> fs = [] then None
          else if u = [] then None
          else case durationUnit u of None \<Rightarrow> None
          | Some unit \<Rightarrow>
              if v > 2 ^ 63 div unit then None
              else
                let (f, scale) = leadingFraction fs;
                    fv = floatMul (float64 (f, 1)) (float64 (unit, scale));
                    v2 = v * unit + (if f > 0 then fst fv div snd fv else 0)
                in if v2 > 2 ^ 63 then None else Some (v2, rest))"

lemma durationTerm_shorter: "durationTerm s = Some (v, rest) \<Longrightarrow> length rest < length s"
proof -
  assume t: "durationTerm s = Some (v, rest)"
  define s2 where "s2 = (if dropWhile digit s \<noteq> [] \<and> hd (dropWhile digit s) = dot
    then dropWhile digit (tl (dropWhile digit s)) else dropWhile digit s)"
  define u where "u = takeWhile (\<lambda>c. \<not> (c = dot \<or> digit c)) s2"
  have "u \<noteq> []" "rest = dropWhile (\<lambda>c. \<not> (c = dot \<or> digit c)) s2"
    using t by (auto simp: durationTerm_def s2_def u_def Let_def split: if_splits option.splits prod.splits)
  then have "length rest < length s2"
    unfolding u_def by (metis append_is_Nil_conv length_append length_greater_0_conv less_add_same_cancel2 takeWhile_dropWhile_id)
  moreover have "length s2 \<le> length s"
    using length_dropWhile_le [of digit s] length_dropWhile_le [of digit "tl (dropWhile digit s)"]
    by (auto simp: s2_def)
  ultimately show "length rest < length s" by simp
qed

function durationSum :: "int \<Rightarrow> string \<Rightarrow> int option" where
  "durationSum d s =
     (if s = [] then Some d
      else case durationTerm s of None \<Rightarrow> None
      | Some (v, rest) \<Rightarrow> if d + v > 2 ^ 63 then None else durationSum (d + v) rest)"
  by pat_completeness auto
termination
  by (relation "measure (\<lambda>(_, s). length s)") (auto dest: durationTerm_shorter)

declare durationSum.simps [simp del]

definition ParseDuration :: "string \<Rightarrow> duration option" where
  "ParseDuration s0 =
     (let signed = (s0 \<noteq> [] \<and> (hd s0 = CHR ''-'' \<or> hd s0 = CHR ''+''));
          neg = (s0 \<noteq> [] \<and> hd s0 = CHR ''-'');
          s = (if signed then tl s0 else s0) in
      if s = ''0'' then Some 0
      else if s = [] then None
      else case durationSum 0 s of None \<Rightarrow> None
      | Some d \<Rightarrow> if neg then Some (- d)
          else if d > 2 ^ 63 - 1 then None else Some d)"

lemma ParseDuration_examples:
  "ParseDuration ''90s'' = Some (90 * second)" "ParseDuration ''1.5h'' = Some (90 * minute)"
  "ParseDuration ''-3ms'' = Some (- 3000000)" "ParseDuration ''10'' = None"
  by code_simp+

end
