(* ===== verification/GoTime.thy ===== *)
theory GoTime
  imports GoStrings
begin

text \<open>
  The calendar side of Go's \<^verbatim>\<open>time\<close> package: the proleptic Gregorian date and the clock of
  an instant (nanoseconds since 1 January of year 1, UTC), and the layouts the program
  formats with. A local time is the instant shifted by its zone's offset.
\<close>

definition nsPerDay :: int where "nsPerDay = 86400 * second"

definition daysOf :: "time \<Rightarrow> int" where
  "daysOf t = t div nsPerDay"

definition isLeap :: "int \<Rightarrow> bool" where
  "isLeap y \<longleftrightarrow> 4 dvd y \<and> (\<not> 100 dvd y \<or> 400 dvd y)"

text \<open>The year and the day of the year, from the day count.\<close>

definition yearDay :: "int \<Rightarrow> int \<times> int" where
  "yearDay d =
     (let n400 = d div 146097; d1 = d mod 146097;
          n100 = min 3 (d1 div 36524); d2 = d1 - n100 * 36524;
          n4 = d2 div 1461; d3 = d2 mod 1461;
          n1 = min 3 (d3 div 365)
      in (400 * n400 + 100 * n100 + 4 * n4 + n1 + 1, d3 - n1 * 365))"

definition monthLengths :: "int \<Rightarrow> int list" where
  "monthLengths y = [31, if isLeap y then 29 else 28, 31, 30, 31, 30, 31, 31, 30, 31, 30, 31]"

fun monthDay :: "int list \<Rightarrow> int \<Rightarrow> int \<Rightarrow> int \<times> int" where
  "monthDay [] m d = (m, d)"
| "monthDay (l # ls) m d = (if d < l \<or> ls = [] then (m, d + 1) else monthDay ls (m + 1) (d - l))"

definition civil :: "time \<Rightarrow> int \<times> int \<times> int" where
  "civil t = (let (y, yd) = yearDay (daysOf t); (m, d) = monthDay (monthLengths y) 1 yd in (y, m, d))"

definition Hour :: "time \<Rightarrow> int" where
  "Hour t = t mod nsPerDay div (3600 * second)"

definition Minute :: "time \<Rightarrow> int" where
  "Minute t = t mod nsPerDay div minute mod 60"

definition Second :: "time \<Rightarrow> int" where
  "Second t = t mod nsPerDay div second mod 60"

definition Nanosecond :: "time \<Rightarrow> int" where
  "Nanosecond t = t mod second"

definition padInt :: "nat \<Rightarrow> int \<Rightarrow> string" where
  "padInt w i = (let s = FormatInt i in replicate (w - length s) CHR ''0'' @ s)"

text \<open>Layouts \<^verbatim>\<open>2006-01-02\<close> and \<^verbatim>\<open>20060102T150405.000000000Z\<close>.\<close>

definition FormatDate :: "time \<Rightarrow> string" where
  "FormatDate t = (let (y, m, d) = civil t in padInt 4 y @ ''-'' @ padInt 2 m @ ''-'' @ padInt 2 d)"

definition FormatStamp :: "time \<Rightarrow> string" where
  "FormatStamp t = (let (y, m, d) = civil t in
     padInt 4 y @ padInt 2 m @ padInt 2 d @ ''T'' @ padInt 2 (Hour t) @ padInt 2 (Minute t) @
     padInt 2 (Second t) @ ''.'' @ padInt 9 (Nanosecond t) @ ''Z'')"

lemma set_padInt: "c \<in> set (padInt w i) \<Longrightarrow> c = CHR ''-'' \<or> isDigit 10 c"
  using FormatUint_digits [of 10 "nat i"] FormatUint_digits [of 10 "nat (- i)"]
  by (auto simp: padInt_def FormatInt_def Let_def list_all_iff isDigit_def split: if_splits)

lemma FormatStamp_no_slash: "slash \<notin> set (FormatStamp t)"
proof -
  have "slash \<notin> set (padInt w i)" for w i
    using set_padInt [of slash w i] by (auto simp: isDigit_def)
  then show ?thesis by (auto simp: FormatStamp_def split: prod.splits)
qed

lemma last_FormatStamp: "last (FormatStamp t) = CHR ''Z''"
  by (simp add: FormatStamp_def split: prod.splits)

text \<open>Layout \<^verbatim>\<open>time.RFC3339Nano\<close> in UTC: the fraction loses its trailing zeros.\<close>

definition FormatRFC3339Nano :: "time \<Rightarrow> string" where
  "FormatRFC3339Nano t =
     FormatDate t @ ''T'' @ padInt 2 (Hour t) @ '':'' @ padInt 2 (Minute t) @ '':'' @ padInt 2 (Second t) @
     (if Nanosecond t = 0 then '''' else ''.'' @ TrimRight (padInt 9 (Nanosecond t)) ''0'') @ ''Z''"

end
