(* ===== verification/KubeTypes.thy ===== *)
theory KubeTypes
  imports Labels GoDuration GoTime
begin

text \<open>
  The Kubernetes objects and API calls the controllers use. The records keep the fields the
  code reads or writes; quantities are integers, maps association lists, conditions pairs of
  type and status. The API server is not part of the program: it is a record of functions
  over a world \<^typ>\<open>'k\<close> that the definitions take as an argument.
\<close>

section \<open>Objects\<close>

type_synonym resource_list = "(string, int) gomap"

record SecurityContext =
  scRunAsUser :: "int option"
  scRunAsGroup :: "int option"
  scFSGroup :: "int option"

record Container =
  conRequests :: resource_list
  conVolumeMounts :: "string list"
  conSecurity :: "SecurityContext option"

record PodVolume =
  volName :: string
  volClaim :: "string option"

record PodSpec =
  spVolumes :: "PodVolume list"
  spNodeName :: string
  spContainers :: "Container list"
  spInitContainers :: "Container list"
  spSecurity :: "SecurityContext option"

record Pod =
  podNamespace :: string
  podName :: string
  podCreated :: time
  podSpec :: PodSpec
  podPhase :: string
  podIP :: string
  podConditions :: "(string \<times> string) list"

record PVC =
  pvcNamespace :: string
  pvcName :: string
  pvcAnnotations :: "(string, string) gomap"
  pvcStorageClass :: "string option"
  pvcVolumeName :: string

record PV =
  pvName :: string
  pvAnnotations :: "(string, string) gomap"

record Node =
  nodeName :: string
  nodeLabels :: "(string, string) gomap"
  nodeUnschedulable :: bool
  nodeConditions :: "(string \<times> string) list"
  nodeAllocatable :: resource_list

text \<open>Deployments, stateful sets, replica sets and daemon sets, with the fields read of any.\<close>

record Workload =
  wlName :: string
  wlReplicas :: "int option"
  wlTemplate :: PodSpec
  wlClaimTemplates :: "string list"

definition PodRunning :: string where "PodRunning = ''Running''"
definition PodSucceeded :: string where "PodSucceeded = ''Succeeded''"
definition PodFailed :: string where "PodFailed = ''Failed''"
definition ReadyCondition :: string where "ReadyCondition = ''Ready''"
definition ConditionTrue :: string where "ConditionTrue = ''True''"

definition ResourceCPU :: string where "ResourceCPU = ''cpu''"
definition ResourceMemory :: string where "ResourceMemory = ''memory''"

section \<open>The API\<close>

text \<open>A merge patch of labels: a value sets a label, \<^const>\<open>None\<close> removes it.\<close>

type_synonym label_patch = "(string, string option) gomap"

record 'k kube =
  kListPVCs :: "('k, PVC list) io"
  kListPods :: "string \<Rightarrow> string \<Rightarrow> ('k, Pod list) io"
  kListNodes :: "('k, Node list) io"
  kGetPV :: "string \<Rightarrow> ('k, PV) io"
  kUpdatePV :: "PV \<Rightarrow> ('k, unit) io"
  kGetPVC :: "string \<Rightarrow> string \<Rightarrow> ('k, PVC) io"
  kUpdatePVC :: "PVC \<Rightarrow> ('k, unit) io"
  kPatchNode :: "string \<Rightarrow> label_patch \<Rightarrow> ('k, unit) io"
  kDeletePod :: "string \<Rightarrow> string \<Rightarrow> ('k, unit) io"
  kListDeployments :: "string \<Rightarrow> ('k, Workload list) io"
  kListStatefulSets :: "string \<Rightarrow> ('k, Workload list) io"
  kListReplicaSets :: "string \<Rightarrow> ('k, Workload list) io"
  kListDaemonSets :: "string \<Rightarrow> ('k, Workload list) io"
  kGetSecret :: "string \<Rightarrow> string \<Rightarrow> ('k, (string, string) gomap) io"

text \<open>\<^verbatim>\<open>ReplicationControllerConfig\<close>, shared by the two controllers.\<close>

record ReplicationControllerConfig =
  cfgNamespace :: string
  cfgStorageClassName :: string
  cfgTokenSecretName :: string
  cfgTokenSecretKey :: string
  cfgReconcileInterval :: duration
  cfgFailoverTimeout :: duration
  cfgHTTPTimeout :: duration
  cfgAgentLabelSelector :: string

section \<open>Readers of objects and annotations\<close>

text \<open>The helpers of \<^verbatim>\<open>replication_controller.go\<close> that both controllers call.\<close>

definition csvAnnotation :: "string \<Rightarrow> string list" where
  "csvAnnotation value = filter (\<lambda>part. part \<noteq> '''') (map TrimSpace (Split (CHR '','') value))"

definition truthy :: "string \<Rightarrow> bool" where
  "truthy value = (ToLower (TrimSpace value) \<in> set [''1'', ''t'', ''true'', ''y'', ''yes'', ''on''])"

definition AnnotationReplicationEnabled :: string where
  "AnnotationReplicationEnabled = LabelPrefix @ ''/replication-enabled''"

definition replicationEnabled :: "PVC \<Rightarrow> string \<Rightarrow> bool" where
  "replicationEnabled pvc storageClass = (case pvcStorageClass pvc of
     None \<Rightarrow> False
   | Some sc \<Rightarrow> if sc \<noteq> storageClass then False
       else truthy (gostr (pvcAnnotations pvc) AnnotationReplicationEnabled))"

definition podSpecUsesClaim :: "PodSpec \<Rightarrow> string \<Rightarrow> bool" where
  "podSpecUsesClaim spec claim = list_ex (\<lambda>v. volClaim v = Some claim) (spVolumes spec)"

definition podUsesClaim :: "Pod \<Rightarrow> string \<Rightarrow> bool" where
  "podUsesClaim pod claim = list_ex (\<lambda>v. volClaim v = Some claim) (spVolumes (podSpec pod))"

definition podReady :: "Pod \<Rightarrow> bool" where
  "podReady pod = list_ex (\<lambda>(t, s). t = ReadyCondition \<and> s = ConditionTrue) (podConditions pod)"

abbreviation podNode :: "Pod \<Rightarrow> string" where
  "podNode pod \<equiv> spNodeName (podSpec pod)"

text \<open>The map from node to agent pod; a later pod of the same node replaces an earlier one.\<close>

definition readyAgent :: "Pod \<Rightarrow> bool" where
  "readyAgent pod \<longleftrightarrow> podPhase pod = PodRunning \<and> podNode pod \<noteq> '''' \<and> podIP pod \<noteq> '''' \<and> podReady pod"

definition readyAgentPods :: "Pod list \<Rightarrow> (string, Pod) gomap" where
  "readyAgentPods pods =
     foldl (\<lambda>out pod. if readyAgent pod then AList.update (podNode pod) pod out else out) [] pods"

definition volumeKey :: "string \<Rightarrow> string \<Rightarrow> string" where
  "volumeKey namespace volume = namespace @ ''/'' @ volume"

definition pvcKey :: "PVC \<Rightarrow> string" where
  "pvcKey pvc = pvcNamespace pvc @ ''/'' @ pvcName pvc"

lemma csvAnnotation_members: "p \<in> set (csvAnnotation value) \<Longrightarrow> p \<noteq> [] \<and> CHR '','' \<notin> set p"
  using Split_no_sep set_TrimSpace by (fastforce simp: csvAnnotation_def)

lemma readyAgentPods_fold:
  assumes "distinct (map fst out)" "\<forall>(n, p) \<in> set out. readyAgent p \<and> podNode p = n"
  defines "step \<equiv> \<lambda>out pod. if readyAgent pod then AList.update (podNode pod) pod out else out"
  shows "distinct (map fst (foldl step out pods)) \<and>
    (\<forall>(n, p) \<in> set (foldl step out pods). readyAgent p \<and> podNode p = n)"
  using assms(1,2)
proof (induction pods arbitrary: out)
  case (Cons pod pods)
  have "distinct (map fst (step out pod))"
    using Cons.prems(1) by (auto simp: step_def distinct_update)
  moreover have "\<forall>(n, p) \<in> set (step out pod). readyAgent p \<and> podNode p = n"
    using Cons.prems(2) by (auto simp: step_def dest: alist_update_member split: if_splits)
  ultimately show ?case using Cons.IH by simp
qed simp

lemma readyAgentPods_distinct: "distinct (map fst (readyAgentPods pods))"
  using readyAgentPods_fold [of "[]" pods] by (simp add: readyAgentPods_def)

lemma readyAgentPods_ready:
  "(n, p) \<in> set (readyAgentPods pods) \<Longrightarrow> readyAgent p \<and> podNode p = n"
  using readyAgentPods_fold [of "[]" pods] by (auto simp: readyAgentPods_def)

end
