(* ===== verification/Failover.thy ===== *)
theory Failover
  imports KubeTypes
begin

text \<open>
  \<^verbatim>\<open>internal/controller/failover_controller.go\<close>: the failover controller. Its maps are the
  record \<open>FailoverState\<close>; a method of the controller is a computation over that state beside
  the Kubernetes world. The definitions stand in the order of the source, callees first.
\<close>

section \<open>State\<close>

definition AnnotationFailoverEnabled :: string where
  "AnnotationFailoverEnabled = LabelPrefix @ ''/failover-enabled''"
definition AnnotationFailoverGracePeriod :: string where
  "AnnotationFailoverGracePeriod = LabelPrefix @ ''/failover-grace-period''"
definition AnnotationFailoverMaxStaleness :: string where
  "AnnotationFailoverMaxStaleness = LabelPrefix @ ''/failover-max-staleness''"
definition AnnotationFailoverNodePriority :: string where
  "AnnotationFailoverNodePriority = LabelPrefix @ ''/failover-node-priority''"
definition AnnotationActiveNode :: string where
  "AnnotationActiveNode = LabelPrefix @ ''/active-node''"
definition AnnotationPreviousActiveNode :: string where
  "AnnotationPreviousActiveNode = LabelPrefix @ ''/previous-active-node''"
definition AnnotationSelectedNode :: string where
  "AnnotationSelectedNode = ''volume.kubernetes.io/selected-node''"

record ReplicaFreshness =
  rfLastSuccessfulSync :: time
  rfHealthy :: bool

definition zeroFreshness :: ReplicaFreshness where
  "zeroFreshness = \<lparr>rfLastSuccessfulSync = 0, rfHealthy = False\<rparr>"

record FailoverState =
  fcSeen :: "string \<rightharpoonup> time"
  fcFreshness :: "string \<rightharpoonup> (string, ReplicaFreshness) gomap"
  fcDemoted :: "string \<rightharpoonup> (string, bool) gomap"

definition NewFailoverController :: FailoverState where
  "NewFailoverController = \<lparr>fcSeen = Map.empty, fcFreshness = Map.empty, fcDemoted = Map.empty\<rparr>"

record FailoverDecision =
  fdPromote :: bool
  fdTargetNode :: string
  fdReason :: string

record FailoverCandidate =
  fcNode :: string
  fcReplica :: ReplicaFreshness

definition innerMap :: "(string \<rightharpoonup> ('k, 'v) gomap) \<Rightarrow> string \<Rightarrow> ('k, 'v) gomap" where
  "innerMap m key = (case m key of None \<Rightarrow> [] | Some inner \<Rightarrow> inner)"

definition RecordReplicaFreshness ::
    "string \<Rightarrow> string \<Rightarrow> string \<Rightarrow> time \<Rightarrow> bool \<Rightarrow> FailoverState \<Rightarrow> FailoverState" where
  "RecordReplicaFreshness namespace volume node lastSuccessfulSync healthy c =
     (if volume = '''' \<or> node = '''' \<or> IsZero lastSuccessfulSync then c
      else
        let key = volumeKey namespace volume;
            inner = innerMap (fcFreshness c) key
        in c\<lparr>fcFreshness := (fcFreshness c)(key \<mapsto> AList.update node
               \<lparr>rfLastSuccessfulSync = lastSuccessfulSync, rfHealthy = healthy\<rparr> inner)\<rparr>)"

definition ShouldBackupBeforeRestore :: "string \<Rightarrow> string \<Rightarrow> string \<Rightarrow> FailoverState \<Rightarrow> bool" where
  "ShouldBackupBeforeRestore namespace volume node c =
     goget (innerMap (fcDemoted c) (volumeKey namespace volume)) node False"

definition MarkRestored :: "string \<Rightarrow> string \<Rightarrow> string \<Rightarrow> FailoverState \<Rightarrow> FailoverState" where
  "MarkRestored namespace volume node c =
     (let key = volumeKey namespace volume in
      case fcDemoted c key of
        None \<Rightarrow> c
      | Some nodes \<Rightarrow>
          let nodes' = AList.delete node nodes in
          if nodes' = [] then c\<lparr>fcDemoted := (fcDemoted c)(key := None)\<rparr>
          else c\<lparr>fcDemoted := (fcDemoted c)(key \<mapsto> nodes')\<rparr>)"

definition recordDemoted :: "PVC \<Rightarrow> string \<Rightarrow> FailoverState \<Rightarrow> FailoverState" where
  "recordDemoted pvc node c =
     (if node = '''' \<or> pvcVolumeName pvc = '''' then c
      else
        let key = volumeKey (pvcNamespace pvc) (pvcVolumeName pvc)
        in c\<lparr>fcDemoted := (fcDemoted c)(key \<mapsto> AList.update node True (innerMap (fcDemoted c) key))\<rparr>)"

definition freshnessForPVC :: "PVC \<Rightarrow> FailoverState \<Rightarrow> (string, ReplicaFreshness) gomap" where
  "freshnessForPVC pvc c = innerMap (fcFreshness c) (volumeKey (pvcNamespace pvc) (pvcVolumeName pvc))"

definition demotedForPVC :: "PVC \<Rightarrow> FailoverState \<Rightarrow> (string, bool) gomap" where
  "demotedForPVC pvc c = innerMap (fcDemoted c) (volumeKey (pvcNamespace pvc) (pvcVolumeName pvc))"

definition forgetSeen :: "string \<Rightarrow> FailoverState \<Rightarrow> FailoverState" where
  "forgetSeen key c = c\<lparr>fcSeen := (fcSeen c)(key := None)\<rparr>"

definition noteSeen :: "string \<Rightarrow> time \<Rightarrow> FailoverState \<Rightarrow> FailoverState" where
  "noteSeen key now c = c\<lparr>fcSeen := (fcSeen c)(key \<mapsto> now)\<rparr>"

section \<open>Annotations\<close>

definition failoverEnabled :: "PVC \<Rightarrow> string \<Rightarrow> bool" where
  "failoverEnabled pvc storageClass =
     (if \<not> replicationEnabled pvc storageClass then False
      else truthy (gostr (pvcAnnotations pvc) AnnotationFailoverEnabled))"

definition durationAnnotation :: "PVC \<Rightarrow> string \<Rightarrow> duration \<Rightarrow> duration" where
  "durationAnnotation pvc key dflt =
     (let value = TrimSpace (gostr (pvcAnnotations pvc) key) in
      if value = '''' then dflt
      else case ParseDuration value of
        None \<Rightarrow> dflt
      | Some d \<Rightarrow> if d < 0 then dflt else d)"

definition failoverGracePeriod :: "PVC \<Rightarrow> duration" where
  "failoverGracePeriod pvc = durationAnnotation pvc AnnotationFailoverGracePeriod minute"

definition failoverMaxStaleness :: "PVC \<Rightarrow> duration" where
  "failoverMaxStaleness pvc = durationAnnotation pvc AnnotationFailoverMaxStaleness (2 * minute)"

definition failoverNodePriority :: "PVC \<Rightarrow> string list" where
  "failoverNodePriority pvc = csvAnnotation (gostr (pvcAnnotations pvc) AnnotationFailoverNodePriority)"

section \<open>Resources\<close>

text \<open>The two resource names the loops range over.\<close>

definition resourceNames :: "string list" where
  "resourceNames = [ResourceCPU, ResourceMemory]"

definition addResourceList :: "resource_list \<Rightarrow> resource_list \<Rightarrow> resource_list" where
  "addResourceList target source = foldl (\<lambda>t name. case map_of source name of
       None \<Rightarrow> t
     | Some quantity \<Rightarrow> if quantity = 0 then t else AList.update name (goget t name 0 + quantity) t)
     target resourceNames"

definition subtractResourceList :: "resource_list \<Rightarrow> resource_list \<Rightarrow> resource_list" where
  "subtractResourceList target source = foldl (\<lambda>t name. case map_of source name of
       None \<Rightarrow> t
     | Some quantity \<Rightarrow> if quantity = 0 then t
         else (case map_of t name of None \<Rightarrow> t
               | Some current \<Rightarrow> AList.update name (current - quantity) t))
     target resourceNames"

definition maxResourceList :: "resource_list \<Rightarrow> resource_list \<Rightarrow> resource_list" where
  "maxResourceList target source = foldl (\<lambda>t name. case map_of source name of
       None \<Rightarrow> t
     | Some quantity \<Rightarrow> if quantity = 0 then t
         else if goget t name 0 < quantity then AList.update name quantity t else t)
     target resourceNames"

definition podRequest :: "Pod \<Rightarrow> resource_list" where
  "podRequest pod =
     (let out = foldl (\<lambda>out con. addResourceList out (conRequests con)) [] (spContainers (podSpec pod))
      in foldl (\<lambda>out con. maxResourceList out (conRequests con)) out (spInitContainers (podSpec pod)))"

definition failoverWorkloadRequests :: "Pod list \<Rightarrow> resource_list" where
  "failoverWorkloadRequests pods = foldl (\<lambda>out pod. addResourceList out (podRequest pod)) [] pods"

definition nodeAllocatableCopy :: "Node \<Rightarrow> resource_list" where
  "nodeAllocatableCopy node = foldl (\<lambda>available name. case map_of (nodeAllocatable node) name of
       None \<Rightarrow> available | Some quantity \<Rightarrow> AList.update name quantity available) [] resourceNames"

definition podCounts :: "Pod \<Rightarrow> bool" where
  "podCounts pod \<longleftrightarrow> \<not> (podNode pod = '''' \<or> podPhase pod = PodSucceeded \<or> podPhase pod = PodFailed)"

definition nodeAvailableResources :: "Node list \<Rightarrow> Pod list \<Rightarrow> (string, resource_list) gomap" where
  "nodeAvailableResources nodes pods =
     (let out = foldl (\<lambda>out node. AList.update (nodeName node) (nodeAllocatableCopy node) out) [] nodes
      in foldl (\<lambda>out pod. if \<not> podCounts pod then out
           else case map_of out (podNode pod) of
             None \<Rightarrow> out
           | Some available \<Rightarrow> AList.update (podNode pod) (subtractResourceList available (podRequest pod)) out)
         out pods)"

definition nodeFitsRequests :: "string \<Rightarrow> resource_list \<Rightarrow> (string, resource_list) gomap \<Rightarrow> bool" where
  "nodeFitsRequests node requests available =
     (if requests = [] \<or> available = [] then True
      else case map_of available node of
        None \<Rightarrow> True
      | Some nodeAvailable \<Rightarrow>
          if nodeAvailable = [] then True
          else list_all (\<lambda>name. case map_of requests name of
              None \<Rightarrow> True
            | Some requested \<Rightarrow>
                if requested = 0 then True
                else (case map_of nodeAvailable name of
                    None \<Rightarrow> True
                  | Some free \<Rightarrow> if free = 0 then True else \<not> free < requested))
            resourceNames)"

section \<open>Pods and nodes\<close>

definition nodeReady :: "Node \<Rightarrow> bool" where
  "nodeReady node = (if nodeUnschedulable node then False
     else list_ex (\<lambda>(t, s). t = ReadyCondition \<and> s = ConditionTrue) (nodeConditions node))"

text \<open>The keys of the map \<^verbatim>\<open>readyNodeSet\<close> builds, all of them true.\<close>

definition readyNodeSet :: "Node list \<Rightarrow> string list" where
  "readyNodeSet nodes = map nodeName (filter nodeReady nodes)"

definition podsUsingClaim :: "Pod list \<Rightarrow> string \<Rightarrow> Pod list" where
  "podsUsingClaim pods claim = filter (\<lambda>pod. podUsesClaim pod claim) pods"

definition activeNodeFromPods :: "Pod list \<Rightarrow> string \<Rightarrow> string" where
  "activeNodeFromPods pods promotedNode =
     (case find (\<lambda>pod. podNode pod \<noteq> '''' \<and> podNode pod \<noteq> promotedNode) pods of
        None \<Rightarrow> '''' | Some pod \<Rightarrow> podNode pod)"

definition healthyClaimPodNode :: "Pod list \<Rightarrow> string list \<Rightarrow> string" where
  "healthyClaimPodNode pods readyNodes =
     (case find (\<lambda>pod. podPhase pod = PodRunning \<and> podNode pod \<noteq> '''' \<and> podNode pod \<in> set readyNodes) pods of
        None \<Rightarrow> '''' | Some pod \<Rightarrow> podNode pod)"

definition hasHealthyClaimPod :: "Pod list \<Rightarrow> string list \<Rightarrow> bool" where
  "hasHealthyClaimPod pods readyNodes \<longleftrightarrow> healthyClaimPodNode pods readyNodes \<noteq> ''''"

definition statefulSetVolumeClaimMatches :: "Workload \<Rightarrow> string \<Rightarrow> bool" where
  "statefulSetVolumeClaimMatches sts claim =
     list_ex (\<lambda>template. template = claim \<or> HasPrefix claim (template @ ''-'' @ wlName sts @ ''-''))
       (wlClaimTemplates sts)"

definition desiredReplicas :: "int option \<Rightarrow> int \<Rightarrow> int" where
  "desiredReplicas replicas defaultValue = (case replicas of None \<Rightarrow> defaultValue | Some n \<Rightarrow> n)"

section \<open>Candidates and decisions\<close>

definition failoverCandidates ::
    "Pod list \<Rightarrow> (string, Pod) gomap \<Rightarrow> string list \<Rightarrow> (string, ReplicaFreshness) gomap \<Rightarrow>
     (string, bool) gomap \<Rightarrow> duration \<Rightarrow> time \<Rightarrow> resource_list \<Rightarrow> (string, resource_list) gomap \<Rightarrow>
     FailoverCandidate list" where
  "failoverCandidates pods agents readyNodes freshness demoted maxStaleness now requests available =
     (let blocked = filter (\<lambda>n. n \<noteq> '''') (map podNode pods) in
      concat (map (\<lambda>node.
        if node \<notin> set readyNodes \<or> node \<in> set blocked \<or> goget demoted node False then []
        else
          let replica = goget freshness node zeroFreshness in
          if \<not> rfHealthy replica \<or> IsZero (rfLastSuccessfulSync replica) then []
          else if maxStaleness > 0 \<and> time_Sub now (rfLastSuccessfulSync replica) > maxStaleness then []
          else if \<not> nodeFitsRequests node requests available then []
          else [\<lparr>fcNode = node, fcReplica = replica\<rparr>]) (gokeys agents)))"

definition candidateBefore :: "FailoverCandidate \<Rightarrow> FailoverCandidate \<Rightarrow> bool" where
  "candidateBefore a b =
     (if rfLastSuccessfulSync (fcReplica a) = rfLastSuccessfulSync (fcReplica b) then fcNode a < fcNode b
      else rfLastSuccessfulSync (fcReplica a) > rfLastSuccessfulSync (fcReplica b))"

definition SelectFailoverTargetFromCandidates :: "FailoverCandidate list \<Rightarrow> string list \<Rightarrow> FailoverDecision" where
  "SelectFailoverTargetFromCandidates candidates priority =
     (case find (\<lambda>node. node \<in> fcNode ` set candidates) priority of
        Some node \<Rightarrow> \<lparr>fdPromote = True, fdTargetNode = node, fdReason = ''PreferredFreshReplicaNode''\<rparr>
      | None \<Rightarrow>
          let sorted = SliceStable candidateBefore candidates in
          if sorted = [] then \<lparr>fdPromote = False, fdTargetNode = '''', fdReason = ''NoReadyReplicaNode''\<rparr>
          else \<lparr>fdPromote = True, fdTargetNode = fcNode (sorted ! 0), fdReason = ''FreshReplicaNode''\<rparr>)"

definition SelectFailoverTarget ::
    "Pod list \<Rightarrow> (string, Pod) gomap \<Rightarrow> string list \<Rightarrow> (string, ReplicaFreshness) gomap \<Rightarrow> duration \<Rightarrow>
     time \<Rightarrow> FailoverDecision" where
  "SelectFailoverTarget pods agents readyNodes freshness maxStaleness now =
     SelectFailoverTargetFromCandidates
       (failoverCandidates pods agents readyNodes freshness [] maxStaleness now [] []) []"

definition initialActiveNode ::
    "(string, Pod) gomap \<Rightarrow> string list \<Rightarrow> string list \<Rightarrow> resource_list \<Rightarrow> (string, resource_list) gomap \<Rightarrow> string" where
  "initialActiveNode agents readyNodes priority requests available =
     (case find (\<lambda>node. gohas agents node \<and> node \<in> set readyNodes \<and> nodeFitsRequests node requests available) priority of
        Some node \<Rightarrow> node
      | None \<Rightarrow>
          let nodes = filter (\<lambda>node. node \<in> set readyNodes \<and> nodeFitsRequests node requests available) (gokeys agents);
              sorted = SliceStable (<) nodes
          in if sorted = [] then '''' else sorted ! 0)"

section \<open>Calls to the API\<close>

definition claimHasDesiredConsumer :: "'k kube \<Rightarrow> PVC \<Rightarrow> Pod list \<Rightarrow> ('k, bool) io" where
  "claimHasDesiredConsumer kube pvc usingClaim =
     (if usingClaim \<noteq> [] then io_return True
      else
        let ns = pvcNamespace pvc; claim = pvcName pvc;
            uses = (\<lambda>w. desiredReplicas (wlReplicas w) 1 > 0 \<and> podSpecUsesClaim (wlTemplate w) claim) in
        io_bind (kListDeployments kube ns) (\<lambda>deployments.
        if list_ex uses deployments then io_return True
        else io_bind (kListStatefulSets kube ns) (\<lambda>statefulSets.
        if list_ex (\<lambda>w. desiredReplicas (wlReplicas w) 1 > 0 \<and>
             (podSpecUsesClaim (wlTemplate w) claim \<or> statefulSetVolumeClaimMatches w claim)) statefulSets
        then io_return True
        else io_bind (kListReplicaSets kube ns) (\<lambda>replicaSets.
        if list_ex uses replicaSets then io_return True
        else io_bind (kListDaemonSets kube ns) (\<lambda>daemonSets.
        io_return (list_ex (\<lambda>w. podSpecUsesClaim (wlTemplate w) claim) daemonSets))))))"

definition promotedAnnotations :: "(string, string) gomap \<Rightarrow> string \<Rightarrow> string \<Rightarrow> (string, string) gomap" where
  "promotedAnnotations annotations targetNode previousActive =
     (let a = AList.update AnnotationActiveNode targetNode annotations in
      if previousActive \<noteq> '''' then AList.update AnnotationPreviousActiveNode previousActive a else a)"

definition promotePVCState :: "'k kube \<Rightarrow> PVC \<Rightarrow> string \<Rightarrow> string \<Rightarrow> ('k, unit) io" where
  "promotePVCState kube pvc targetNode previousActive =
     io_bind (kGetPVC kube (pvcNamespace pvc) (pvcName pvc)) (\<lambda>latest.
     let annotations = AList.delete AnnotationSelectedNode
           (promotedAnnotations (pvcAnnotations latest) targetNode previousActive) in
     if \<not> DeepEqualMap (pvcAnnotations latest) annotations
     then kUpdatePVC kube (latest\<lparr>pvcAnnotations := annotations\<rparr>)
     else io_return ())"

definition promoteStorageState :: "'k kube \<Rightarrow> PVC \<Rightarrow> string \<Rightarrow> string \<Rightarrow> ('k, unit) io" where
  "promoteStorageState kube pvc targetNode previousActive =
     (if pvcVolumeName pvc = ''''
      then io_fail (Errorf (''pvc '' @ pvcNamespace pvc @ ''/'' @ pvcName pvc @ '' has no bound volume''))
      else
        io_bind (kGetPV kube (pvcVolumeName pvc)) (\<lambda>pv.
        let annotations = promotedAnnotations (pvAnnotations pv) targetNode previousActive in
        io_bind (if \<not> DeepEqualMap (pvAnnotations pv) annotations
                 then kUpdatePV kube (pv\<lparr>pvAnnotations := annotations\<rparr>) else io_return ()) (\<lambda>_.
        promotePVCState kube pvc targetNode previousActive)))"

definition recordActiveNode :: "'k kube \<Rightarrow> PVC \<Rightarrow> string \<Rightarrow> string \<Rightarrow> ('k, unit) io" where
  "recordActiveNode kube pvc targetNode previousActive =
     (if pvcVolumeName pvc = '''' then promotePVCState kube pvc targetNode previousActive
      else promoteStorageState kube pvc targetNode previousActive)"

text \<open>The body of the loop over the nodes in \<^verbatim>\<open>reconcileNodeLabels\<close>.\<close>

definition nodeLabelPatch :: "PVC \<Rightarrow> string \<Rightarrow> FailoverCandidate list \<Rightarrow> Node \<Rightarrow> label_patch" where
  "nodeLabelPatch pvc activeNode candidates node =
     (let roleLabel = RoleLabel (pvcNamespace pvc) (pvcName pvc);
          candidateLabel = CandidateLabel (pvcNamespace pvc) (pvcName pvc) in
      (if nodeName node = activeNode \<and> activeNode \<noteq> '''' then
         (if gostr (nodeLabels node) roleLabel \<noteq> ''active'' then [(roleLabel, Some ''active'')] else [])
       else (if gohas (nodeLabels node) roleLabel then [(roleLabel, None)] else [])) @
      (if nodeName node \<in> fcNode ` set candidates then
         (if gostr (nodeLabels node) candidateLabel \<noteq> ''true'' then [(candidateLabel, Some ''true'')] else [])
       else (if gohas (nodeLabels node) candidateLabel then [(candidateLabel, None)] else [])))"

definition reconcileNodeLabels :: "'k kube \<Rightarrow> PVC \<Rightarrow> string \<Rightarrow> FailoverCandidate list \<Rightarrow> ('k, unit) io" where
  "reconcileNodeLabels kube pvc activeNode candidates =
     io_bind (kListNodes kube) (\<lambda>nodes.
     io_foreach (\<lambda>node.
       let patchLabels = nodeLabelPatch pvc activeNode candidates node in
       if patchLabels = [] then io_return () else kPatchNode kube (nodeName node) patchLabels) nodes)"

definition promoteNodeLabel :: "'k kube \<Rightarrow> PVC \<Rightarrow> string \<Rightarrow> ('k, unit) io" where
  "promoteNodeLabel kube pvc targetNode = reconcileNodeLabels kube pvc targetNode []"

text \<open>The loop that demotes and deletes the pods bound elsewhere.\<close>

definition evictPod :: "'k kube \<Rightarrow> PVC \<Rightarrow> string \<Rightarrow> Pod \<Rightarrow> (FailoverState \<times> 'k, unit) io" where
  "evictPod kube pvc targetNode pod =
     (if podNode pod = '''' \<or> podNode pod = targetNode then io_return ()
      else
        io_bind (io_modify (recordDemoted pvc (podNode pod))) (\<lambda>_.
        io_try (io_outside (kDeletePod kube (podNamespace pod) (podName pod))) (\<lambda>r. case r of
          Inl e \<Rightarrow> if e \<noteq> ErrNotFound then io_fail e else io_return ()
        | Inr _ \<Rightarrow> io_return ())))"

text \<open>The promotion itself: storage state, node labels, eviction, and the end of the outage.\<close>

definition promotePVC ::
    "'k kube \<Rightarrow> PVC \<Rightarrow> Pod list \<Rightarrow> string \<Rightarrow> string \<Rightarrow> (FailoverState \<times> 'k, unit) io" where
  "promotePVC kube pvc usingClaim activeNode targetNode =
     (let previousActive0 = activeNodeFromPods usingClaim targetNode;
          previousActive = (if previousActive0 = '''' \<and> activeNode \<noteq> '''' \<and> activeNode \<noteq> targetNode
            then activeNode else previousActive0) in
      io_bind (io_outside (promoteStorageState kube pvc targetNode previousActive)) (\<lambda>_.
      io_bind (io_outside (promoteNodeLabel kube pvc targetNode)) (\<lambda>_.
      io_bind (io_foreach (evictPod kube pvc targetNode) usingClaim) (\<lambda>_.
      io_modify (forgetSeen (pvcKey pvc))))))"

definition reconcilePVC ::
    "'k kube \<Rightarrow> PVC \<Rightarrow> (string, Pod) gomap \<Rightarrow> string list \<Rightarrow> (string, resource_list) gomap \<Rightarrow> time \<Rightarrow>
     (FailoverState \<times> 'k, unit) io" where
  "reconcilePVC kube pvc agents readyNodes available now =
     io_bind (io_outside (kListPods kube (pvcNamespace pvc) '''')) (\<lambda>pods.
     let usingClaim = podsUsingClaim pods (pvcName pvc) in
     io_bind (io_get (freshnessForPVC pvc)) (\<lambda>freshness.
     io_bind (io_get (demotedForPVC pvc)) (\<lambda>demoted.
     let requests = failoverWorkloadRequests usingClaim;
         candidates = failoverCandidates usingClaim agents readyNodes freshness demoted
           (failoverMaxStaleness pvc) now requests available in
     io_bind (io_outside (claimHasDesiredConsumer kube pvc usingClaim)) (\<lambda>hasDemand.
     let active1 = healthyClaimPodNode usingClaim readyNodes;
         active2 = (if active1 = '''' then TrimSpace (gostr (pvcAnnotations pvc) AnnotationActiveNode) else active1);
         active3 = (if active2 = '''' then TrimSpace (gostr (pvcAnnotations pvc) AnnotationSelectedNode) else active2);
         activeNode = (if active3 = '''' \<and> hasDemand
           then initialActiveNode agents readyNodes (failoverNodePriority pvc) requests available else active3) in
     io_bind (if activeNode \<noteq> '''' then io_outside (recordActiveNode kube pvc activeNode '''') else io_return ()) (\<lambda>_.
     io_bind (io_outside (reconcileNodeLabels kube pvc activeNode candidates)) (\<lambda>_.
     if \<not> hasDemand then io_modify (forgetSeen (pvcKey pvc))
     else if hasHealthyClaimPod usingClaim readyNodes then io_modify (forgetSeen (pvcKey pvc))
     else io_bind (io_get (\<lambda>c. fcSeen c (pvcKey pvc))) (\<lambda>seen. case seen of
       None \<Rightarrow> io_modify (noteSeen (pvcKey pvc) now)
     | Some firstSeen \<Rightarrow>
         if time_Sub now firstSeen < failoverGracePeriod pvc then io_return ()
         else
           let decision = SelectFailoverTargetFromCandidates candidates (failoverNodePriority pvc) in
           if \<not> fdPromote decision then io_fail (Errorf (''failover blocked: '' @ fdReason decision))
           else promotePVC kube pvc usingClaim activeNode (fdTargetNode decision))))))))"

text \<open>\<^verbatim>\<open>FailoverController.Reconcile\<close>: errors of one claim are logged and do not stop the loop.\<close>

definition failoverReconcile ::
    "'k kube \<Rightarrow> ReplicationControllerConfig \<Rightarrow> time \<Rightarrow> (FailoverState \<times> 'k, unit) io" where
  "failoverReconcile kube cfg now =
     io_bind (io_outside (kListPVCs kube)) (\<lambda>pvcs.
     io_bind (io_outside (kListPods kube (cfgNamespace cfg) (cfgAgentLabelSelector cfg))) (\<lambda>agentPods.
     io_bind (io_outside (kListNodes kube)) (\<lambda>nodes.
     let readyNodes = readyNodeSet nodes; agents = readyAgentPods agentPods in
     io_bind (io_outside (kListPods kube '''' '''')) (\<lambda>allPods.
     let available = nodeAvailableResources nodes allPods in
     io_foreach (\<lambda>pvc.
       if \<not> failoverEnabled pvc (cfgStorageClassName cfg) then io_return ()
       else io_try (reconcilePVC kube pvc agents readyNodes available now) (\<lambda>_. io_return ())) pvcs))))"

section \<open>The registry of restores\<close>

text \<open>
  What the replication controller relies on when it restores replicas of one volume: a node
  marked as restored needs no backup any more, the others still do, and recording freshness
  changes nothing about it.
\<close>

locale restore_registry =
  fixes should_backup :: "'n \<Rightarrow> 's \<Rightarrow> bool"
    and mark_restored :: "'n \<Rightarrow> 's \<Rightarrow> 's"
    and record_fresh :: "'n \<Rightarrow> time \<Rightarrow> bool \<Rightarrow> 's \<Rightarrow> 's"
  assumes backup_restored: "should_backup n (mark_restored m s) \<longleftrightarrow> n \<noteq> m \<and> should_backup n s"
    and backup_fresh: "should_backup n (record_fresh m t healthy s) \<longleftrightarrow> should_backup n s"
begin

lemma backup_settled:
  "should_backup n (if should_backup m s then mark_restored m (record_fresh m t healthy s) else record_fresh m t healthy s)
     \<longleftrightarrow> n \<noteq> m \<and> should_backup n s"
  by (auto simp: backup_restored backup_fresh)

end

interpretation failoverRegistry: restore_registry
  "ShouldBackupBeforeRestore namespace volume" "MarkRestored namespace volume" "RecordReplicaFreshness namespace volume"
  for namespace volume
proof unfold_locales
  fix n m s
  show "ShouldBackupBeforeRestore namespace volume n (MarkRestored namespace volume m s) \<longleftrightarrow>
      n \<noteq> m \<and> ShouldBackupBeforeRestore namespace volume n s"
  proof (cases "fcDemoted s (volumeKey namespace volume)")
    case (Some nodes)
    have empty: "AList.delete m nodes = [] \<Longrightarrow> goget nodes n False \<longrightarrow> n = m"
      using goget_delete [of m nodes n False] by (auto simp: goget_def split: if_splits)
    from Some empty show ?thesis
      by (simp add: ShouldBackupBeforeRestore_def MarkRestored_def innerMap_def Let_def) (auto simp: goget_def)
  qed (simp add: ShouldBackupBeforeRestore_def MarkRestored_def innerMap_def goget_def)
next
  fix n m t healthy s
  show "ShouldBackupBeforeRestore namespace volume n (RecordReplicaFreshness namespace volume m t healthy s) \<longleftrightarrow>
      ShouldBackupBeforeRestore namespace volume n s"
    by (simp add: ShouldBackupBeforeRestore_def RecordReplicaFreshness_def innerMap_def Let_def)
qed

end
