(* ===== verification/FailoverProps.thy ===== *)
theory FailoverProps
  imports Failover
begin

text \<open>
  What the failover controller guarantees: which replicas are candidates and which one is
  chosen, that the order of Go's map iteration cannot influence the choice, what happens to
  node labels and resources, and under which conditions a pod is evicted.
\<close>

section \<open>Candidates\<close>

lemma candidateBefore_order: "\<not> candidateBefore a b \<longleftrightarrow>
    rfLastSuccessfulSync (fcReplica a) < rfLastSuccessfulSync (fcReplica b) \<or>
    rfLastSuccessfulSync (fcReplica a) = rfLastSuccessfulSync (fcReplica b) \<and> fcNode b \<le> fcNode a"
  by (auto simp: candidateBefore_def)

interpretation candidateOrder: go_less_keyed candidateBefore fcNode
  by unfold_locales (auto simp: candidateBefore_def split: if_splits)

interpretation stringOrder: go_less_keyed "(<) :: string \<Rightarrow> string \<Rightarrow> bool" "\<lambda>s. s"
  by unfold_locales auto

text \<open>A replica that may be promoted.\<close>

definition promotable ::
    "Pod list \<Rightarrow> string list \<Rightarrow> (string, ReplicaFreshness) gomap \<Rightarrow> (string, bool) gomap \<Rightarrow> duration \<Rightarrow> time \<Rightarrow>
     resource_list \<Rightarrow> (string, resource_list) gomap \<Rightarrow> string \<Rightarrow> bool" where
  "promotable pods readyNodes freshness demoted maxStaleness now requests available node \<longleftrightarrow>
     node \<in> set readyNodes \<and> node \<notin> podNode ` {p \<in> set pods. podNode p \<noteq> ''''} \<and> \<not> goget demoted node False \<and>
     (\<exists>replica. map_of freshness node = Some replica \<and> rfHealthy replica \<and> rfLastSuccessfulSync replica \<noteq> 0 \<and>
       (maxStaleness \<le> 0 \<or> time_Sub now (rfLastSuccessfulSync replica) \<le> maxStaleness)) \<and>
     nodeFitsRequests node requests available"

lemma goget_freshness_healthy:
  "rfHealthy (goget freshness node zeroFreshness) \<Longrightarrow>
     map_of freshness node = Some (goget freshness node zeroFreshness)"
  by (auto simp: goget_def zeroFreshness_def split: option.splits)

lemma failoverCandidates_filter:
  "failoverCandidates pods agents readyNodes freshness demoted maxStaleness now requests available =
   map (\<lambda>node. \<lparr>fcNode = node, fcReplica = goget freshness node zeroFreshness\<rparr>)
     (filter (promotable pods readyNodes freshness demoted maxStaleness now requests available) (gokeys agents))"
proof -
  have "(if node \<notin> set readyNodes \<or> node \<in> set (filter (\<lambda>n. n \<noteq> '''') (map podNode pods)) \<or> goget demoted node False then []
        else
          let replica = goget freshness node zeroFreshness in
          if \<not> rfHealthy replica \<or> IsZero (rfLastSuccessfulSync replica) then []
          else if maxStaleness > 0 \<and> time_Sub now (rfLastSuccessfulSync replica) > maxStaleness then []
          else if \<not> nodeFitsRequests node requests available then []
          else [\<lparr>fcNode = node, fcReplica = replica\<rparr>]) =
      (if promotable pods readyNodes freshness demoted maxStaleness now requests available node
       then [\<lparr>fcNode = node, fcReplica = goget freshness node zeroFreshness\<rparr>] else [])" for node
    using goget_freshness_healthy [of freshness node]
    by (auto simp: promotable_def Let_def IsZero_def image_iff not_less goget_def zeroFreshness_def
        split: option.splits)
  moreover have "concat (map (\<lambda>x. if P x then [f x] else []) xs) = map f (filter P xs)" for P f and xs :: "string list"
    by (induction xs) auto
  ultimately show ?thesis
    unfolding failoverCandidates_def Let_def by simp
qed

lemma candidate_nodes:
  "fcNode ` set (failoverCandidates pods agents readyNodes freshness demoted maxStaleness now requests available) =
   {node \<in> fst ` set agents. promotable pods readyNodes freshness demoted maxStaleness now requests available node}"
  by (force simp: failoverCandidates_filter gokeys_def)

section \<open>The choice\<close>

lemma SelectFailoverTarget_cases:
  assumes "d = SelectFailoverTargetFromCandidates cs priority"
  shows "fdPromote d \<longleftrightarrow> cs \<noteq> []"
    and "fdPromote d \<Longrightarrow> fdTargetNode d \<in> fcNode ` set cs"
    and "fdPromote d \<Longrightarrow> \<exists>n \<in> set priority. n \<in> fcNode ` set cs \<Longrightarrow>
      find (\<lambda>n. n \<in> fcNode ` set cs) priority = Some (fdTargetNode d)"
    and "fdPromote d \<Longrightarrow> \<not> (\<exists>n \<in> set priority. n \<in> fcNode ` set cs) \<Longrightarrow>
      fdTargetNode d = fcNode (hd (SliceStable candidateBefore cs))"
proof -
  let ?f = "find (\<lambda>n. n \<in> fcNode ` set cs) priority"
  have some: "n \<in> fcNode ` set cs" if "?f = Some n" for n
    using that by (auto simp: find_Some_iff)
  have none: "?f = None \<longleftrightarrow> \<not> (\<exists>n \<in> set priority. n \<in> fcNode ` set cs)"
    by (auto simp: find_None_iff)
  have hd: "cs \<noteq> [] \<Longrightarrow> SliceStable candidateBefore cs ! 0 = hd (SliceStable candidateBefore cs)"
    by (simp add: hd_conv_nth)
  have empty: "?f = None" if "cs = []" using that none by simp
  show "fdPromote d \<longleftrightarrow> cs \<noteq> []"
    using some empty by (auto simp: assms SelectFailoverTargetFromCandidates_def Let_def simp del: image_iff split: option.splits)
  show "fdPromote d \<Longrightarrow> fdTargetNode d \<in> fcNode ` set cs"
    using some hd candidateOrder.hd_SliceStable_mem [of cs]
    by (auto simp: assms SelectFailoverTargetFromCandidates_def Let_def split: option.splits if_splits)
  show "fdPromote d \<Longrightarrow> \<exists>n \<in> set priority. n \<in> fcNode ` set cs \<Longrightarrow> ?f = Some (fdTargetNode d)"
    using none by (auto simp: assms SelectFailoverTargetFromCandidates_def split: option.splits)
  show "fdPromote d \<Longrightarrow> \<not> (\<exists>n \<in> set priority. n \<in> fcNode ` set cs) \<Longrightarrow>
      fdTargetNode d = fcNode (hd (SliceStable candidateBefore cs))"
    using none hd by (auto simp: assms SelectFailoverTargetFromCandidates_def Let_def split: option.splits if_splits)
qed

text \<open>
  C15. The failover target: there is one exactly if some ready agent node is promotable
  (schedulable and ready, not running a pod of the claim, not demoted, holding a healthy
  replica within the staleness limit, with room for the workload). The target is promotable;
  it is the first promotable node of the priority list if there is one, and otherwise the
  node with the freshest replica, the smallest name among equally fresh ones.
\<close>

theorem failover_target_correct:
  fixes pods agents readyNodes freshness demoted maxStaleness now requests available priority
  defines "ok \<equiv> \<lambda>n. n \<in> fst ` set agents \<and>
      promotable pods readyNodes freshness demoted maxStaleness now requests available n"
    and "sync \<equiv> \<lambda>n. rfLastSuccessfulSync (goget freshness n zeroFreshness)"
    and "d \<equiv> SelectFailoverTargetFromCandidates (failoverCandidates pods agents readyNodes freshness demoted
        maxStaleness now requests available) priority"
  shows "(fdPromote d \<longleftrightarrow> (\<exists>n. ok n)) \<and>
    (fdPromote d \<longrightarrow> ok (fdTargetNode d) \<and>
      (if list_ex ok priority then Some (fdTargetNode d) = find ok priority
       else \<forall>n. ok n \<longrightarrow> sync n < sync (fdTargetNode d) \<or>
              sync n = sync (fdTargetNode d) \<and> fdTargetNode d \<le> n))"
proof -
  define cs where "cs = failoverCandidates pods agents readyNodes freshness demoted maxStaleness now requests available"
  have nodes: "n \<in> fcNode ` set cs \<longleftrightarrow> ok n" for n
    unfolding cs_def candidate_nodes ok_def by auto
  have d: "d = SelectFailoverTargetFromCandidates cs priority" by (simp add: d_def cs_def)
  note sel = SelectFailoverTarget_cases [OF d, unfolded nodes]
  have rep: "c \<in> set cs \<Longrightarrow> fcReplica c = goget freshness (fcNode c) zeroFreshness" for c
    by (auto simp: cs_def failoverCandidates_filter)
  have best: "sync n < sync (fdTargetNode d) \<or> sync n = sync (fdTargetNode d) \<and> fdTargetNode d \<le> n"
    if promote: "fdPromote d" and other: "\<not> list_ex ok priority" and n: "ok n" for n
  proof -
    have ne: "cs \<noteq> []" using sel(1) promote by simp
    obtain c where c: "c \<in> set cs" "fcNode c = n" using n nodes by (metis imageE)
    let ?b = "hd (SliceStable candidateBefore cs)"
    have "fdTargetNode d = fcNode ?b" using sel(4) promote other by (auto simp: list_ex_iff)
    moreover have "?b \<in> set cs" using ne by (rule candidateOrder.hd_SliceStable_mem)
    moreover have "\<not> candidateBefore c ?b" by (rule candidateOrder.hd_SliceStable_least [OF ne c(1)])
    ultimately show ?thesis
      using rep [of c] rep [of ?b] c by (auto simp: candidateBefore_order sync_def)
  qed
  have "fdPromote d \<longleftrightarrow> (\<exists>n. ok n)"
    using sel(1) nodes by (cases cs) force+
  then show ?thesis
    using sel(2,3) best by (auto simp: list_ex_iff)
qed

definition demoPod :: "string \<Rightarrow> string \<Rightarrow> string \<Rightarrow> Pod" where
  "demoPod name node claim = \<lparr>podNamespace = ''g'', podName = name, podCreated = 1,
     podSpec = \<lparr>spVolumes = [\<lparr>volName = ''v'', volClaim = Some claim\<rparr>], spNodeName = node,
       spContainers = [], spInitContainers = [], spSecurity = None\<rparr>,
     podPhase = PodRunning, podIP = ''10.0.0.1'', podConditions = [(ReadyCondition, ConditionTrue)]\<rparr>"

definition demoFreshness :: "(string, ReplicaFreshness) gomap" where
  "demoFreshness = [(''b'', \<lparr>rfLastSuccessfulSync = 5, rfHealthy = True\<rparr>)]"

lemma demo_promotable: "promotable [demoPod ''p'' ''a'' ''w''] [''b''] demoFreshness [] (2 * minute) 8 [] [] ''b''"
  by (auto simp: promotable_def demoFreshness_def demoPod_def goget_def time_Sub_def nodeFitsRequests_def
      minute_def second_def)

theorem failover_target_correct_witness:
  "fdPromote (SelectFailoverTargetFromCandidates (failoverCandidates [demoPod ''p'' ''a'' ''w'']
     [(''b'', demoPod ''agent'' ''b'' '''')] [''b''] demoFreshness [] (2 * minute) 8 [] []) [])"
  using failover_target_correct [of "[demoPod ''p'' ''a'' ''w'']" "[(''b'', demoPod ''agent'' ''b'' '''')]"
      "[''b'']" demoFreshness "[]" "2 * minute" 8 "[]" "[]" "[]"] demo_promotable
  by auto

text \<open>
  The decision does not depend on the order in which Go happens to range over the map
  of agents.
\<close>

theorem failover_target_map_order:
  assumes "mset agents = mset agents'" and "distinct (map fst agents)"
  shows "SelectFailoverTargetFromCandidates (failoverCandidates pods agents readyNodes freshness demoted
      maxStaleness now requests available) priority =
    SelectFailoverTargetFromCandidates (failoverCandidates pods agents' readyNodes freshness demoted
      maxStaleness now requests available) priority"
proof -
  let ?P = "promotable pods readyNodes freshness demoted maxStaleness now requests available"
  let ?f = "\<lambda>node. \<lparr>fcNode = node, fcReplica = goget freshness node zeroFreshness\<rparr>"
  let ?cs = "map ?f (filter ?P (gokeys agents))" and ?cs' = "map ?f (filter ?P (gokeys agents'))"
  have m: "mset (gokeys agents) = mset (gokeys agents')" using assms(1) by (simp add: gokeys_def)
  then have mc: "mset ?cs = mset ?cs'" by simp
  have "map fcNode ?cs = filter ?P (gokeys agents)" by (simp add: comp_def)
  then have "distinct (map fcNode ?cs)" using assms(2) by (simp add: gokeys_def)
  with mc have "SliceStable candidateBefore ?cs = SliceStable candidateBefore ?cs'"
    by (rule candidateOrder.SliceStable_perm)
  moreover have "set ?cs = set ?cs'" using mc by (rule mset_eq_setD)
  ultimately show ?thesis
    unfolding SelectFailoverTargetFromCandidates_def failoverCandidates_filter by (simp only:)
qed

theorem failover_target_map_order_witness:
  "SelectFailoverTargetFromCandidates (failoverCandidates []
      [(''a'', demoPod ''x'' ''a'' ''''), (''b'', demoPod ''y'' ''b'' '''')] [''a'', ''b''] demoFreshness [] 0 8 [] []) [] =
   SelectFailoverTargetFromCandidates (failoverCandidates []
      [(''b'', demoPod ''y'' ''b'' ''''), (''a'', demoPod ''x'' ''a'' '''')] [''a'', ''b''] demoFreshness [] 0 8 [] []) []"
  by (rule failover_target_map_order) (simp_all add: add_mset_commute)

section \<open>Node labels\<close>

text \<open>A JSON merge patch of labels, as the API server applies it.\<close>

definition mergePatch :: "(string, string) gomap \<Rightarrow> label_patch \<Rightarrow> (string, string) gomap" where
  "mergePatch labels patch = foldl (\<lambda>l (k, v). case v of
     None \<Rightarrow> AList.delete k l | Some x \<Rightarrow> AList.update k x l) labels patch"

lemma role_candidate_labels: "RoleLabel ns name \<noteq> CandidateLabel ns name"
  by (simp add: RoleLabel_def CandidateLabel_def)

text \<open>The part of a node's patch that concerns one label.\<close>

definition labelPiece :: "(string, string) gomap \<Rightarrow> string \<Rightarrow> string option \<Rightarrow> label_patch" where
  "labelPiece labels k want = (case want of
     Some v \<Rightarrow> if gostr labels k \<noteq> v then [(k, Some v)] else []
   | None \<Rightarrow> if gohas labels k then [(k, None)] else [])"

lemma nodeLabelPatch_pieces:
  "nodeLabelPatch pvc activeNode candidates node =
     labelPiece (nodeLabels node) (RoleLabel (pvcNamespace pvc) (pvcName pvc))
       (if activeNode \<noteq> '''' \<and> nodeName node = activeNode then Some ''active'' else None) @
     labelPiece (nodeLabels node) (CandidateLabel (pvcNamespace pvc) (pvcName pvc))
       (if nodeName node \<in> fcNode ` set candidates then Some ''true'' else None)"
  by (simp add: nodeLabelPatch_def labelPiece_def Let_def)

lemma gostr_eq: "v \<noteq> '''' \<Longrightarrow> gostr m k = v \<longleftrightarrow> map_of m k = Some v"
  by (auto simp: goget_def split: option.splits)

lemma labelPiece_Nil:
  "want \<noteq> Some '''' \<Longrightarrow> labelPiece labels k want = [] \<longleftrightarrow> map_of labels k = want"
  by (cases want) (auto simp: labelPiece_def gostr_eq gohas_def simp del: gohas_iff)

lemma mergePatch_piece:
  assumes "want \<noteq> Some ''''" "map_of labels k = map_of labels0 k"
  shows "map_of (mergePatch labels (labelPiece labels0 k want)) = (map_of labels)(k := want)"
proof (cases "labelPiece labels0 k want = []")
  case True
  then have "map_of labels k = want" using labelPiece_Nil [OF assms(1)] assms(2) by simp
  then show ?thesis using True by (auto simp: mergePatch_def)
next
  case False
  then show ?thesis
    by (cases want) (auto simp: labelPiece_def mergePatch_def update_conv' delete_conv' split: if_splits)
qed

lemma mergePatch_append: "mergePatch labels (p @ q) = mergePatch (mergePatch labels p) q"
  by (simp add: mergePatch_def)

text \<open>
  C34. Node labels converge in one pass: after the patch computed for a node is applied, the
  role label is present exactly on the active node, the candidate label exactly on the
  candidates, and every other label is untouched; and no patch is sent to a node whose
  labels are already right.
\<close>

theorem nodeLabelPatch_correct:
  fixes pvc activeNode candidates node
  defines "role \<equiv> RoleLabel (pvcNamespace pvc) (pvcName pvc)"
    and "cand \<equiv> CandidateLabel (pvcNamespace pvc) (pvcName pvc)"
    and "wantRole \<equiv> (if activeNode \<noteq> '''' \<and> nodeName node = activeNode then Some ''active'' else None)"
    and "wantCand \<equiv> (if nodeName node \<in> fcNode ` set candidates then Some ''true'' else None)"
  shows "map_of (mergePatch (nodeLabels node) (nodeLabelPatch pvc activeNode candidates node)) =
     (map_of (nodeLabels node))(role := wantRole, cand := wantCand) \<and>
   (nodeLabelPatch pvc activeNode candidates node = [] \<longleftrightarrow>
     map_of (nodeLabels node) role = wantRole \<and> map_of (nodeLabels node) cand = wantCand)"
proof -
  let ?l = "nodeLabels node"
  have p: "nodeLabelPatch pvc activeNode candidates node = labelPiece ?l role wantRole @ labelPiece ?l cand wantCand"
    unfolding nodeLabelPatch_pieces role_def cand_def wantRole_def wantCand_def ..
  have w: "wantRole \<noteq> Some ''''" "wantCand \<noteq> Some ''''" by (simp_all add: wantRole_def wantCand_def)
  have "role \<noteq> cand" unfolding role_def cand_def by (rule role_candidate_labels)
  then have "map_of (mergePatch (mergePatch ?l (labelPiece ?l role wantRole)) (labelPiece ?l cand wantCand)) =
      (map_of ?l)(role := wantRole, cand := wantCand)"
    using mergePatch_piece [OF w(1) refl, of ?l role] by (subst mergePatch_piece [OF w(2)]) simp_all
  then show ?thesis
    unfolding p mergePatch_append using labelPiece_Nil [OF w(1)] labelPiece_Nil [OF w(2)] by simp
qed

section \<open>Resources\<close>

lemma resource_names_distinct [simp]: "ResourceCPU \<noteq> ResourceMemory" "ResourceMemory \<noteq> ResourceCPU"
  by (simp_all add: ResourceCPU_def ResourceMemory_def)

lemma goget_addResourceList:
  assumes "r \<in> set resourceNames"
  shows "goget (addResourceList t s) r 0 = goget t r 0 + goget s r 0"
  using assms
  by (auto simp: addResourceList_def resourceNames_def goget_def update_conv' split: option.splits)

lemma map_of_subtractResourceList:
  assumes "r \<in> set resourceNames"
  shows "map_of (subtractResourceList t s) r = map_option (\<lambda>c. c - goget s r 0) (map_of t r)"
  using assms
  by (auto simp: subtractResourceList_def resourceNames_def goget_def update_conv' option.map_ident
      split: option.splits)

lemma map_of_nodeAllocatableCopy:
  assumes "r \<in> set resourceNames"
  shows "map_of (nodeAllocatableCopy node) r = map_of (nodeAllocatable node) r"
  using assms
  by (auto simp: nodeAllocatableCopy_def resourceNames_def update_conv' split: option.splits)

lemma failoverWorkloadRequests_sum:
  assumes "r \<in> set resourceNames"
  shows "goget (failoverWorkloadRequests pods) r 0 = (\<Sum>p \<leftarrow> pods. goget (podRequest p) r 0)"
proof -
  have "goget (foldl (\<lambda>out pod. addResourceList out (podRequest pod)) out pods) r 0 =
      goget out r 0 + (\<Sum>p \<leftarrow> pods. goget (podRequest p) r 0)" for out
    by (induction pods arbitrary: out) (simp_all add: goget_addResourceList [OF assms])
  then show ?thesis by (simp add: failoverWorkloadRequests_def goget_def)
qed

definition requestedOn :: "Pod list \<Rightarrow> string \<Rightarrow> string \<Rightarrow> int" where
  "requestedOn pods n r = (\<Sum>p \<leftarrow> filter (\<lambda>p. podCounts p \<and> podNode p = n) pods. goget (podRequest p) r 0)"

lemma subtract_pods:
  assumes "r \<in> set resourceNames"
  defines "step \<equiv> \<lambda>out pod. if \<not> podCounts pod then out
           else case map_of out (podNode pod) of
             None \<Rightarrow> out
           | Some available \<Rightarrow> AList.update (podNode pod) (subtractResourceList available (podRequest pod)) out"
  shows "map_option (\<lambda>a. map_of a r) (map_of (foldl step out pods) n) =
    map_option (\<lambda>a. map_option (\<lambda>c. c - requestedOn pods n r) (map_of a r)) (map_of out n)"
proof (induction pods arbitrary: out)
  case Nil
  then show ?case by (cases "map_of out n") (auto simp: requestedOn_def option.map_ident)
next
  case (Cons pod pods)
  have "map_option (\<lambda>a. map_of a r) (map_of (step out pod) n) =
      map_option (\<lambda>a. map_option (\<lambda>c. c - (if podCounts pod \<and> podNode pod = n then goget (podRequest pod) r 0 else 0))
        (map_of a r)) (map_of out n)"
    by (auto simp: step_def update_conv' map_of_subtractResourceList [OF assms(1)] option.map_ident split: option.splits)
  then have step: "map_option (\<lambda>a. map_option f (map_of a r)) (map_of (step out pod) n) =
      map_option (\<lambda>a. map_option f (map_option (\<lambda>c. c - (if podCounts pod \<and> podNode pod = n
        then goget (podRequest pod) r 0 else 0)) (map_of a r))) (map_of out n)" for f
    by (cases "map_of (step out pod) n"; cases "map_of out n") auto
  show ?case
    unfolding foldl_Cons Cons.IH step
    by (cases "map_of out n") (auto simp: requestedOn_def option.map_comp comp_def algebra_simps)
qed

lemma allocatable_nodes:
  assumes "distinct (map nodeName nodes)"
  shows "map_of (foldl (\<lambda>out node. AList.update (nodeName node) (nodeAllocatableCopy node) out) out nodes) n =
    (case find (\<lambda>node. nodeName node = n) nodes of Some node \<Rightarrow> Some (nodeAllocatableCopy node) | None \<Rightarrow> map_of out n)"
  using assms
proof (induction nodes arbitrary: out)
  case (Cons node nodes)
  have "find (\<lambda>x. nodeName x = nodeName node) nodes = None"
    using Cons.prems by (auto simp: find_None_iff image_iff)
  with Cons show ?case by (auto simp: update_conv' split: option.splits)
qed simp

text \<open>
  Free resources of a node: for CPU and memory, what failover takes as available on a
  node is its allocatable amount less the requests of all pods on it that have not finished.
\<close>

theorem nodeAvailableResources_balance:
  assumes "distinct (map nodeName nodes)" and "node \<in> set nodes" and "r \<in> set resourceNames"
  shows "\<exists>avail. map_of (nodeAvailableResources nodes pods) (nodeName node) = Some avail \<and>
    map_of avail r = map_option (\<lambda>q. q - (\<Sum>p \<leftarrow> filter (\<lambda>p. podCounts p \<and> podNode p = nodeName node) pods.
      goget (podRequest p) r 0)) (map_of (nodeAllocatable node) r)"
proof -
  have "find (\<lambda>x. nodeName x = nodeName node) nodes = Some node"
    using assms(1,2)
  proof (induction nodes)
    case (Cons a nodes)
    then show ?case by (cases "a = node") (auto simp: image_iff)
  qed simp
  then have "map_of (foldl (\<lambda>out node. AList.update (nodeName node) (nodeAllocatableCopy node) out) [] nodes)
      (nodeName node) = Some (nodeAllocatableCopy node)"
    by (simp add: allocatable_nodes [OF assms(1)])
  then have "map_option (\<lambda>a. map_of a r) (map_of (nodeAvailableResources nodes pods) (nodeName node)) =
      Some (map_option (\<lambda>c. c - requestedOn pods (nodeName node) r) (map_of (nodeAllocatable node) r))"
    unfolding nodeAvailableResources_def Let_def subtract_pods [OF assms(3)]
    by (simp add: map_of_nodeAllocatableCopy [OF assms(3)])
  then show ?thesis by (auto simp: requestedOn_def)
qed

definition demoNode :: "string \<Rightarrow> int \<Rightarrow> Node" where
  "demoNode n cpu = \<lparr>nodeName = n, nodeLabels = [], nodeUnschedulable = False,
     nodeConditions = [(ReadyCondition, ConditionTrue)], nodeAllocatable = [(ResourceCPU, cpu)]\<rparr>"

theorem nodeAvailableResources_balance_witness:
  "\<exists>avail. map_of (nodeAvailableResources [demoNode ''a'' 4, demoNode ''b'' 2] []) ''b'' = Some avail \<and>
     map_of avail ResourceCPU = Some 2"
  using nodeAvailableResources_balance [of "[demoNode ''a'' 4, demoNode ''b'' 2]" "demoNode ''b'' 2" ResourceCPU "[]"]
  by (simp add: demoNode_def resourceNames_def)

text \<open>A node with exactly nothing left counts as unlimited, not as full.\<close>

lemma nodeFitsRequests_zero_free:
  "nodeFitsRequests ''b'' [(ResourceCPU, 1000)] [(''b'', [(ResourceCPU, 0)])] \<and>
   \<not> nodeFitsRequests ''b'' [(ResourceCPU, 1000)] [(''b'', [(ResourceCPU, 1)])]"
  by (simp add: nodeFitsRequests_def resourceNames_def)

section \<open>Observing the API\<close>

text \<open>
  The API with its writes recorded: every call runs on the given API, and each write leaves
  an event. Statements about which writes happen are statements about this log.
\<close>

datatype kevent = EvUpdatePV PV | EvUpdatePVC PVC | EvPatchNode string label_patch | EvDeletePod string string

definition traced :: "'k kube \<Rightarrow> ('k \<times> kevent list) kube" where
  "traced kube = \<lparr>
     kListPVCs = io_quiet (kListPVCs kube),
     kListPods = (\<lambda>ns sel. io_quiet (kListPods kube ns sel)),
     kListNodes = io_quiet (kListNodes kube),
     kGetPV = (\<lambda>n. io_quiet (kGetPV kube n)),
     kUpdatePV = (\<lambda>pv. io_noisy (EvUpdatePV pv) (kUpdatePV kube pv)),
     kGetPVC = (\<lambda>ns n. io_quiet (kGetPVC kube ns n)),
     kUpdatePVC = (\<lambda>pvc. io_noisy (EvUpdatePVC pvc) (kUpdatePVC kube pvc)),
     kPatchNode = (\<lambda>n p. io_noisy (EvPatchNode n p) (kPatchNode kube n p)),
     kDeletePod = (\<lambda>ns n. io_noisy (EvDeletePod ns n) (kDeletePod kube ns n)),
     kListDeployments = (\<lambda>ns. io_quiet (kListDeployments kube ns)),
     kListStatefulSets = (\<lambda>ns. io_quiet (kListStatefulSets kube ns)),
     kListReplicaSets = (\<lambda>ns. io_quiet (kListReplicaSets kube ns)),
     kListDaemonSets = (\<lambda>ns. io_quiet (kListDaemonSets kube ns)),
     kGetSecret = (\<lambda>ns n. io_quiet (kGetSecret kube ns n))\<rparr>"

text \<open>A property of the log that only pod deletions can change.\<close>

definition deletionsOnly :: "(kevent list \<Rightarrow> bool) \<Rightarrow> bool" where
  "deletionsOnly J \<longleftrightarrow> (\<forall>es e. J es \<longrightarrow> (\<forall>ns n. e \<noteq> EvDeletePod ns n) \<longrightarrow> J (es @ [e]))"

lemma claimHasDesiredConsumer_inv: "io_inv (\<lambda>(k, es). J es) (claimHasDesiredConsumer (traced kube) pvc users)"
  unfolding claimHasDesiredConsumer_def Let_def traced_def kube.select_convs
  by (auto intro!: io_inv_intros)

lemma promotePVCState_inv:
  assumes "deletionsOnly J"
  shows "io_inv (\<lambda>(k, es). J es) (promotePVCState (traced kube) pvc target prev)"
proof -
  have "io_inv (\<lambda>(k, es). J es) (io_noisy (EvUpdatePVC p) m)" for p and m :: "('k, unit) io"
    using assms by (intro io_inv_noisy) (simp add: deletionsOnly_def)
  then show ?thesis
    unfolding promotePVCState_def Let_def traced_def kube.select_convs
    by (auto intro!: io_inv_intros)
qed

lemma promoteStorageState_inv:
  assumes "deletionsOnly J"
  shows "io_inv (\<lambda>(k, es). J es) (promoteStorageState (traced kube) pvc target prev)"
proof -
  have "io_inv (\<lambda>(k, es). J es) (io_noisy (EvUpdatePV p) m)" for p and m :: "('k, unit) io"
    using assms by (intro io_inv_noisy) (simp add: deletionsOnly_def)
  moreover have "kGetPV (traced kube) n = io_quiet (kGetPV kube n)"
    "kUpdatePV (traced kube) pv = io_noisy (EvUpdatePV pv) (kUpdatePV kube pv)" for n pv
    by (simp_all add: traced_def)
  ultimately show ?thesis
    unfolding promoteStorageState_def Let_def
    by (auto intro!: io_inv_intros promotePVCState_inv [OF assms])
qed

lemma recordActiveNode_inv:
  assumes "deletionsOnly J"
  shows "io_inv (\<lambda>(k, es). J es) (recordActiveNode (traced kube) pvc target prev)"
  unfolding recordActiveNode_def
  by (simp add: promotePVCState_inv [OF assms] promoteStorageState_inv [OF assms])

lemma reconcileNodeLabels_inv:
  assumes "deletionsOnly J"
  shows "io_inv (\<lambda>(k, es). J es) (reconcileNodeLabels (traced kube) pvc active cands)"
proof -
  have "io_inv (\<lambda>(k, es). J es) (io_noisy (EvPatchNode n p) m)" for n p and m :: "('k, unit) io"
    using assms by (intro io_inv_noisy) (simp add: deletionsOnly_def)
  then show ?thesis
    unfolding reconcileNodeLabels_def Let_def traced_def kube.select_convs
    by (auto intro!: io_inv_intros)
qed

lemmas api_log_invs = claimHasDesiredConsumer_inv recordActiveNode_inv reconcileNodeLabels_inv
  promoteStorageState_inv

section \<open>When a pod is evicted\<close>

text \<open>What is claimed of every deletion in the log of one reconciliation of a claim.\<close>

definition evicted :: "PVC \<Rightarrow> Pod list \<Rightarrow> string \<Rightarrow> FailoverState \<Rightarrow> kevent list \<Rightarrow> bool" where
  "evicted pvc users target c es \<longleftrightarrow>
     (\<forall>ns name. EvDeletePod ns name \<in> set es \<longrightarrow>
       (\<exists>pod \<in> set users. podNamespace pod = ns \<and> podName pod = name \<and>
          podNode pod \<noteq> '''' \<and> podNode pod \<noteq> target \<and>
          ShouldBackupBeforeRestore (pvcNamespace pvc) (pvcVolumeName pvc) (podNode pod) c))"

definition noDeletes :: "kevent list \<Rightarrow> bool" where
  "noDeletes es \<longleftrightarrow> (\<forall>ns name. EvDeletePod ns name \<notin> set es)"

lemma deletionsOnly_log: "deletionsOnly noDeletes" "deletionsOnly (evicted pvc users target c)"
  by (auto simp: deletionsOnly_def noDeletes_def evicted_def)

lemma noDeletes_evicted: "noDeletes es \<Longrightarrow> evicted pvc users target c es"
  by (simp add: noDeletes_def evicted_def)

lemma innerMap_upd: "innerMap (m(k \<mapsto> x)) k' = (if k' = k then x else innerMap m k')"
  by (simp add: innerMap_def)

lemma recordDemoted_backup:
  "pvcVolumeName pvc \<noteq> '''' \<Longrightarrow> node \<noteq> '''' \<Longrightarrow>
     ShouldBackupBeforeRestore (pvcNamespace pvc) (pvcVolumeName pvc) node (recordDemoted pvc node c)"
  by (simp add: recordDemoted_def ShouldBackupBeforeRestore_def Let_def innerMap_upd)

lemma recordDemoted_keeps:
  "ShouldBackupBeforeRestore ns v n c \<Longrightarrow> ShouldBackupBeforeRestore ns v n (recordDemoted pvc node c)"
  by (auto simp: recordDemoted_def ShouldBackupBeforeRestore_def Let_def innerMap_upd)

lemma evicted_demote:
  assumes "evicted pvc users target c es"
  shows "evicted pvc users target (recordDemoted pvc node c) es"
  using assms recordDemoted_keeps unfolding evicted_def by meson

lemma evictPod_triple:
  fixes kube :: "'k kube"
  assumes "pod \<in> set users" "pvcVolumeName pvc \<noteq> ''''"
  shows "io_triple (\<lambda>(c, k, es). evicted pvc users target c es) (evictPod (traced kube) pvc target pod)
    (\<lambda>_ (c, k, es). evicted pvc users target c es) (\<lambda>(c, k, es). evicted pvc users target c es)"
proof (cases "podNode pod = '''' \<or> podNode pod = target")
  case True
  then show ?thesis by (simp add: evictPod_def io_triple_return)
next
  case False
  let ?J = "\<lambda>(c, k :: 'k, es). evicted pvc users target c es \<and>
      ShouldBackupBeforeRestore (pvcNamespace pvc) (pvcVolumeName pvc) (podNode pod) c"
  let ?K = "\<lambda>(c, k :: 'k, es). evicted pvc users target c es"
  have "io_triple ?J (io_outside (kDeletePod (traced kube) (podNamespace pod) (podName pod))) (\<lambda>_. ?K) ?K"
  proof -
    have "io_inv ?J (io_outside (kDeletePod (traced kube) (podNamespace pod) (podName pod)))"
      unfolding io_inv_def
    proof (intro allI impI)
      fix s
      assume J: "?J s"
      obtain c k es where s: "s = (c, k, es)" by (cases s) auto
      obtain r k' where m: "kDeletePod kube (podNamespace pod) (podName pod) k = (r, k')" by fastforce
      have "evicted pvc users target c (es @ [EvDeletePod (podNamespace pod) (podName pod)])"
        using J False assms(1) by (auto simp: s evicted_def)
      then show "?J (snd (io_outside (kDeletePod (traced kube) (podNamespace pod) (podName pod)) s))"
        using J by (simp add: s io_outside_def traced_def io_noisy_def m)
    qed
    then show ?thesis by (rule io_triple_conseq [OF io_triple_inv]) auto
  qed
  then have del: "io_triple ?J (io_try (io_outside (kDeletePod (traced kube) (podNamespace pod) (podName pod)))
      (\<lambda>r. case r of Inl e \<Rightarrow> if e \<noteq> ErrNotFound then io_fail e else io_return () | Inr _ \<Rightarrow> io_return ())) (\<lambda>_. ?K) ?K"
    by (rule io_triple_try [where R = "\<lambda>_. ?K", OF io_triple_conseq])
      (auto simp: io_triple_fail io_triple_return split: sum.splits)
  have "io_triple ?K (io_modify (recordDemoted pvc (podNode pod)) :: (FailoverState \<times> _, unit) io) (\<lambda>_. ?J) ?K"
    using False assms(2) by (intro io_triple_modify) (auto simp: recordDemoted_backup evicted_demote)
  then have "io_triple ?K (io_bind (io_modify (recordDemoted pvc (podNode pod))) (\<lambda>_.
      io_try (io_outside (kDeletePod (traced kube) (podNamespace pod) (podName pod)))
      (\<lambda>r. case r of Inl e \<Rightarrow> if e \<noteq> ErrNotFound then io_fail e else io_return () | Inr _ \<Rightarrow> io_return ()))) (\<lambda>_. ?K) ?K"
    using del by (rule io_triple_bind)
  then show ?thesis using False unfolding evictPod_def by (simp only: if_False)
qed

lemma outside_triple:
  assumes "io_inv (\<lambda>(k, es). J es) m"
  shows "io_triple (\<lambda>(c, k, es). c = c0 \<and> J es) (io_outside m) (\<lambda>_ (c, k, es). c = c0 \<and> J es) (\<lambda>(c, k, es). c = c0 \<and> J es)"
proof (rule io_triple_inv)
  have "io_inv (\<lambda>k. case k of (k, es) \<Rightarrow> c = c0 \<and> J es) m" for c
    using assms by (cases "c = c0") (auto simp: io_inv_def)
  then show "io_inv (\<lambda>(c, k, es). c = c0 \<and> J es) (io_outside m)"
    by (intro io_inv_outside) simp
qed

lemma promotePVC_triple:
  fixes kube :: "'k kube"
  shows "io_triple (\<lambda>(c, k, es). c = c0 \<and> noDeletes es) (promotePVC (traced kube) pvc users active target)
    (\<lambda>_ (c, k, es). evicted pvc users target c es) (\<lambda>(c, k, es). evicted pvc users target c es)"
proof (cases "pvcVolumeName pvc = ''''")
  case True
  then have "promotePVC (traced kube) pvc users active target = (\<lambda>s. (Inl (Errorf (''pvc '' @ pvcNamespace pvc @
      ''/'' @ pvcName pvc @ '' has no bound volume'')), s))"
    by (auto simp: promotePVC_def promoteStorageState_def Let_def io_defs)
  then show ?thesis by (auto simp: io_triple_def noDeletes_evicted)
next
  case False
  let ?N = "\<lambda>(c, k :: 'k, es). c = c0 \<and> noDeletes es" and ?K = "\<lambda>(c, k :: 'k, es). evicted pvc users target c es"
  have out: "io_triple ?N (io_outside m) (\<lambda>_. ?N) ?K" if "io_inv (\<lambda>(k, es). noDeletes es) m" for m :: "(_, unit) io"
    using outside_triple [OF that] by (rule io_triple_conseq) (auto simp: noDeletes_evicted)
  have "io_triple ?K (io_foreach (evictPod (traced kube) pvc target) users) (\<lambda>_. ?K) ?K"
    using False by (intro io_triple_foreach evictPod_triple)
  then have evict: "io_triple ?N (io_foreach (evictPod (traced kube) pvc target) users) (\<lambda>_. ?K) ?K"
    by (rule io_triple_conseq) (auto simp: noDeletes_evicted)
  have forget: "io_triple ?K (io_modify (forgetSeen (pvcKey pvc))) (\<lambda>_. ?K) ?K"
    by (rule io_triple_modify) (simp add: evicted_def ShouldBackupBeforeRestore_def forgetSeen_def)
  show ?thesis
    unfolding promotePVC_def Let_def promoteNodeLabel_def
    by (intro io_triple_bind [OF out] io_triple_bind [OF evict] forget
        promoteStorageState_inv reconcileNodeLabels_inv deletionsOnly_log)
qed

text \<open>The decision of a reconciliation that listed \<open>pods\<close> in state \<open>c\<close>.\<close>

definition pvcDecision ::
    "PVC \<Rightarrow> Pod list \<Rightarrow> (string, Pod) gomap \<Rightarrow> string list \<Rightarrow> (string, resource_list) gomap \<Rightarrow> time \<Rightarrow> FailoverState \<Rightarrow>
     FailoverDecision" where
  "pvcDecision pvc pods agents readyNodes available now c =
     (let users = podsUsingClaim pods (pvcName pvc) in
      SelectFailoverTargetFromCandidates (failoverCandidates users agents readyNodes (freshnessForPVC pvc c)
        (demotedForPVC pvc c) (failoverMaxStaleness pvc) now (failoverWorkloadRequests users) available)
        (failoverNodePriority pvc))"

definition outageElapsed :: "PVC \<Rightarrow> time \<Rightarrow> FailoverState \<Rightarrow> bool" where
  "outageElapsed pvc now c = (case fcSeen c (pvcKey pvc) of
     None \<Rightarrow> False | Some t \<Rightarrow> failoverGracePeriod pvc \<le> time_Sub now t)"

text \<open>The condition a reconciliation keeps: no pod is deleted, or a promotion was due.\<close>

definition evictsOnlyDue ::
    "PVC \<Rightarrow> Pod list \<Rightarrow> string list \<Rightarrow> time \<Rightarrow> FailoverDecision \<Rightarrow> FailoverState \<Rightarrow> FailoverState \<times> 'k \<times> kevent list \<Rightarrow> bool" where
  "evictsOnlyDue pvc users readyNodes now d c0 = (\<lambda>(c, k, es). noDeletes es \<or>
     fdPromote d \<and> \<not> hasHealthyClaimPod users readyNodes \<and> outageElapsed pvc now c0 \<and> evicted pvc users (fdTargetNode d) c es)"

definition quietAt :: "FailoverState \<Rightarrow> FailoverState \<times> 'k \<times> kevent list \<Rightarrow> bool" where
  "quietAt c0 = (\<lambda>(c, k, es). c = c0 \<and> noDeletes es)"

lemma evictsOnlyDue_quiet: "quietAt c0 s \<Longrightarrow> evictsOnlyDue pvc users readyNodes now d c0 s"
  by (auto simp: evictsOnlyDue_def quietAt_def)

lemma promotePVC_due:
  fixes kube :: "'k kube"
  assumes "fdPromote d" "\<not> hasHealthyClaimPod users readyNodes" "outageElapsed pvc now c0"
  shows "io_triple (quietAt c0) (promotePVC (traced kube) pvc users active (fdTargetNode d))
    (\<lambda>_. evictsOnlyDue pvc users readyNodes now d c0) (evictsOnlyDue pvc users readyNodes now d c0)"
  using promotePVC_triple [of c0 kube pvc users active "fdTargetNode d"]
  by (rule io_triple_conseq) (use assms in \<open>auto simp: evictsOnlyDue_def quietAt_def\<close>)

lemma modify_due:
  "io_triple (quietAt c0) (io_modify f) (\<lambda>_. evictsOnlyDue pvc users readyNodes now d c0)
    (evictsOnlyDue pvc users readyNodes now d c0)"
  by (rule io_triple_modify) (auto simp: evictsOnlyDue_def quietAt_def)

lemma read_due:
  "io_triple (quietAt c0) (io_get f) (\<lambda>x s. x = f c0 \<and> quietAt c0 s)
    (evictsOnlyDue pvc users readyNodes now d c0)"
  by (rule io_triple_get) (auto simp: quietAt_def)

text \<open>The last part of a reconciliation: the outage is noted, waited out, or answered by a promotion.\<close>

lemma outage_due:
  fixes kube :: "'k kube"
  assumes unhealthy: "\<not> hasHealthyClaimPod users readyNodes"
  shows "io_triple (quietAt c0) (io_bind (io_get (\<lambda>c. fcSeen c (pvcKey pvc))) (\<lambda>seen. case seen of
       None \<Rightarrow> io_modify (noteSeen (pvcKey pvc) now)
     | Some firstSeen \<Rightarrow>
         if time_Sub now firstSeen < failoverGracePeriod pvc then io_return ()
         else if \<not> fdPromote d then io_fail (Errorf (''failover blocked: '' @ fdReason d))
           else promotePVC (traced kube) pvc users active (fdTargetNode d)))
    (\<lambda>_. evictsOnlyDue pvc users readyNodes now d c0) (evictsOnlyDue pvc users readyNodes now d c0)"
proof (rule io_triple_bind [OF read_due], rule io_triple_known)
  show "io_triple (quietAt c0) (case seen of
       None \<Rightarrow> io_modify (noteSeen (pvcKey pvc) now)
     | Some firstSeen \<Rightarrow>
         if time_Sub now firstSeen < failoverGracePeriod pvc then io_return ()
         else if \<not> fdPromote d then io_fail (Errorf (''failover blocked: '' @ fdReason d))
           else promotePVC (traced kube) pvc users active (fdTargetNode d))
    (\<lambda>_. evictsOnlyDue pvc users readyNodes now d c0) (evictsOnlyDue pvc users readyNodes now d c0)"
    if "seen = fcSeen c0 (pvcKey pvc)" for seen
    using that unhealthy
    by (auto intro!: modify_due io_triple_return io_triple_fail promotePVC_due evictsOnlyDue_quiet
        simp: outageElapsed_def not_less split: option.split)
qed

lemma reconcilePVC_triple:
  fixes kube :: "'k kube" and pods c0 pvc agents readyNodes available now
  defines "users \<equiv> podsUsingClaim pods (pvcName pvc)"
    and "d \<equiv> pvcDecision pvc pods agents readyNodes available now c0"
  defines "OK \<equiv> evictsOnlyDue pvc users readyNodes now d c0"
  assumes list: "kListPods kube (pvcNamespace pvc) '''' k0 = (Inr pods, k1)"
  shows "io_triple (\<lambda>s. s = (c0, k0, [])) (reconcilePVC (traced kube) pvc agents readyNodes available now) (\<lambda>_. OK) OK"
proof -
  have pods: "io_triple (\<lambda>s. s = (c0, k0, [])) (io_outside (kListPods (traced kube) (pvcNamespace pvc) ''''))
      (\<lambda>x s. x = pods \<and> quietAt c0 s) OK"
    by (auto simp: io_triple_def io_outside_def traced_def io_quiet_def list noDeletes_def quietAt_def)
  have out: "io_triple (quietAt c0) (io_outside m) (\<lambda>_. quietAt c0) OK" if "io_inv (\<lambda>(k, es). noDeletes es) m" for m :: "('k \<times> kevent list, 'a) io"
    unfolding quietAt_def using outside_triple [OF that] by (rule io_triple_conseq) (auto simp: OK_def quietAt_def intro: evictsOnlyDue_quiet)
  have read: "io_triple (quietAt c0) (io_get f) (\<lambda>x s. x = f c0 \<and> quietAt c0 s) OK" for f :: "FailoverState \<Rightarrow> 'a"
    unfolding OK_def by (rule read_due)
  note invs = claimHasDesiredConsumer_inv recordActiveNode_inv [OF deletionsOnly_log(1)]
    reconcileNodeLabels_inv [OF deletionsOnly_log(1)]
  have recActive: "io_triple (quietAt c0) (if active \<noteq> '''' then io_outside (recordActiveNode (traced kube) pvc active '''')
      else io_return ()) (\<lambda>_. quietAt c0) OK" for active
    using out [OF invs(2)] by (simp add: io_triple_return)
  have body: "io_triple (quietAt c0) (if \<not> hasDemand then io_modify (forgetSeen (pvcKey pvc)) else
       if hasHealthyClaimPod users readyNodes then io_modify (forgetSeen (pvcKey pvc))
       else m) (\<lambda>_. OK) OK"
    if "\<not> hasHealthyClaimPod users readyNodes \<Longrightarrow> io_triple (quietAt c0) m (\<lambda>_. OK) OK" for hasDemand m
    using that by (simp add: OK_def modify_due)
  show ?thesis
    unfolding reconcilePVC_def Let_def
    by (rule io_triple_bind [OF pods], rule io_triple_known, hypsubst,
        rule io_triple_bind [OF read], rule io_triple_known, hypsubst,
        rule io_triple_bind [OF read], rule io_triple_known, hypsubst,
        rule io_triple_bind [OF out [OF invs(1)]],
        rule io_triple_bind [OF recActive], rule io_triple_bind [OF out [OF invs(3)]],
        rule body [unfolded users_def],
        rule outage_due [of users readyNodes c0 pvc now d kube, folded OK_def, unfolded users_def d_def pvcDecision_def Let_def],
        assumption)
qed

text \<open>
  C3. Eviction is safe. A reconciliation of a claim deletes a pod only if a promotion target
  was found among the promotable replicas, no pod of the claim is running on a ready node,
  and the outage was first seen at least the grace period ago; the deleted pod is one of the
  listed pods that use the claim, it is bound to a node other than the target, and that node
  is now registered as demoted, so that its data is backed up before it is synced over.
\<close>

theorem reconcilePVC_evicts_safely:
  assumes "kListPods kube (pvcNamespace pvc) '''' k = (Inr pods, k1)"
    and "reconcilePVC (traced kube) pvc agents readyNodes available now (c, k, []) = (r, (c', k', es))"
    and "EvDeletePod ns name \<in> set es"
  shows "let users = podsUsingClaim pods (pvcName pvc);
             d = pvcDecision pvc pods agents readyNodes available now c in
    fdPromote d \<and> \<not> hasHealthyClaimPod users readyNodes \<and> outageElapsed pvc now c \<and>
    (\<exists>pod \<in> set users. podNamespace pod = ns \<and> podName pod = name \<and> podNode pod \<noteq> '''' \<and>
       podNode pod \<noteq> fdTargetNode d \<and>
       ShouldBackupBeforeRestore (pvcNamespace pvc) (pvcVolumeName pvc) (podNode pod) c')"
proof -
  have "\<not> noDeletes es" using assms(3) by (auto simp: noDeletes_def)
  then have "fdPromote (pvcDecision pvc pods agents readyNodes available now c) \<and>
      \<not> hasHealthyClaimPod (podsUsingClaim pods (pvcName pvc)) readyNodes \<and> outageElapsed pvc now c \<and>
      evicted pvc (podsUsingClaim pods (pvcName pvc)) (fdTargetNode (pvcDecision pvc pods agents readyNodes available now c)) c' es"
    using io_tripleD [OF reconcilePVC_triple [OF assms(1)] refl assms(2)] by (cases r) (auto simp: evictsOnlyDue_def)
  then show ?thesis using assms(3) by (auto simp: evicted_def Let_def)
qed

text \<open>A concrete cluster: one claim, its pod on a lost node, and a fresh replica elsewhere.\<close>

record demoCluster =
  dcPVC :: PVC
  dcPV :: PV
  dcPods :: "Pod list"
  dcNodes :: "Node list"

definition demoKube :: "demoCluster kube" where
  "demoKube = \<lparr>
     kListPVCs = (\<lambda>k. (Inr [dcPVC k], k)),
     kListPods = (\<lambda>_ _ k. (Inr (dcPods k), k)),
     kListNodes = (\<lambda>k. (Inr (dcNodes k), k)),
     kGetPV = (\<lambda>_ k. (Inr (dcPV k), k)),
     kUpdatePV = (\<lambda>pv k. (Inr (), k\<lparr>dcPV := pv\<rparr>)),
     kGetPVC = (\<lambda>_ _ k. (Inr (dcPVC k), k)),
     kUpdatePVC = (\<lambda>pvc k. (Inr (), k\<lparr>dcPVC := pvc\<rparr>)),
     kPatchNode = (\<lambda>n p k. (Inr (), k\<lparr>dcNodes := map (\<lambda>node. if nodeName node = n
        then node\<lparr>nodeLabels := mergePatch (nodeLabels node) p\<rparr> else node) (dcNodes k)\<rparr>)),
     kDeletePod = (\<lambda>ns n k. (Inr (), k\<lparr>dcPods := filter (\<lambda>p. podName p \<noteq> n) (dcPods k)\<rparr>)),
     kListDeployments = (\<lambda>_ k. (Inr [], k)),
     kListStatefulSets = (\<lambda>_ k. (Inr [], k)),
     kListReplicaSets = (\<lambda>_ k. (Inr [], k)),
     kListDaemonSets = (\<lambda>_ k. (Inr [], k)),
     kGetSecret = (\<lambda>_ _ k. (Inr [(''token'', ''s'')], k))\<rparr>"

definition demoPVC :: PVC where
  "demoPVC = \<lparr>pvcNamespace = ''g'', pvcName = ''w'', pvcAnnotations = [(AnnotationActiveNode, ''a'')],
     pvcStorageClass = Some ''simple-volume'', pvcVolumeName = ''v''\<rparr>"

definition demoClusterState :: demoCluster where
  "demoClusterState = \<lparr>dcPVC = demoPVC, dcPV = \<lparr>pvName = ''v'', pvAnnotations = [(AnnotationActiveNode, ''a'')]\<rparr>,
     dcPods = [demoPod ''p'' ''a'' ''w''], dcNodes = []\<rparr>"

definition demoState :: FailoverState where
  "demoState = \<lparr>fcSeen = [pvcKey demoPVC \<mapsto> 0],
     fcFreshness = [''g/v'' \<mapsto> [(''b'', \<lparr>rfLastSuccessfulSync = minute, rfHealthy = True\<rparr>)]],
     fcDemoted = Map.empty\<rparr>"

lemma demo_defaults:
  "failoverGracePeriod demoPVC = minute" "failoverMaxStaleness demoPVC = 2 * minute"
  "failoverNodePriority demoPVC = []" "podsUsingClaim [demoPod ''p'' ''a'' ''w''] ''w'' = [demoPod ''p'' ''a'' ''w'']"
  "healthyClaimPodNode [demoPod ''p'' ''a'' ''w''] [''b''] = ''''"
proof -
  have "AnnotationFailoverGracePeriod \<noteq> AnnotationActiveNode" "AnnotationFailoverMaxStaleness \<noteq> AnnotationActiveNode"
    "AnnotationFailoverNodePriority \<noteq> AnnotationActiveNode"
    by (simp_all add: AnnotationFailoverGracePeriod_def AnnotationFailoverMaxStaleness_def
        AnnotationFailoverNodePriority_def AnnotationActiveNode_def)
  then show "failoverGracePeriod demoPVC = minute" "failoverMaxStaleness demoPVC = 2 * minute"
    "failoverNodePriority demoPVC = []"
    by (simp_all add: failoverGracePeriod_def failoverMaxStaleness_def failoverNodePriority_def durationAnnotation_def
        demoPVC_def goget_def csvAnnotation_def)
qed (simp_all add: podsUsingClaim_def podUsesClaim_def healthyClaimPodNode_def demoPod_def)

lemma demo_decision:
  "SelectFailoverTargetFromCandidates (failoverCandidates [demoPod ''p'' ''a'' ''w''] [(''b'', demoPod ''x'' ''b'' '''')]
     [''b''] [(''b'', \<lparr>rfLastSuccessfulSync = minute, rfHealthy = True\<rparr>)] [] (2 * minute) (2 * minute)
     (failoverWorkloadRequests [demoPod ''p'' ''a'' ''w'']) []) [] =
   \<lparr>fdPromote = True, fdTargetNode = ''b'', fdReason = ''FreshReplicaNode''\<rparr>"
  by code_simp

lemma demo_observations:
  "pvcName demoPVC = ''w''" "pvcNamespace demoPVC = ''g''" "pvcVolumeName demoPVC = ''v''"
  "freshnessForPVC demoPVC demoState = [(''b'', \<lparr>rfLastSuccessfulSync = minute, rfHealthy = True\<rparr>)]"
  "demotedForPVC demoPVC demoState = []" "fcSeen demoState (pvcKey demoPVC) = Some 0"
  "TrimSpace (gostr (pvcAnnotations demoPVC) AnnotationActiveNode) = ''a''"
proof -
  have "TrimSpace ''a'' = ''a''" by (rule TrimSpace_id) (simp add: spaceByte_def)
  then show "TrimSpace (gostr (pvcAnnotations demoPVC) AnnotationActiveNode) = ''a''"
    by (simp add: demoPVC_def goget_def)
qed (simp_all add: demoPVC_def demoState_def freshnessForPVC_def demotedForPVC_def innerMap_def volumeKey_def)

lemma annotation_keys:
  "AnnotationActiveNode \<noteq> AnnotationPreviousActiveNode" "AnnotationActiveNode \<noteq> AnnotationSelectedNode"
  by (simp_all add: AnnotationActiveNode_def AnnotationPreviousActiveNode_def AnnotationSelectedNode_def LabelPrefix_def)

lemma demo_recordActive:
  "recordActiveNode (traced demoKube) demoPVC ''a'' '''' (demoClusterState, []) = (Inr (), (demoClusterState, []))"
  using annotation_keys
  by (simp add: recordActiveNode_def promoteStorageState_def promotePVCState_def promotedAnnotations_def Let_def
      demo_observations traced_def demoKube_def io_quiet_def demoClusterState_def io_bind_def io_return_def
      DeepEqualMap_iff) (simp add: demoPVC_def io_return_def)

lemma demo_labels:
  "reconcileNodeLabels (traced demoKube) pvc active cands (demoClusterState, es) = (Inr (), (demoClusterState, es))"
  by (simp add: reconcileNodeLabels_def traced_def demoKube_def io_quiet_def demoClusterState_def io_bind_def io_return_def)

lemma demo_promote:
  "\<exists>es. EvDeletePod ''g'' ''p'' \<in> set es \<and> (\<exists>r c k. promotePVC (traced demoKube) demoPVC [demoPod ''p'' ''a'' ''w''] ''a'' ''b''
     (demoState, demoClusterState, []) = (r, (c, k, es)))"
proof -
  have sel: "podNode (demoPod ''p'' ''a'' ''w'') = ''a''" "podNamespace (demoPod ''p'' ''a'' ''w'') = ''g''"
    "podName (demoPod ''p'' ''a'' ''w'') = ''p''"
    by (simp_all add: demoPod_def)
  have "kUpdatePV (traced demoKube) pv (k, es) = (Inr (), (k\<lparr>dcPV := pv\<rparr>, es @ [EvUpdatePV pv]))"
    "kUpdatePVC (traced demoKube) pvc (k, es) = (Inr (), (k\<lparr>dcPVC := pvc\<rparr>, es @ [EvUpdatePVC pvc]))"
    "kGetPV (traced demoKube) n (k, es) = (Inr (dcPV k), (k, es))"
    "kGetPVC (traced demoKube) ns n (k, es) = (Inr (dcPVC k), (k, es))"
    "kListNodes (traced demoKube) (k, es) = (Inr (dcNodes k), (k, es))"
    "kDeletePod (traced demoKube) ns n (k, es) =
       (Inr (), (k\<lparr>dcPods := filter (\<lambda>p. podName p \<noteq> n) (dcPods k)\<rparr>, es @ [EvDeletePod ns n]))" for pv pvc n ns k es
    by (simp_all add: traced_def demoKube_def io_quiet_def io_noisy_def)
  note ops = this
  show ?thesis
    by (auto simp: promotePVC_def promoteStorageState_def promotePVCState_def promoteNodeLabel_def reconcileNodeLabels_def
        evictPod_def Let_def sel ops demo_observations demoClusterState_def
        io_bind_def io_outside_def io_return_def io_modify_def io_try_def)
qed

lemma demo_reconcile:
  "\<exists>r c' k' es. reconcilePVC (traced demoKube) demoPVC [(''b'', demoPod ''x'' ''b'' '''')] [''b''] [] (2 * minute)
     (demoState, demoClusterState, []) = (r, (c', k', es)) \<and> EvDeletePod ''g'' ''p'' \<in> set es"
proof -
  have list: "kListPods (traced demoKube) ns sel (demoClusterState, []) =
      (Inr [demoPod ''p'' ''a'' ''w''], (demoClusterState, []))" for ns sel
    by (simp add: traced_def demoKube_def io_quiet_def demoClusterState_def)
  have demand: "claimHasDesiredConsumer (traced demoKube) demoPVC [demoPod ''p'' ''a'' ''w''] = io_return True"
    by (simp add: claimHasDesiredConsumer_def)
  have grace: "\<not> time_Sub (2 * minute) 0 < minute" by (simp add: time_Sub_def minute_def second_def)
  have "reconcilePVC (traced demoKube) demoPVC [(''b'', demoPod ''x'' ''b'' '''')] [''b''] [] (2 * minute)
     (demoState, demoClusterState, []) =
     promotePVC (traced demoKube) demoPVC [demoPod ''p'' ''a'' ''w''] ''a'' ''b'' (demoState, demoClusterState, [])"
    unfolding reconcilePVC_def Let_def
    by (simp add: io_bind_def io_outside_def io_get_def list demo_observations demo_defaults demand io_return_def
        demo_recordActive demo_labels hasHealthyClaimPod_def demo_decision grace)
  then show ?thesis using demo_promote by auto
qed

theorem reconcilePVC_evicts_safely_witness:
  "outageElapsed demoPVC (2 * minute) demoState \<and>
   \<not> hasHealthyClaimPod (podsUsingClaim [demoPod ''p'' ''a'' ''w''] (pvcName demoPVC)) [''b'']"
proof -
  obtain r c' k' es where run: "reconcilePVC (traced demoKube) demoPVC [(''b'', demoPod ''x'' ''b'' '''')] [''b''] []
      (2 * minute) (demoState, demoClusterState, []) = (r, (c', k', es))" and "EvDeletePod ''g'' ''p'' \<in> set es"
    using demo_reconcile by blast
  moreover have "kListPods demoKube (pvcNamespace demoPVC) '''' demoClusterState =
      (Inr [demoPod ''p'' ''a'' ''w''], demoClusterState)"
    by (simp add: demoKube_def demoClusterState_def)
  ultimately show ?thesis
    using reconcilePVC_evicts_safely [OF _ run] by (auto simp: Let_def)
qed



end
