(* ===== verification/ApiTypes.thy ===== *)
theory ApiTypes
  imports Prelude
begin

text \<open>
  \<^verbatim>\<open>internal/api/v1alpha1/types.go\<close>: the specification and status of a volume. The string
  types with named constants keep their strings, since any string can arrive in them; a Go
  pointer is an option.
\<close>

definition DriverName :: string where "DriverName = ''simple-volume.shipstuff.io''"
definition DriverVersion :: string where "DriverVersion = ''0.3.0''"

definition VolumePhasePending :: string where "VolumePhasePending = ''Pending''"
definition VolumePhaseReady :: string where "VolumePhaseReady = ''Ready''"
definition VolumePhasePromotionPending :: string where "VolumePhasePromotionPending = ''PromotionPending''"
definition VolumePhasePromotionBlocked :: string where "VolumePhasePromotionBlocked = ''PromotionBlocked''"
definition VolumePhaseDegraded :: string where "VolumePhaseDegraded = ''Degraded''"

definition ReplicaRoleActive :: string where "ReplicaRoleActive = ''active''"
definition ReplicaRoleReplica :: string where "ReplicaRoleReplica = ''replica''"
definition ReplicaRoleStale :: string where "ReplicaRoleStale = ''stale''"

definition SyncMethodRsync :: string where "SyncMethodRsync = ''rsync''"
definition SyncMethodRclone :: string where "SyncMethodRclone = ''rclone''"
definition SyncModeWatch :: string where "SyncModeWatch = ''watch''"
definition SyncModeCron :: string where "SyncModeCron = ''cron''"

record ReplicaSpec =
  rsMethod :: string
  rsExcludes :: "string list"
  rsReplicaCount :: int

record SyncSpec =
  ssMode :: string
  ssIncludePaths :: "string list"
  ssExcludePaths :: "string list"
  ssPruneExcluded :: bool
  ssDebounce :: duration
  ssFullResyncSchedule :: string

record PromotionSpec =
  psAutomatic :: bool
  psMaxStaleness :: duration
  psNotReadyGracePeriod :: duration
  psActiveAgentHeartbeatTimeout :: duration
  psPromotionDeadline :: duration

record AccessSpec =
  asTokenSecretName :: string
  asTokenSecretKey :: string

record WorkloadRef =
  wrAPIVersion :: string
  wrKind :: string
  wrName :: string

record NodeConstraint =
  ncNodeNames :: "string list"
  ncNodeSelector :: "(string, string) gomap"
  ncStoragePool :: string
  ncAllowDemoOnly :: bool

record SimpleVolumeSpec =
  specStoragePool :: string
  specSizeBytes :: int
  specReplica :: ReplicaSpec
  specSync :: SyncSpec
  specPromotion :: PromotionSpec
  specAccess :: AccessSpec
  specWorkloadRef :: "WorkloadRef option"
  specConstraints :: "NodeConstraint option"

record ReplicaStatus =
  repNode :: string
  repRole :: string
  repHealthy :: bool
  repLastSuccessfulSync :: "time option"
  repLastObservedGeneration :: string
  repBytesSynced :: int
  repSyncDuration :: string
  repError :: string

record Condition =
  condType :: string
  condStatus :: string
  condReason :: string
  condMessage :: string
  condLastTransitionTime :: time

record SimpleVolumeStatus =
  statPhase :: string
  statActiveNode :: string
  statObservedGeneration :: string
  statReplicas :: "ReplicaStatus list"
  statConditions :: "Condition list"

text \<open>The zero values of the nested specifications.\<close>

definition zeroSyncSpec :: SyncSpec where
  "zeroSyncSpec = \<lparr>ssMode = '''', ssIncludePaths = [], ssExcludePaths = [], ssPruneExcluded = False,
     ssDebounce = 0, ssFullResyncSchedule = ''''\<rparr>"

definition zeroPromotionSpec :: PromotionSpec where
  "zeroPromotionSpec = \<lparr>psAutomatic = False, psMaxStaleness = 0, psNotReadyGracePeriod = 0,
     psActiveAgentHeartbeatTimeout = 0, psPromotionDeadline = 0\<rparr>"

definition zeroAccessSpec :: AccessSpec where
  "zeroAccessSpec = \<lparr>asTokenSecretName = '''', asTokenSecretKey = ''''\<rparr>"

end
