(* ===== verification/Placement.thy ===== *)
theory Placement
  imports ApiTypes
begin

text \<open>
  The two selection routines that work on status values alone:
  \<^verbatim>\<open>internal/controller/promotion.go\<close> picks the replica to promote,
  \<^verbatim>\<open>internal/controller/provision.go\<close> picks the nodes of a new volume, and
  \<^verbatim>\<open>internal/csi/controller.go\<close> builds the CSI answer from it.
\<close>

section \<open>Promotion\<close>

record PromotionInput =
  piSpec :: SimpleVolumeSpec
  piStatus :: SimpleVolumeStatus
  piNow :: time
  piActiveUnavailableSince :: "time option"

record PromotionDecision =
  pdPromote :: bool
  pdTargetNode :: string
  pdReason :: string

text \<open>The guard of the candidate loop.\<close>

definition promotionCandidate :: "PromotionInput \<Rightarrow> ReplicaStatus \<Rightarrow> bool" where
  "promotionCandidate input r =
     (let maxStaleness = psMaxStaleness (specPromotion (piSpec input)) in
      case repLastSuccessfulSync r of
        None \<Rightarrow> False
      | Some sync \<Rightarrow>
          if repNode r = '''' \<or> repNode r = statActiveNode (piStatus input) \<or> \<not> repHealthy r then False
          else \<not> (maxStaleness > 0 \<and> time_Sub (piNow input) sync > maxStaleness))"

definition syncTime :: "ReplicaStatus \<Rightarrow> time" where
  "syncTime r = (case repLastSuccessfulSync r of None \<Rightarrow> 0 | Some t \<Rightarrow> t)"

definition fresherReplica :: "ReplicaStatus \<Rightarrow> ReplicaStatus \<Rightarrow> bool" where
  "fresherReplica a b \<longleftrightarrow> syncTime a > syncTime b"

definition noPromotion :: "string \<Rightarrow> PromotionDecision" where
  "noPromotion reason = \<lparr>pdPromote = False, pdTargetNode = '''', pdReason = reason\<rparr>"

text \<open>The Go function returns a decision and an error; both are kept.\<close>

definition SelectPromotionTarget :: "PromotionInput \<Rightarrow> PromotionDecision \<times> go_error option" where
  "SelectPromotionTarget input =
     (let promo = specPromotion (piSpec input) in
      if \<not> psAutomatic promo then (noPromotion ''AutomaticDisabled'', Some ErrAutoPromotionDisabled)
      else case piActiveUnavailableSince input of
        None \<Rightarrow> (noPromotion ''ActiveStillAvailable'', Some ErrGracePeriodActive)
      | Some since \<Rightarrow>
          let grace = psNotReadyGracePeriod promo in
          if grace > 0 \<and> time_Sub (piNow input) since < grace
          then (noPromotion ''GracePeriodActive'', Some ErrGracePeriodActive)
          else
            let candidates = filter (promotionCandidate input) (statReplicas (piStatus input)) in
            if candidates = [] then (noPromotion ''NoFreshReplica'', Some ErrNoFreshReplica)
            else (\<lparr>pdPromote = True, pdTargetNode = repNode (hd (SliceStable fresherReplica candidates)),
                   pdReason = ''FreshReplicaAvailable''\<rparr>, None))"

interpretation fresher: go_less fresherReplica
  by unfold_locales (auto simp: fresherReplica_def)

text \<open>The preconditions of a promotion, and the set of nodes it may choose from.\<close>

definition promotionAllowed :: "PromotionInput \<Rightarrow> bool" where
  "promotionAllowed input \<longleftrightarrow>
     (let promo = specPromotion (piSpec input) in
      psAutomatic promo \<and> (case piActiveUnavailableSince input of None \<Rightarrow> False
        | Some since \<Rightarrow> psNotReadyGracePeriod promo \<le> 0 \<or>
            psNotReadyGracePeriod promo \<le> time_Sub (piNow input) since))"

text \<open>
  Promotion is safe: a decision to promote is made only if automatic promotion is on
  and the active node has been unavailable for the whole grace period. The target is the
  first listed of the freshest eligible replicas, and it is healthy, has a name, is not the
  active node, and has synced within the staleness limit.
\<close>

theorem SelectPromotionTarget_safe:
  assumes "SelectPromotionTarget input = (d, err)" and "pdPromote d"
  shows "promotionAllowed input \<and> err = None \<and>
    (\<exists>r \<in> set (statReplicas (piStatus input)). repNode r = pdTargetNode d \<and>
      repNode r \<noteq> '''' \<and> repNode r \<noteq> statActiveNode (piStatus input) \<and> repHealthy r \<and>
      (\<exists>sync. repLastSuccessfulSync r = Some sync \<and>
        (let limit = psMaxStaleness (specPromotion (piSpec input)) in
         limit \<le> 0 \<or> time_Sub (piNow input) sync \<le> limit)) \<and>
      (let cs = filter (promotionCandidate input) (statReplicas (piStatus input)) in
       r = hd (filter (\<lambda>c. \<forall>c' \<in> set cs. syncTime c' \<le> syncTime c) cs)))"
proof -
  let ?cs = "filter (promotionCandidate input) (statReplicas (piStatus input))"
  let ?best = "hd (SliceStable fresherReplica ?cs)"
  have ne: "?cs \<noteq> []" and d: "pdTargetNode d = repNode ?best" "err = None" and "promotionAllowed input"
    using assms
    by (auto simp: SelectPromotionTarget_def promotionAllowed_def noPromotion_def Let_def
        split: if_splits option.splits)
  have mem: "?best \<in> set ?cs" using ne by (rule fresher.hd_SliceStable_mem)
  have first: "?best = hd (filter (\<lambda>c. \<forall>c' \<in> set ?cs. syncTime c' \<le> syncTime c) ?cs)"
    using fresher.hd_SliceStable_first [OF ne] by (simp add: fresherReplica_def not_less)
  have "repNode ?best \<noteq> '''' \<and> repNode ?best \<noteq> statActiveNode (piStatus input) \<and> repHealthy ?best \<and>
      (\<exists>sync. repLastSuccessfulSync ?best = Some sync \<and>
        (let limit = psMaxStaleness (specPromotion (piSpec input)) in
         limit \<le> 0 \<or> time_Sub (piNow input) sync \<le> limit))"
    using mem by (auto simp: promotionCandidate_def Let_def not_less split: option.splits if_splits)
  moreover have "?best \<in> set (statReplicas (piStatus input))" using mem by simp
  ultimately show ?thesis
    using first d \<open>promotionAllowed input\<close> unfolding Let_def
    by (intro conjI bexI [of _ ?best]) auto
qed

definition demoPromotion :: PromotionInput where
  "demoPromotion = \<lparr>piSpec = \<lparr>specStoragePool = '''', specSizeBytes = 0,
       specReplica = \<lparr>rsMethod = '''', rsExcludes = [], rsReplicaCount = 2\<rparr>,
       specSync = zeroSyncSpec, specPromotion = zeroPromotionSpec\<lparr>psAutomatic := True,
         psMaxStaleness := 10, psNotReadyGracePeriod := 5\<rparr>,
       specAccess = zeroAccessSpec, specWorkloadRef = None, specConstraints = None\<rparr>,
     piStatus = \<lparr>statPhase = ''Ready'', statActiveNode = ''a'', statObservedGeneration = '''',
       statReplicas = map (\<lambda>(n, t). \<lparr>repNode = n, repRole = ''replica'', repHealthy = True,
         repLastSuccessfulSync = Some t, repLastObservedGeneration = '''', repBytesSynced = 0,
         repSyncDuration = '''', repError = ''''\<rparr>) [(''a'', 100), (''b'', 97), (''c'', 98)],
       statConditions = []\<rparr>,
     piNow = 100, piActiveUnavailableSince = Some 90\<rparr>"

lemma demoPromotion_run:
  "SelectPromotionTarget demoPromotion =
     (\<lparr>pdPromote = True, pdTargetNode = ''c'', pdReason = ''FreshReplicaAvailable''\<rparr>, None)"
  by (simp add: SelectPromotionTarget_def demoPromotion_def zeroPromotionSpec_def promotionCandidate_def
      fresherReplica_def syncTime_def time_Sub_def Let_def)

theorem SelectPromotionTarget_safe_witness:
  "promotionAllowed demoPromotion \<and>
   (\<exists>r \<in> set (statReplicas (piStatus demoPromotion)). repNode r = ''c'' \<and> repHealthy r)"
  using SelectPromotionTarget_safe [OF demoPromotion_run] by auto

text \<open>
  Promotion is live: once it is allowed and some replica is eligible, a node is chosen;
  otherwise the error names the first precondition that fails.
\<close>

theorem SelectPromotionTarget_branches:
  "SelectPromotionTarget input = (d, err) \<Longrightarrow>
   (pdPromote d \<longleftrightarrow> promotionAllowed input \<and> list_ex (promotionCandidate input) (statReplicas (piStatus input))) \<and>
   (err = None \<longleftrightarrow> pdPromote d) \<and>
   (err = Some ErrAutoPromotionDisabled \<longleftrightarrow> \<not> psAutomatic (specPromotion (piSpec input))) \<and>
   (err = Some ErrGracePeriodActive \<longleftrightarrow> psAutomatic (specPromotion (piSpec input)) \<and> \<not> promotionAllowed input) \<and>
   (err = Some ErrNoFreshReplica \<longleftrightarrow> promotionAllowed input \<and> \<not> pdPromote d)"
  by (auto simp: SelectPromotionTarget_def promotionAllowed_def noPromotion_def Let_def list_ex_iff
      filter_empty_conv not_le not_less split: if_splits option.splits)

theorem SelectPromotionTarget_branches_witness:
  "promotionAllowed demoPromotion \<and>
   list_ex (promotionCandidate demoPromotion) (statReplicas (piStatus demoPromotion))"
  using SelectPromotionTarget_branches [OF demoPromotion_run] by simp

section \<open>Initial placement\<close>

record AgentStatus =
  asNode :: string
  asPool :: string
  asHealthy :: bool
  asFreeBytes :: int
  asPoolLabels :: "(string, string) gomap"

record ProvisionRequest =
  prNamespace :: string
  prName :: string
  prStoragePool :: string
  prSizeBytes :: int
  prReplicaCount :: int

record ProvisionDecision =
  decVolumeHandle :: string
  decActiveNode :: string
  decReplicaNodes :: "string list"

text \<open>The guards of the loop over the agents.\<close>

definition eligibleAgent :: "ProvisionRequest \<Rightarrow> AgentStatus \<Rightarrow> bool" where
  "eligibleAgent req agent =
     (if \<not> asHealthy agent \<or> asNode agent = '''' then False
      else if prStoragePool req \<noteq> '''' \<and> asPool agent \<noteq> prStoragePool req then False
      else if prSizeBytes req > 0 \<and> asFreeBytes agent > 0 \<and> asFreeBytes agent < prSizeBytes req then False
      else True)"

definition agentBefore :: "AgentStatus \<Rightarrow> AgentStatus \<Rightarrow> bool" where
  "agentBefore a b =
     (if asFreeBytes a = asFreeBytes b then asNode a < asNode b else asFreeBytes a > asFreeBytes b)"

definition SelectInitialPlacement :: "ProvisionRequest \<Rightarrow> AgentStatus list \<Rightarrow> go_error + ProvisionDecision" where
  "SelectInitialPlacement req agents =
     (let eligible = filter (eligibleAgent req) agents in
      if eligible = [] then Inl ErrNoEligibleAgents
      else
        let sorted = SliceStable agentBefore eligible;
            replicaCount = (if prReplicaCount req \<le> 0 \<or> prReplicaCount req > int (length sorted)
              then int (length sorted) else prReplicaCount req);
            replicas = map asNode (take (nat replicaCount) sorted)
        in Inr \<lparr>decVolumeHandle = prNamespace req @ ''/'' @ prName req,
             decActiveNode = replicas ! 0, decReplicaNodes = replicas\<rparr>)"

definition NewVolumeSpecFromProvision :: "ProvisionRequest \<Rightarrow> SimpleVolumeSpec" where
  "NewVolumeSpecFromProvision req = \<lparr>specStoragePool = prStoragePool req, specSizeBytes = prSizeBytes req,
     specReplica = \<lparr>rsMethod = SyncMethodRsync, rsExcludes = [], rsReplicaCount = prReplicaCount req\<rparr>,
     specSync = zeroSyncSpec, specPromotion = zeroPromotionSpec, specAccess = zeroAccessSpec,
     specWorkloadRef = None, specConstraints = None\<rparr>"

record CreateVolumeRequest =
  cvName :: string
  cvNamespace :: string
  cvStoragePool :: string
  cvCapacityBytes :: int
  cvReplicaCount :: int

record CreateVolumeResponse =
  crVolumeHandle :: string
  crCapacityBytes :: int
  crActiveNode :: string
  crReplicaNodes :: "string list"

definition CreateVolume :: "CreateVolumeRequest \<Rightarrow> AgentStatus list \<Rightarrow> go_error + CreateVolumeResponse" where
  "CreateVolume req agents =
     (if cvName req = '''' \<or> cvNamespace req = '''' then Inl (Errorf ''namespace and name are required'')
      else case SelectInitialPlacement \<lparr>prNamespace = cvNamespace req, prName = cvName req,
             prStoragePool = cvStoragePool req, prSizeBytes = cvCapacityBytes req,
             prReplicaCount = cvReplicaCount req\<rparr> agents of
        Inl e \<Rightarrow> Inl e
      | Inr decision \<Rightarrow> Inr \<lparr>crVolumeHandle = decVolumeHandle decision, crCapacityBytes = cvCapacityBytes req,
          crActiveNode = decActiveNode decision, crReplicaNodes = decReplicaNodes decision\<rparr>)"

interpretation agentOrder: go_less_keyed agentBefore asNode
  by unfold_locales (auto simp: agentBefore_def split: if_splits)

lemma SelectInitialPlacement_Inr:
  assumes "SelectInitialPlacement req agents = Inr d"
  defines "es \<equiv> filter (eligibleAgent req) agents"
  shows "es \<noteq> []" "\<exists>n. 0 < n \<and> n \<le> length es \<and> decReplicaNodes d = map asNode (take n (SliceStable agentBefore es)) \<and>
    n = (if prReplicaCount req \<le> 0 then length es else min (length es) (nat (prReplicaCount req)))"
    "decActiveNode d = hd (decReplicaNodes d)"
proof -
  show ne: "es \<noteq> []" using assms(1) by (auto simp: SelectInitialPlacement_def es_def Let_def split: if_splits)
  define n where "n = (if prReplicaCount req \<le> 0 then length es else min (length es) (nat (prReplicaCount req)))"
  have n: "0 < n" "n \<le> length es" using ne by (auto simp: n_def)
  have eq: "nat (if prReplicaCount req \<le> 0 \<or> prReplicaCount req > int (length es)
      then int (length es) else prReplicaCount req) = n"
    by (auto simp: n_def)
  have reps: "decReplicaNodes d = map asNode (take n (SliceStable agentBefore es))"
    "decActiveNode d = decReplicaNodes d ! 0"
    using assms(1) ne eq by (auto simp: SelectInitialPlacement_def Let_def simp flip: es_def)
  then show "\<exists>n. 0 < n \<and> n \<le> length es \<and> decReplicaNodes d = map asNode (take n (SliceStable agentBefore es)) \<and>
    n = (if prReplicaCount req \<le> 0 then length es else min (length es) (nat (prReplicaCount req)))"
    using n n_def by blast
  show "decActiveNode d = hd (decReplicaNodes d)"
    using reps n by (simp add: hd_conv_nth ne)
qed

text \<open>
  Placement of a new volume: it fails exactly when no agent is eligible; otherwise every
  chosen node runs a healthy agent of the requested pool with room for the volume, no agent
  left out has more free space than one chosen, the first chosen node is the active one, and
  the number of replicas is the requested one, capped by the number of eligible agents.
\<close>

theorem SelectInitialPlacement_correct:
  "case SelectInitialPlacement req agents of
     Inl e \<Rightarrow> e = ErrNoEligibleAgents \<and> \<not> list_ex (eligibleAgent req) agents
   | Inr d \<Rightarrow>
       (\<exists>chosen rest. mset (chosen @ rest) = mset (filter (eligibleAgent req) agents) \<and> chosen \<noteq> [] \<and>
         decReplicaNodes d = map asNode chosen \<and> decActiveNode d = asNode (hd chosen) \<and>
         list_all (\<lambda>a. list_all (\<lambda>b. asFreeBytes b \<le> asFreeBytes a) rest) chosen \<and>
         list_all (\<lambda>a. asFreeBytes a \<le> asFreeBytes (hd chosen)) chosen \<and>
         length chosen = (if prReplicaCount req \<le> 0 then length (filter (eligibleAgent req) agents)
           else min (length (filter (eligibleAgent req) agents)) (nat (prReplicaCount req))))"
proof (cases "SelectInitialPlacement req agents")
  case (Inl e)
  then show ?thesis
    by (auto simp: SelectInitialPlacement_def Let_def list_ex_iff filter_empty_conv split: if_splits)
next
  case (Inr d)
  define es where "es = filter (eligibleAgent req) agents"
  define ss where "ss = SliceStable agentBefore es"
  obtain n where n: "0 < n" "n \<le> length es" "decReplicaNodes d = map asNode (take n ss)"
    "n = (if prReplicaCount req \<le> 0 then length es else min (length es) (nat (prReplicaCount req)))"
    using SelectInitialPlacement_Inr(2) [OF Inr] unfolding es_def ss_def by blast
  have len: "length ss = length es" by (simp add: ss_def)
  have "sorted_wrt (\<lambda>a b. \<not> agentBefore b a) (take n ss @ drop n ss)"
    using agentOrder.sorted_SliceStable [of es] by (simp add: ss_def)
  then have ord: "\<not> agentBefore b a" if "a \<in> set (take n ss)" "b \<in> set (drop n ss)" for a b
    using that unfolding sorted_wrt_append by blast
  have le: "\<not> agentBefore b a \<Longrightarrow> asFreeBytes b \<le> asFreeBytes a" for a b
    by (auto simp: agentBefore_def split: if_splits)
  have ne: "take n ss \<noteq> []" "es \<noteq> []" using n(1,2) len by auto
  have hd: "hd (take n ss) = hd ss" using n(1) by (simp add: hd_take)
  have top: "asFreeBytes a \<le> asFreeBytes (hd (take n ss))" if "a \<in> set (take n ss)" for a
  proof -
    have "a \<in> set es" using that set_take_subset [of n ss] by (auto simp: ss_def)
    then have "\<not> agentBefore a (hd ss)"
      unfolding ss_def by (rule agentOrder.hd_SliceStable_least [OF ne(2)])
    then show ?thesis unfolding hd by (rule le)
  qed
  have "mset (take n ss @ drop n ss) = mset es" by (simp add: ss_def)
  moreover have "decActiveNode d = asNode (hd (take n ss))"
    using SelectInitialPlacement_Inr(3) [OF Inr] n(3) ne(1) by (simp add: hd_map)
  moreover have "length (take n ss) = n" using n(2) len by simp
  ultimately have "mset (take n ss @ drop n ss) = mset es \<and> take n ss \<noteq> [] \<and>
      decReplicaNodes d = map asNode (take n ss) \<and> decActiveNode d = asNode (hd (take n ss)) \<and>
      list_all (\<lambda>a. list_all (\<lambda>b. asFreeBytes b \<le> asFreeBytes a) (drop n ss)) (take n ss) \<and>
      list_all (\<lambda>a. asFreeBytes a \<le> asFreeBytes (hd (take n ss))) (take n ss) \<and>
      length (take n ss) = (if prReplicaCount req \<le> 0 then length es
        else min (length es) (nat (prReplicaCount req)))"
    using ne n top ord le by (simp add: list_all_iff)
  then show ?thesis unfolding Inr sum.case es_def by blast
qed

text \<open>
  Placement does not depend on the order in which the agents are reported.
\<close>

theorem SelectInitialPlacement_order_independent:
  assumes "mset agents = mset agents'" and "distinct (map asNode agents)"
  shows "SelectInitialPlacement req agents = SelectInitialPlacement req agents'"
proof -
  have m: "mset (filter (eligibleAgent req) agents) = mset (filter (eligibleAgent req) agents')"
    using assms(1) by (simp add: mset_filter)
  moreover have "distinct (map asNode (filter (eligibleAgent req) agents))"
    using assms(2) by (rule distinct_map_filter)
  ultimately have "SliceStable agentBefore (filter (eligibleAgent req) agents) =
      SliceStable agentBefore (filter (eligibleAgent req) agents')"
    by (rule agentOrder.SliceStable_perm)
  moreover have "filter (eligibleAgent req) agents = [] \<longleftrightarrow> filter (eligibleAgent req) agents' = []"
    using m by (metis mset_zero_iff)
  ultimately show ?thesis by (simp add: SelectInitialPlacement_def Let_def)
qed

definition demoAgent :: "string \<Rightarrow> int \<Rightarrow> AgentStatus" where
  "demoAgent n free = \<lparr>asNode = n, asPool = ''p'', asHealthy = True, asFreeBytes = free, asPoolLabels = []\<rparr>"

definition demoProvision :: ProvisionRequest where
  "demoProvision = \<lparr>prNamespace = ''g'', prName = ''w'', prStoragePool = '''', prSizeBytes = 5, prReplicaCount = 1\<rparr>"

theorem SelectInitialPlacement_order_independent_witness:
  "SelectInitialPlacement demoProvision [demoAgent ''a'' 1, demoAgent ''b'' 2] =
   SelectInitialPlacement demoProvision [demoAgent ''b'' 2, demoAgent ''a'' 1]"
  by (rule SelectInitialPlacement_order_independent) (simp_all add: demoAgent_def add_mset_commute)

text \<open>
  Creating a volume: without a namespace or a name it is refused; otherwise the handle
  is \<^verbatim>\<open>namespace/name\<close>, so two volumes of namespaces without a separator share a handle only
  if they are the same, and nodes and capacity are those of the placement.
\<close>

theorem CreateVolume_handle:
  assumes "CreateVolume req agents = Inr resp"
  shows "cvName req \<noteq> '''' \<and> cvNamespace req \<noteq> '''' \<and>
    crCapacityBytes resp = cvCapacityBytes req \<and> crReplicaNodes resp \<noteq> [] \<and>
    crActiveNode resp = hd (crReplicaNodes resp) \<and> set (crReplicaNodes resp) \<subseteq> asNode ` set agents \<and>
    (\<forall>req' agents' resp'. CreateVolume req' agents' = Inr resp' \<longrightarrow>
       CHR ''/'' \<notin> set (cvNamespace req) \<longrightarrow> CHR ''/'' \<notin> set (cvNamespace req') \<longrightarrow>
       crVolumeHandle resp = crVolumeHandle resp' \<longrightarrow>
       cvNamespace req = cvNamespace req' \<and> cvName req = cvName req')"
proof -
  have handle: "crVolumeHandle resp' = cvNamespace req' @ ''/'' @ cvName req'"
    if "CreateVolume req' agents' = Inr resp'" for req' agents' resp'
    using that by (auto simp: CreateVolume_def SelectInitialPlacement_def Let_def split: if_splits sum.splits)
  obtain d preq where d: "SelectInitialPlacement preq agents = Inr d"
    and r: "crReplicaNodes resp = decReplicaNodes d" "crActiveNode resp = decActiveNode d"
      "crCapacityBytes resp = cvCapacityBytes req" "cvName req \<noteq> ''''" "cvNamespace req \<noteq> ''''"
    using assms by (auto simp: CreateVolume_def split: if_splits sum.splits)
  obtain n where n: "0 < n" "n \<le> length (filter (eligibleAgent preq) agents)"
    "decReplicaNodes d = map asNode (take n (SliceStable agentBefore (filter (eligibleAgent preq) agents)))"
    using SelectInitialPlacement_Inr(2) [OF d] by blast
  have "set (decReplicaNodes d) \<subseteq> asNode ` set agents"
    using set_take_subset [of n "SliceStable agentBefore (filter (eligibleAgent preq) agents)"]
    by (auto simp: n(3))
  moreover have "decReplicaNodes d \<noteq> []" using n by auto
  moreover have "\<forall>req' agents' resp'. CreateVolume req' agents' = Inr resp' \<longrightarrow>
       CHR ''/'' \<notin> set (cvNamespace req) \<longrightarrow> CHR ''/'' \<notin> set (cvNamespace req') \<longrightarrow>
       crVolumeHandle resp = crVolumeHandle resp' \<longrightarrow>
       cvNamespace req = cvNamespace req' \<and> cvName req = cvName req'"
    using handle [OF assms] handle by (auto simp: append_sep_inject)
  ultimately show ?thesis
    using r SelectInitialPlacement_Inr(3) [OF d] by simp
qed

definition demoCreate :: CreateVolumeRequest where
  "demoCreate = \<lparr>cvName = ''w'', cvNamespace = ''g'', cvStoragePool = '''', cvCapacityBytes = 5, cvReplicaCount = 1\<rparr>"

lemma demoCreate_run:
  "CreateVolume demoCreate [demoAgent ''a'' 7, demoAgent ''b'' 9] =
     Inr \<lparr>crVolumeHandle = ''g/w'', crCapacityBytes = 5, crActiveNode = ''b'', crReplicaNodes = [''b'']\<rparr>"
  by (simp add: CreateVolume_def demoCreate_def SelectInitialPlacement_def eligibleAgent_def demoAgent_def
      agentBefore_def Let_def)

theorem CreateVolume_handle_witness:
  "set [''b''] \<subseteq> asNode ` set [demoAgent ''a'' 7, demoAgent ''b'' 9]"
  using CreateVolume_handle [OF demoCreate_run] by simp

end
