(* ===== verification/OsApi.thy ===== *)
theory OsApi
  imports GoTime "HOL-Library.Word"
begin

text \<open>
  The operating system as the program sees it: Go's file modes, and a record of functions
  over a world \<^typ>\<open>'w\<close>, one field per call of the \<^verbatim>\<open>os\<close> and \<^verbatim>\<open>syscall\<close> packages the
  code makes. The record is an argument of the definitions; a concrete instance at the end
  serves the witnesses.
\<close>

section \<open>The operating system interface\<close>

text \<open>Octal permission constants are written in hexadecimal: \<^verbatim>\<open>0o755\<close> is 0x1ED, \<^verbatim>\<open>0o644\<close> is 0x1A4,
  \<^verbatim>\<open>0o777\<close> is 0x1FF.\<close>

type_synonym filemode = "32 word"

definition ModeDir :: filemode where "ModeDir = push_bit 31 1"
definition ModeSymlink :: filemode where "ModeSymlink = push_bit 27 1"
definition ModeSetuid :: filemode where "ModeSetuid = push_bit 23 1"
definition ModeSetgid :: filemode where "ModeSetgid = push_bit 22 1"
definition ModeSticky :: filemode where "ModeSticky = push_bit 20 1"
definition ModeType :: filemode where
  "ModeType = or ModeDir (or ModeSymlink (or (push_bit 25 1) (or (push_bit 24 1)
     (or (push_bit 26 1) (or (push_bit 21 1) (push_bit 19 1))))))"

definition Perm :: "filemode \<Rightarrow> filemode" where
  "Perm m = and m 0x1FF"

record file_info =
  fiSize :: int
  fiMode :: filemode
  fiModTime :: time

definition IsDir :: "file_info \<Rightarrow> bool" where
  "IsDir info \<longleftrightarrow> and (fiMode info) ModeDir \<noteq> 0"

definition IsSymlink :: "file_info \<Rightarrow> bool" where
  "IsSymlink info \<longleftrightarrow> and (fiMode info) ModeSymlink \<noteq> 0"

text \<open>A directory listing gives each entry's name and whether it is a directory.\<close>

record 'w os_api =
  osMkdirAll :: "string \<Rightarrow> filemode \<Rightarrow> ('w, unit) io"
  osStat :: "string \<Rightarrow> ('w, file_info) io"
  osLstat :: "string \<Rightarrow> ('w, file_info) io"
  osReadDir :: "string \<Rightarrow> ('w, (string \<times> bool) list) io"
  osReadlink :: "string \<Rightarrow> ('w, string) io"
  osWriteFile :: "string \<Rightarrow> string \<Rightarrow> filemode \<Rightarrow> ('w, unit) io"
  osRename :: "string \<Rightarrow> string \<Rightarrow> ('w, unit) io"
  osRemove :: "string \<Rightarrow> ('w, unit) io"
  osRemoveAll :: "string \<Rightarrow> ('w, unit) io"
  osOpen :: "string \<Rightarrow> ('w, nat) io"
  osReaddirnames :: "nat \<Rightarrow> nat \<Rightarrow> ('w, string list) io"
  osClose :: "nat \<Rightarrow> ('w, unit) io"
  osChown :: "string \<Rightarrow> int \<Rightarrow> int \<Rightarrow> ('w, unit) io"
  osLchown :: "string \<Rightarrow> int \<Rightarrow> int \<Rightarrow> ('w, unit) io"
  osChmod :: "string \<Rightarrow> filemode \<Rightarrow> ('w, unit) io"
  osMount :: "string \<Rightarrow> string \<Rightarrow> ('w, unit) io"
  osUnmount :: "string \<Rightarrow> ('w, unit) io"
  timeNow :: "('w, time) io"

definition IsNotExist :: "go_error \<Rightarrow> bool" where
  "IsNotExist e \<longleftrightarrow> e = ErrNotExist"

section \<open>Observing the operating system\<close>

text \<open>
  The operating system with its changes recorded; the commands a program starts, the files and
  links it writes through handles and the locks it takes are recorded by whoever does so.
\<close>

datatype os_event = OsMkdir string | OsWrite string string | OsRename string string | OsRemove string
  | OsRemoveAll string | OsAttr string | OsMount string string | OsUnmount string
  | OsExec string "string list" | OsCreate string | OsSymlink string string | OsLock string | OsUnlock string

definition tracedOs :: "'w os_api \<Rightarrow> ('w \<times> os_event list) os_api" where
  "tracedOs os = \<lparr>
     osMkdirAll = (\<lambda>p m. io_noisy (OsMkdir p) (osMkdirAll os p m)),
     osStat = (\<lambda>p. io_quiet (osStat os p)),
     osLstat = (\<lambda>p. io_quiet (osLstat os p)),
     osReadDir = (\<lambda>p. io_quiet (osReadDir os p)),
     osReadlink = (\<lambda>p. io_quiet (osReadlink os p)),
     osWriteFile = (\<lambda>p c m. io_noisy (OsWrite p c) (osWriteFile os p c m)),
     osRename = (\<lambda>a b. io_noisy (OsRename a b) (osRename os a b)),
     osRemove = (\<lambda>p. io_noisy (OsRemove p) (osRemove os p)),
     osRemoveAll = (\<lambda>p. io_noisy (OsRemoveAll p) (osRemoveAll os p)),
     osOpen = (\<lambda>p. io_quiet (osOpen os p)),
     osReaddirnames = (\<lambda>f n. io_quiet (osReaddirnames os f n)),
     osClose = (\<lambda>f. io_quiet (osClose os f)),
     osChown = (\<lambda>p u g. io_noisy (OsAttr p) (osChown os p u g)),
     osLchown = (\<lambda>p u g. io_noisy (OsAttr p) (osLchown os p u g)),
     osChmod = (\<lambda>p m. io_noisy (OsAttr p) (osChmod os p m)),
     osMount = (\<lambda>a b. io_noisy (OsMount a b) (osMount os a b)),
     osUnmount = (\<lambda>p. io_noisy (OsUnmount p) (osUnmount os p)),
     timeNow = io_quiet (timeNow os)\<rparr>"

lemma tracedOs_sel:
  "osMkdirAll (tracedOs os) p m = io_noisy (OsMkdir p) (osMkdirAll os p m)"
  "osStat (tracedOs os) p = io_quiet (osStat os p)"
  "osLstat (tracedOs os) p = io_quiet (osLstat os p)"
  "osReadDir (tracedOs os) p = io_quiet (osReadDir os p)"
  "osReadlink (tracedOs os) p = io_quiet (osReadlink os p)"
  "osWriteFile (tracedOs os) p c m = io_noisy (OsWrite p c) (osWriteFile os p c m)"
  "osRename (tracedOs os) p q = io_noisy (OsRename p q) (osRename os p q)"
  "osRemove (tracedOs os) p = io_noisy (OsRemove p) (osRemove os p)"
  "osRemoveAll (tracedOs os) p = io_noisy (OsRemoveAll p) (osRemoveAll os p)"
  "osOpen (tracedOs os) p = io_quiet (osOpen os p)"
  "osReaddirnames (tracedOs os) f n = io_quiet (osReaddirnames os f n)"
  "osClose (tracedOs os) f = io_quiet (osClose os f)"
  "osChown (tracedOs os) p u g = io_noisy (OsAttr p) (osChown os p u g)"
  "osLchown (tracedOs os) p u g = io_noisy (OsAttr p) (osLchown os p u g)"
  "osChmod (tracedOs os) p m = io_noisy (OsAttr p) (osChmod os p m)"
  "osMount (tracedOs os) p q = io_noisy (OsMount p q) (osMount os p q)"
  "osUnmount (tracedOs os) p = io_noisy (OsUnmount p) (osUnmount os p)"
  "timeNow (tracedOs os) = io_quiet (timeNow os)"
  by (simp_all add: tracedOs_def)

text \<open>
  A condition on the log, and the changes it admits: those that keep it when they are added.
\<close>

definition logIs :: "('e list \<Rightarrow> bool) \<Rightarrow> 'w \<times> 'e list \<Rightarrow> bool" where
  "logIs J = (\<lambda>(w, es). J es)"

definition admits :: "('e list \<Rightarrow> bool) \<Rightarrow> 'e \<Rightarrow> bool" where
  "admits J e \<longleftrightarrow> (\<forall>es. J es \<longrightarrow> J (es @ [e]))"

lemma logIs_pair [simp]: "logIs J (w, es) = J es"
  by (simp add: logIs_def)

lemma logIs_quiet [io_inv_intros]: "io_inv (logIs J) (io_quiet m)"
  unfolding logIs_def by (rule io_inv_quiet)

lemma logIs_noisy [io_inv_intros]: "admits J e \<Longrightarrow> io_inv (logIs J) (io_noisy e m)"
  unfolding logIs_def admits_def by (rule io_inv_noisy) auto

lemma admits_list_all [simp]: "admits (list_all P) e \<longleftrightarrow> P e"
  unfolding admits_def by (metis append_Nil list.pred_inject list_all_append)

text \<open>The paths removed, in order.\<close>

definition removals :: "os_event list \<Rightarrow> string list" where
  "removals es = List.map_filter (\<lambda>e. case e of OsRemoveAll p \<Rightarrow> Some p | _ \<Rightarrow> None) es"

lemma removals_append [simp]: "removals (es @ fs) = removals es @ removals fs"
  by (simp add: removals_def map_filter_def)

lemma removals_single [simp]: "removals [e] = (case e of OsRemoveAll p \<Rightarrow> [p] | _ \<Rightarrow> [])"
  by (simp add: removals_def map_filter_def split: os_event.split)

lemma removals_Nil [simp]: "removals [] = []"
  by (simp add: removals_def map_filter_def)

lemma admits_removals: "(\<And>p. e \<noteq> OsRemoveAll p) \<Longrightarrow> admits (\<lambda>es. removals es = ps) e"
  by (auto simp: admits_def split: os_event.split)

text \<open>The operating system as a computation with local variables sees it.\<close>

definition outsideOs :: "'w os_api \<Rightarrow> ('c \<times> 'w) os_api" where
  "outsideOs os = \<lparr>
     osMkdirAll = (\<lambda>p m. io_outside (osMkdirAll os p m)),
     osStat = (\<lambda>p. io_outside (osStat os p)),
     osLstat = (\<lambda>p. io_outside (osLstat os p)),
     osReadDir = (\<lambda>p. io_outside (osReadDir os p)),
     osReadlink = (\<lambda>p. io_outside (osReadlink os p)),
     osWriteFile = (\<lambda>p c m. io_outside (osWriteFile os p c m)),
     osRename = (\<lambda>a b. io_outside (osRename os a b)),
     osRemove = (\<lambda>p. io_outside (osRemove os p)),
     osRemoveAll = (\<lambda>p. io_outside (osRemoveAll os p)),
     osOpen = (\<lambda>p. io_outside (osOpen os p)),
     osReaddirnames = (\<lambda>f n. io_outside (osReaddirnames os f n)),
     osClose = (\<lambda>f. io_outside (osClose os f)),
     osChown = (\<lambda>p u g. io_outside (osChown os p u g)),
     osLchown = (\<lambda>p u g. io_outside (osLchown os p u g)),
     osChmod = (\<lambda>p m. io_outside (osChmod os p m)),
     osMount = (\<lambda>a b. io_outside (osMount os a b)),
     osUnmount = (\<lambda>p. io_outside (osUnmount os p)),
     timeNow = io_outside (timeNow os)\<rparr>"

lemma outsideOs_sel [simp]:
  "osLstat (outsideOs os) p = io_outside (osLstat os p)" "osReadDir (outsideOs os) p = io_outside (osReadDir os p)"
  "osStat (outsideOs os) p = io_outside (osStat os p)" "osReadlink (outsideOs os) p = io_outside (osReadlink os p)"
  "timeNow (outsideOs os) = io_outside (timeNow os)" "osMkdirAll (outsideOs os) p m = io_outside (osMkdirAll os p m)"
  by (simp_all add: outsideOs_def)

section \<open>A concrete world\<close>

text \<open>
  A small concrete world: files and directories of a node as an association list from
  cleaned paths, one open directory, a clock, and the log of mounts. It instantiates the
  operating-system parameter in the witnesses; no theorem of the development is about it
  alone.
\<close>

datatype mnode = MDir | MFile string

record mworld =
  mfs :: "(string \<times> mnode) list"
  mopen :: string
  mclock :: time
  mmounts :: "(string \<times> string) list"

definition mBelow :: "string \<Rightarrow> string \<Rightarrow> bool" where
  "mBelow root p \<longleftrightarrow> HasPrefix p (root @ ''/'')"

definition mWithin :: "string \<Rightarrow> string \<Rightarrow> bool" where
  "mWithin root p \<longleftrightarrow> p = root \<or> mBelow root p"

definition mPlain :: "string \<Rightarrow> bool" where
  "mPlain c \<longleftrightarrow> c \<noteq> '''' \<and> c \<noteq> ''.'' \<and> c \<noteq> ''..'' \<and> slash \<notin> set c"

definition mInfo :: "mnode \<Rightarrow> file_info" where
  "mInfo n = (case n of
     MDir \<Rightarrow> \<lparr>fiSize = 0, fiMode = or ModeDir 0x1ED, fiModTime = 0\<rparr>
   | MFile s \<Rightarrow> \<lparr>fiSize = int (length s), fiMode = 0x1A4, fiModTime = 0\<rparr>)"

definition mStat :: "string \<Rightarrow> (mworld, file_info) io" where
  "mStat p = (\<lambda>w. case map_of (mfs w) p of
     None \<Rightarrow> (Inl ErrNotExist, w) | Some n \<Rightarrow> (Inr (mInfo n), w))"

definition mUpd :: "((string \<times> mnode) list \<Rightarrow> (string \<times> mnode) list) \<Rightarrow> (mworld, unit) io" where
  "mUpd f = (\<lambda>w. (Inr (), w\<lparr>mfs := f (mfs w)\<rparr>))"

text \<open>The entries of a directory: the paths one plain component below it.\<close>

definition mReadDir :: "string \<Rightarrow> (mworld, (string \<times> bool) list) io" where
  "mReadDir p = (\<lambda>w. (Inr (map (\<lambda>(q, n). (drop (length p + 1) q, n = MDir))
     (filter (\<lambda>(q, n). mBelow p q \<and> mPlain (drop (length p + 1) q)) (mfs w))), w))"

definition memOs :: "mworld os_api" where
  "memOs = \<lparr>
     osMkdirAll = (\<lambda>p _. mUpd (\<lambda>fs. if gohas fs p then fs else (p, MDir) # fs)),
     osStat = mStat,
     osLstat = mStat,
     osReadDir = mReadDir,
     osReadlink = (\<lambda>_. io_fail ErrNotExist),
     osWriteFile = (\<lambda>p c _. mUpd (AList.update p (MFile c))),
     osRename = (\<lambda>a b. mUpd (map (\<lambda>(p, n). (if mWithin a p then b @ drop (length a) p else p, n)))),
     osRemove = (\<lambda>p. mUpd (filter (\<lambda>(q, _). q \<noteq> p))),
     osRemoveAll = (\<lambda>p. mUpd (filter (\<lambda>(q, _). \<not> mWithin p q))),
     osOpen = (\<lambda>p w. (Inr 3, w\<lparr>mopen := p\<rparr>)),
     osReaddirnames = (\<lambda>_ n w. case filter (mBelow (mopen w)) (map fst (mfs w)) of
        [] \<Rightarrow> (Inl ErrEOF, w) | xs \<Rightarrow> (Inr (take n xs), w)),
     osClose = (\<lambda>_. io_return ()),
     osChown = (\<lambda>_ _ _. io_return ()),
     osLchown = (\<lambda>_ _ _. io_return ()),
     osChmod = (\<lambda>_ _. io_return ()),
     osMount = (\<lambda>a b w. (Inr (), w\<lparr>mmounts := (a, b) # mmounts w\<rparr>)),
     osUnmount = (\<lambda>_. io_return ()),
     timeNow = (\<lambda>w. (Inr (mclock w), w))\<rparr>"

definition memWorld :: "(string \<times> mnode) list \<Rightarrow> mworld" where
  "memWorld fs = \<lparr>mfs = fs, mopen = '''', mclock = 63900000000 * second, mmounts = []\<rparr>"

lemmas memOs_simps = memOs_def memWorld_def mStat_def mUpd_def mInfo_def mBelow_def mWithin_def
  io_return_def HasPrefix_def

end
