(* ===== verification/GoPath.thy ===== *)
theory GoPath
  imports GoStrings
begin

text \<open>
  Go's \<^verbatim>\<open>path\<close> and \<^verbatim>\<open>path/filepath\<close> (Unix) as the program uses them: \<^verbatim>\<open>Clean\<close>,
  \<^verbatim>\<open>Join\<close>, \<^verbatim>\<open>Dir\<close>, \<^verbatim>\<open>Rel\<close> and \<^verbatim>\<open>path.Match\<close>. A path is worked on through its
  components; the main facts are that cleaning is idempotent and that joining plain
  components below a root appends them to the root's components.
\<close>

section \<open>Clean\<close>

definition pathRooted :: "string \<Rightarrow> bool" where
  "pathRooted p \<longleftrightarrow> p \<noteq> [] \<and> hd p = slash"

definition cleanStep :: "bool \<Rightarrow> string list \<Rightarrow> string \<Rightarrow> string list" where
  "cleanStep rooted out c =
     (if c = [] \<or> c = ''.'' then out
      else if c = ''..'' then
        (if out \<noteq> [] \<and> last out \<noteq> ''..'' then butlast out
         else if rooted then out else out @ [''..''])
      else out @ [c])"

definition pathComps :: "string \<Rightarrow> string list" where
  "pathComps p = foldl (cleanStep (pathRooted p)) [] (Split slash p)"

definition renderPath :: "bool \<Rightarrow> string list \<Rightarrow> string" where
  "renderPath rooted cs =
     (if rooted then slash # Join ''/'' cs else if cs = [] then ''.'' else Join ''/'' cs)"

definition Clean :: "string \<Rightarrow> string" where
  "Clean p = renderPath (pathRooted p) (pathComps p)"

fun pathJoin :: "string list \<Rightarrow> string" where
  "pathJoin [] = []"
| "pathJoin (e # es) = (if e \<noteq> [] then Clean (Join ''/'' (e # es)) else pathJoin es)"

declare pathJoin.simps [simp del]

definition pathDir :: "string \<Rightarrow> string" where
  "pathDir p = Clean (case LastIndexChar p slash of None \<Rightarrow> [] | Some i \<Rightarrow> take (i + 1) p)"

text \<open>
  The components of a cleaned path: none is empty, \<^verbatim>\<open>.\<close> or holds a separator, and
  \<^verbatim>\<open>..\<close> stands only at the front of a relative path. A plain component is none of these.
\<close>

definition plainComp :: "string \<Rightarrow> bool" where
  "plainComp c \<longleftrightarrow> c \<noteq> [] \<and> c \<noteq> ''.'' \<and> c \<noteq> ''..'' \<and> slash \<notin> set c"

definition okComps :: "bool \<Rightarrow> string list \<Rightarrow> bool" where
  "okComps rooted cs \<longleftrightarrow>
     (\<exists>n us. cs = replicate n ''..'' @ us \<and> list_all plainComp us \<and> (rooted \<longrightarrow> n = 0))"

lemma okComps_Nil [simp]: "okComps r []"
  by (auto simp: okComps_def intro: exI [of _ 0])

lemma okComps_plain: "list_all plainComp cs \<Longrightarrow> okComps r cs"
  unfolding okComps_def by (rule exI [of _ 0]) auto

lemma okCompsE:
  assumes "okComps r cs"
  obtains n us where "cs = replicate n ''..'' @ us" "list_all plainComp us" "r \<longrightarrow> n = 0"
  using assms unfolding okComps_def by blast

lemma okComps_append:
  assumes "okComps r cs" and "list_all plainComp ds"
  shows "okComps r (cs @ ds)"
proof -
  obtain n us where "cs = replicate n ''..'' @ us" "list_all plainComp us" "r \<longrightarrow> n = 0"
    using assms(1) by (rule okCompsE)
  with assms(2) show ?thesis
    unfolding okComps_def by (intro exI [of _ n] exI [of _ "us @ ds"]) simp
qed

lemma okComps_no_sep:
  assumes "okComps r cs" and "c \<in> set cs"
  shows "c \<noteq> [] \<and> c \<noteq> ''.'' \<and> slash \<notin> set c"
proof -
  obtain n us where cs: "cs = replicate n ''..'' @ us" and us: "list_all plainComp us"
    using assms(1) by (rule okCompsE)
  with assms(2) have "c = ''..'' \<or> c \<in> set us"
    by (cases n) auto
  then show ?thesis
  proof
    assume "c \<in> set us"
    with us have "plainComp c" by (simp add: list_all_iff)
    then show ?thesis by (simp add: plainComp_def)
  qed simp
qed

lemma okComps_cleanStep:
  assumes ok: "okComps r out" and c: "slash \<notin> set c"
  shows "okComps r (cleanStep r out c)"
proof -
  obtain n us where out: "out = replicate n ''..'' @ us" and us: "list_all plainComp us"
    and r: "r \<longrightarrow> n = 0"
    using ok by (rule okCompsE)
  consider "c = [] \<or> c = ''.''" | "c = ''..''" | "plainComp c"
    using c by (auto simp: plainComp_def)
  then show ?thesis
  proof cases
    case 1
    with ok show ?thesis by (auto simp: cleanStep_def)
  next
    case 2
    show ?thesis
    proof (cases us rule: rev_cases)
      case Nil
      have "okComps r (out @ [''..''])" if "\<not> r"
        unfolding okComps_def using that Nil out
        by (intro exI [of _ "Suc n"] exI [of _ "[]"]) (simp add: replicate_append_same)
      moreover have "out \<noteq> [] \<Longrightarrow> last out = ''..''"
        using Nil out by (cases n) auto
      ultimately show ?thesis
        using 2 ok by (auto simp: cleanStep_def)
    next
      case (snoc vs v)
      then have "last out \<noteq> ''..''" "out \<noteq> []" "butlast out = replicate n ''..'' @ vs"
        using out us by (auto simp: plainComp_def butlast_append)
      moreover have "okComps r (replicate n ''..'' @ vs)"
        using snoc us r by (auto simp: okComps_def)
      ultimately show ?thesis
        using 2 by (simp add: cleanStep_def)
    qed
  next
    case 3
    then have "cleanStep r out c = out @ [c]"
      by (auto simp: cleanStep_def plainComp_def)
    with ok 3 show ?thesis by (simp add: okComps_append)
  qed
qed

lemma okComps_foldl:
  "okComps r out \<Longrightarrow> \<forall>c \<in> set cs. slash \<notin> set c \<Longrightarrow> okComps r (foldl (cleanStep r) out cs)"
  by (induction cs arbitrary: out) (auto simp: okComps_cleanStep)

lemma okComps_pathComps: "okComps (pathRooted p) (pathComps p)"
  unfolding pathComps_def by (rule okComps_foldl) (auto dest: Split_no_sep)

lemma foldl_cleanStep_plain:
  "list_all plainComp ws \<Longrightarrow> foldl (cleanStep r) out ws = out @ ws"
  by (induction ws arbitrary: out) (auto simp: cleanStep_def plainComp_def)

lemma foldl_cleanStep_dotdots:
  "\<not> r \<Longrightarrow> foldl (cleanStep r) (replicate m ''..'') (replicate n ''..'') = replicate (m + n) ''..''"
proof (induction n arbitrary: m)
  case (Suc n)
  have "cleanStep r (replicate m ''..'') ''..'' = replicate (Suc m) ''..''"
    using Suc.prems by (cases m) (auto simp: cleanStep_def replicate_append_same)
  then have "foldl (cleanStep r) (replicate m ''..'') (replicate (Suc n) ''..'') =
      foldl (cleanStep r) (replicate (Suc m) ''..'') (replicate n ''..'')"
    by simp
  also have "\<dots> = replicate (Suc m + n) ''..''"
    using Suc by blast
  finally show ?case by simp
qed simp

lemma foldl_cleanStep_ok:
  assumes "okComps r cs"
  shows "foldl (cleanStep r) [] cs = cs"
proof -
  obtain n us where cs: "cs = replicate n ''..'' @ us" and us: "list_all plainComp us"
    and r: "r \<longrightarrow> n = 0"
    using assms by (rule okCompsE)
  have "foldl (cleanStep r) [] (replicate n ''..'') = replicate n ''..''"
    using r foldl_cleanStep_dotdots [of r 0 n] by (cases r) auto
  with cs us show ?thesis by (simp add: foldl_cleanStep_plain)
qed

lemma Split_renderPath:
  assumes "okComps r cs"
  shows "Split slash (renderPath r cs) =
    (if r then [] # (if cs = [] then [[]] else cs) else if cs = [] then [''.''] else cs)"
  using assms okComps_no_sep Split_Join [of cs slash] by (auto simp: renderPath_def)

lemma pathRooted_renderPath:
  assumes "okComps r cs"
  shows "pathRooted (renderPath r cs) = r"
proof (cases "r \<or> cs = []")
  case False
  then obtain c ds where cs: "cs = c # ds" by (cases cs) auto
  with okComps_no_sep [OF assms, of c] obtain a b where "c = a # b" "a \<noteq> slash"
    by (cases c) auto
  with cs False show ?thesis
    by (cases ds) (auto simp: renderPath_def pathRooted_def)
qed (auto simp: renderPath_def pathRooted_def)

lemma pathComps_renderPath:
  assumes "okComps r cs"
  shows "pathComps (renderPath r cs) = cs"
  using foldl_cleanStep_ok [OF assms]
  by (auto simp: pathComps_def pathRooted_renderPath [OF assms] Split_renderPath [OF assms] cleanStep_def)

lemma pathRooted_Clean [simp]: "pathRooted (Clean p) = pathRooted p"
  by (simp add: Clean_def pathRooted_renderPath okComps_pathComps)

lemma pathComps_Clean [simp]: "pathComps (Clean p) = pathComps p"
  by (simp add: Clean_def pathComps_renderPath okComps_pathComps)

lemma Clean_idem [simp]: "Clean (Clean p) = Clean p"
  by (simp add: Clean_def [of "Clean p"]) (simp add: Clean_def)

lemma Clean_renderPath: "okComps r cs \<Longrightarrow> Clean (renderPath r cs) = renderPath r cs"
  by (simp add: Clean_def pathRooted_renderPath pathComps_renderPath)

lemma Clean_eq_iff: "Clean p = Clean q \<longleftrightarrow> pathRooted p = pathRooted q \<and> pathComps p = pathComps q"
proof
  assume "Clean p = Clean q"
  then have "pathRooted (Clean p) = pathRooted (Clean q)" "pathComps (Clean p) = pathComps (Clean q)"
    by auto
  then show "pathRooted p = pathRooted q \<and> pathComps p = pathComps q" by simp
qed (simp add: Clean_def)

lemma Clean_neq_Nil [simp]: "Clean p \<noteq> []"
proof
  assume "Clean p = []"
  then have "\<not> pathRooted p" and "pathComps p \<noteq> []" and "Join ''/'' (pathComps p) = []"
    by (auto simp: Clean_def renderPath_def split: if_splits)
  moreover from this obtain c cs where c: "pathComps p = c # cs" by (auto simp: neq_Nil_conv)
  moreover have "c \<noteq> []"
    using okComps_no_sep [OF okComps_pathComps [of p], of c] c by simp
  ultimately show False by (cases cs) auto
qed

lemma Clean_dot: "Clean p = ''.'' \<longleftrightarrow> \<not> pathRooted p \<and> pathComps p = []"
proof -
  have "Clean p = ''.'' \<longleftrightarrow> Clean p = Clean ''.''"
    by (simp add: Clean_def [of "''.''"] pathRooted_def pathComps_def cleanStep_def renderPath_def)
  also have "\<dots> \<longleftrightarrow> \<not> pathRooted p \<and> pathComps p = []"
    by (subst Clean_eq_iff) (simp add: pathRooted_def [of "''.''"] pathComps_def [of "''.''"] cleanStep_def)
  finally show ?thesis .
qed

lemma Clean_slash: "Clean p = ''/'' \<longleftrightarrow> pathRooted p \<and> pathComps p = []"
proof -
  have "Clean p = ''/'' \<longleftrightarrow> Clean p = Clean ''/''"
    by (simp add: Clean_def [of "''/''"] pathRooted_def pathComps_def cleanStep_def renderPath_def)
  also have "\<dots> \<longleftrightarrow> pathRooted p \<and> pathComps p = []"
    by (subst Clean_eq_iff) (simp add: pathRooted_def [of "''/''"] pathComps_def [of "''/''"] cleanStep_def)
  finally show ?thesis .
qed

section \<open>Joining below a root\<close>

lemma pathComps_append:
  "p \<noteq> [] \<Longrightarrow>
   pathComps (p @ ''/'' @ q) = foldl (cleanStep (pathRooted p)) (pathComps p) (Split slash q)"
  by (simp add: pathComps_def pathRooted_def Split_append_sep)

lemma pathRooted_append [simp]: "p \<noteq> [] \<Longrightarrow> pathRooted (p @ q) = pathRooted p"
  by (simp add: pathRooted_def)

lemma pathJoin_Cons: "p \<noteq> [] \<Longrightarrow> pathJoin (p # qs) = Clean (Join ''/'' (p # qs))"
  by (simp add: pathJoin.simps)

lemma pathJoin2: "p \<noteq> [] \<Longrightarrow> pathJoin [p, q] = Clean (p @ ''/'' @ q)"
  by (simp add: pathJoin_Cons)

lemma renderPath_append:
  assumes "cs \<noteq> []" and "ws \<noteq> []"
  shows "renderPath r (cs @ ws) = renderPath r cs @ ''/'' @ Join ''/'' ws"
  using assms by (simp add: renderPath_def Join_append)

lemma Clean_join_plain:
  assumes "p \<noteq> []" "pathComps p \<noteq> []" "list_all plainComp ws" "ws \<noteq> []"
  shows "Clean (p @ ''/'' @ Join ''/'' ws) = Clean p @ ''/'' @ Join ''/'' ws"
proof -
  have "Split slash (Join ''/'' ws) = ws"
    using assms(3,4) by (intro Split_Join) (auto simp: plainComp_def list_all_iff)
  then have "pathComps (p @ ''/'' @ Join ''/'' ws) = pathComps p @ ws"
    by (simp add: pathComps_append [OF assms(1)] foldl_cleanStep_plain [OF assms(3)] del: append_Cons)
  then show ?thesis
    using assms by (simp add: Clean_def renderPath_append del: append_Cons)
qed

lemma pathJoin_below:
  assumes "p \<noteq> []" "pathComps p \<noteq> []" "list_all plainComp ws" "ws \<noteq> []"
  shows "pathJoin (p # ws) = Clean p @ ''/'' @ Join ''/'' ws"
  using assms Clean_join_plain [OF assms] by (simp add: pathJoin_Cons Join_Cons)

lemma pathComps_below:
  assumes "p \<noteq> []" "pathComps p \<noteq> []" "list_all plainComp ws" "ws \<noteq> []"
  shows "pathComps (Clean p @ ''/'' @ Join ''/'' ws) = pathComps p @ ws"
proof -
  have "Clean p @ ''/'' @ Join ''/'' ws = renderPath (pathRooted p) (pathComps p @ ws)"
    using assms by (simp add: Clean_def renderPath_append del: append_Cons)
  then show ?thesis
    by (simp add: pathComps_renderPath okComps_append okComps_pathComps assms(3) del: append_Cons)
qed

lemma Join_inject:
  assumes "us \<noteq> []" "vs \<noteq> []" "\<forall>w \<in> set us. slash \<notin> set w" "\<forall>w \<in> set vs. slash \<notin> set w"
    and "Join ''/'' us = Join ''/'' vs"
  shows "us = vs"
proof -
  have "us = Split slash (Join ''/'' us)" by (rule Split_Join [OF assms(1,3), symmetric])
  also have "\<dots> = Split slash (Join ''/'' vs)" using assms(5) by simp
  also have "\<dots> = vs" by (rule Split_Join [OF assms(2,4)])
  finally show ?thesis .
qed

text \<open>A path lies in a tree: it is the root of the tree or below it.\<close>

definition within :: "string \<Rightarrow> string \<Rightarrow> bool" where
  "within root p \<longleftrightarrow> p = root \<or> HasPrefix p (root @ ''/'')"

lemma within_Join:
  assumes "us \<noteq> []" "vs \<noteq> []" "\<forall>w \<in> set us. slash \<notin> set w" "\<forall>w \<in> set vs. slash \<notin> set w"
  shows "within (r @ ''/'' @ Join ''/'' us) (r @ ''/'' @ Join ''/'' vs) \<longleftrightarrow> prefix us vs"
proof
  assume "within (r @ ''/'' @ Join ''/'' us) (r @ ''/'' @ Join ''/'' vs)"
  then have "Join ''/'' vs = Join ''/'' us \<or> (\<exists>q. Join ''/'' vs = Join ''/'' us @ slash # q)"
    by (auto simp: within_def HasPrefix_iff)
  then show "prefix us vs"
  proof
    assume "Join ''/'' vs = Join ''/'' us"
    then have "vs = us" using Join_inject [of vs us] assms by simp
    then show ?thesis by simp
  next
    assume "\<exists>q. Join ''/'' vs = Join ''/'' us @ slash # q"
    then obtain q where q: "Join ''/'' vs = Join ''/'' us @ slash # q" by blast
    have "vs = Split slash (Join ''/'' vs)" using assms by (simp add: Split_Join)
    also have "\<dots> = us @ Split slash q" using assms by (simp add: q Split_append_sep Split_Join)
    finally show ?thesis by simp
  qed
next
  assume "prefix us vs"
  then obtain ws where "vs = us @ ws" by (auto simp: prefix_def)
  then show "within (r @ ''/'' @ Join ''/'' us) (r @ ''/'' @ Join ''/'' vs)"
    using assms(1) by (cases "ws = []") (auto simp: within_def HasPrefix_iff Join_append)
qed

lemma pathJoin_plain:
  assumes "list_all plainComp ws" "ws \<noteq> []"
  shows "pathJoin ws = Join ''/'' ws"
proof -
  obtain w vs where ws: "ws = w # vs" "w \<noteq> []"
    using assms by (cases ws) (auto simp: plainComp_def)
  have "Clean (Join ''/'' ws) = Clean (renderPath False ws)"
    using assms(2) by (simp add: renderPath_def)
  also have "\<dots> = renderPath False ws"
    by (rule Clean_renderPath) (simp add: okComps_plain assms(1))
  also have "\<dots> = Join ''/'' ws"
    using assms(2) by (simp add: renderPath_def)
  finally show ?thesis using ws by (simp add: pathJoin_Cons)
qed

section \<open>Rel\<close>

fun stripCommon :: "string list \<Rightarrow> string list \<Rightarrow> string list \<times> string list" where
  "stripCommon [] ys = ([], ys)"
| "stripCommon xs [] = (xs, [])"
| "stripCommon (x # xs) (y # ys) = (if x = y then stripCommon xs ys else (x # xs, y # ys))"

definition Rel :: "string \<Rightarrow> string \<Rightarrow> go_error + string" where
  "Rel base targ =
     (let b = Clean base; t = Clean targ;
          tc = (if t = ''.'' then [''.''] else pathComps t) in
      if t = b then Inr ''.''
      else if pathRooted b \<noteq> pathRooted t then Inl (Errorf ''Rel: cannot make relative'')
      else case stripCommon (pathComps b) tc of
        (rb, rt) \<Rightarrow>
          if rb \<noteq> [] \<and> rt \<noteq> [] \<and> hd rb = ''..'' then Inl (Errorf ''Rel: cannot make relative'')
          else Inr (Join ''/'' (replicate (length rb) ''..'' @ rt)))"

lemma stripCommon_append [simp]: "stripCommon xs (xs @ ys) = ([], ys)"
  by (induction xs) simp_all

lemma Rel_below:
  assumes "p \<noteq> []" "pathComps p \<noteq> []" "list_all plainComp ws" "ws \<noteq> []"
  shows "Rel p (Clean p @ ''/'' @ Join ''/'' ws) = Inr (Join ''/'' ws)"
proof -
  have ok: "okComps (pathRooted p) (pathComps p @ ws)"
    by (simp add: okComps_append okComps_pathComps assms(3))
  have "Clean p @ ''/'' @ Join ''/'' ws = renderPath (pathRooted p) (pathComps p @ ws)"
    using assms by (simp add: Clean_def renderPath_append del: append_Cons)
  then have t: "pathComps (Clean p @ ''/'' @ Join ''/'' ws) = pathComps p @ ws"
    "pathRooted (Clean p @ ''/'' @ Join ''/'' ws) = pathRooted p"
    using pathComps_renderPath [OF ok] pathRooted_renderPath [OF ok] by (auto simp del: append_Cons)
  then have "Clean (Clean p @ ''/'' @ Join ''/'' ws) \<noteq> Clean p"
    using assms(4) by (auto simp: Clean_eq_iff simp del: append_Cons)
  moreover have "Clean (Clean p @ ''/'' @ Join ''/'' ws) \<noteq> ''.''"
    using t assms(4) by (auto simp: Clean_dot simp del: append_Cons)
  ultimately show ?thesis
    using t by (simp add: Rel_def del: append_Cons)
qed

section \<open>The paths of a tree\<close>

text \<open>
  A proper root is a cleaned path that is neither \<^verbatim>\<open>/\<close> nor \<^verbatim>\<open>.\<close>; the paths of its tree are
  the root and what plain components lead to below it. Such a path is contained in the tree
  for the operating system too, up to symbolic links.
\<close>

definition properRoot :: "string \<Rightarrow> bool" where
  "properRoot root \<longleftrightarrow> pathComps root \<noteq> [] \<and> Clean root = root"

definition treePath :: "string \<Rightarrow> string list \<Rightarrow> string" where
  "treePath root ws = (if ws = [] then root else root @ ''/'' @ Join ''/'' ws)"

definition inTree :: "string \<Rightarrow> string \<Rightarrow> bool" where
  "inTree root p \<longleftrightarrow> (\<exists>ws. list_all plainComp ws \<and> p = treePath root ws)"

definition belowTree :: "string \<Rightarrow> string \<Rightarrow> bool" where
  "belowTree root p \<longleftrightarrow> inTree root p \<and> p \<noteq> root"

lemma properRoot_neq_Nil: "properRoot root \<Longrightarrow> root \<noteq> []"
  using Clean_neq_Nil [of root] by (auto simp: properRoot_def)

lemma inTreeI [intro]: "list_all plainComp ws \<Longrightarrow> inTree root (treePath root ws)"
  by (auto simp: inTree_def)

lemma inTree_root [simp]: "inTree root root"
  using inTreeI [of "[]" root] by (simp add: treePath_def)

lemma treePath_Nil [simp]: "treePath root [] = root"
  by (simp add: treePath_def)

lemma treePath_eq_root [simp]: "treePath root ws = root \<longleftrightarrow> ws = []"
  by (simp add: treePath_def)

lemma belowTreeI: "list_all plainComp ws \<Longrightarrow> ws \<noteq> [] \<Longrightarrow> belowTree root (treePath root ws)"
  by (auto simp: belowTree_def)

lemma belowTreeE:
  assumes "belowTree root p"
  obtains ws where "list_all plainComp ws" "ws \<noteq> []" "p = treePath root ws"
  using assms by (auto simp: belowTree_def inTree_def)

lemma belowTree_inTree: "belowTree root p \<Longrightarrow> inTree root p"
  by (simp add: belowTree_def)

lemma inTree_within: "inTree root p \<Longrightarrow> within root p"
  by (auto simp: inTree_def treePath_def within_def HasPrefix_iff split: if_splits)

lemma treePath_comps:
  assumes "properRoot root" "list_all plainComp ws"
  shows "pathComps (treePath root ws) = pathComps root @ ws"
  using assms pathComps_below [of root ws] properRoot_neq_Nil [OF assms(1)]
  by (auto simp: treePath_def properRoot_def)

lemma properRoot_treePath:
  assumes "properRoot root" "list_all plainComp ws"
  shows "properRoot (treePath root ws)"
  using assms Clean_join_plain [of root ws] properRoot_neq_Nil [OF assms(1)] treePath_comps [OF assms]
  by (auto simp: properRoot_def treePath_def)

lemma pathJoin_treePath:
  assumes "properRoot root" "list_all plainComp ws" "plainComp w"
  shows "pathJoin [treePath root ws, w] = treePath root (ws @ [w])"
proof -
  have "properRoot (treePath root ws)" using assms(1,2) by (rule properRoot_treePath)
  then have "pathJoin [treePath root ws, w] = treePath root ws @ ''/'' @ w"
    using pathJoin_below [of "treePath root ws" "[w]"] assms(3) properRoot_neq_Nil [of "treePath root ws"]
    by (simp add: properRoot_def)
  then show ?thesis by (simp add: treePath_def Join_append)
qed

lemma LastIndexChar_last: "c \<notin> set t \<Longrightarrow> LastIndexChar (s @ c # t) c = Some (length s)"
proof -
  assume "c \<notin> set t"
  then have "IndexChar (rev t @ c # rev s) c = Some (length t)"
    by (induction t rule: rev_induct) auto
  then show ?thesis by (simp add: LastIndexChar_def)
qed

lemma pathDir_treePath:
  assumes root: "properRoot root" and ws: "list_all plainComp ws" "ws \<noteq> []"
  shows "pathDir (treePath root ws) = treePath root (butlast ws)"
proof -
  obtain us w where split: "ws = us @ [w]" "slash \<notin> set w" "list_all plainComp us"
    using ws by (cases ws rule: rev_cases) (auto simp: plainComp_def)
  have t: "treePath root ws = treePath root us @ ''/'' @ w"
    by (auto simp: treePath_def split(1) Join_append)
  have p: "properRoot (treePath root us)" using root split(3) by (rule properRoot_treePath)
  then have nn: "treePath root us \<noteq> []" by (rule properRoot_neq_Nil)
  have "pathComps (treePath root us @ ''/'' @ []) = pathComps (treePath root us)"
    by (subst pathComps_append [OF nn]) (simp add: cleanStep_def)
  then have "Clean (treePath root us @ ''/'') = Clean (treePath root us)"
    using nn by (simp add: Clean_eq_iff)
  then show ?thesis
    unfolding pathDir_def t using LastIndexChar_last [OF split(2), of "treePath root us"] p
    by (simp add: properRoot_def split(1))
qed

lemma Rel_treePath:
  assumes "properRoot root" "list_all plainComp ws"
  shows "Rel root (treePath root ws) = Inr (if ws = [] then ''.'' else Join ''/'' ws)"
proof (cases "ws = []")
  case True
  then show ?thesis by (simp add: treePath_def Rel_def)
next
  case False
  then show ?thesis
    using assms Rel_below [of root ws] properRoot_neq_Nil [OF assms(1)] by (simp add: treePath_def properRoot_def)
qed

section \<open>Match\<close>

text \<open>
  \<^verbatim>\<open>path.Match\<close>: a pattern is a list of tokens; a malformed pattern matches nothing
  (the code drops the error). \<^verbatim>\<open>*\<close> and \<^verbatim>\<open>?\<close> do not match a separator.
\<close>

datatype patTok = PByte char | PAny | PStar | PClass bool "(nat \<times> nat) list"

definition getEsc :: "string \<Rightarrow> (nat \<times> string) option" where
  "getEsc chunk =
     (if chunk = [] \<or> hd chunk = CHR ''-'' \<or> hd chunk = CHR '']'' then None
      else let body = (if hd chunk = CHR 0x5C then tl chunk else chunk) in
        if body = [] then None
        else let (r, n) = DecodeRune body in
          if r = 65533 \<and> n = 1 \<or> drop n body = [] then None else Some (r, drop n body))"

lemma getEsc_shorter: "getEsc chunk = Some (r, rest) \<Longrightarrow> length rest < length chunk"
  using DecodeRune_width [of chunk] DecodeRune_width [of "tl chunk"]
  by (cases chunk) (auto simp: getEsc_def Let_def split: if_splits prod.splits)

function parseRanges :: "(nat \<times> nat) list \<Rightarrow> string \<Rightarrow> ((nat \<times> nat) list \<times> string) option" where
  "parseRanges acc chunk =
     (if chunk \<noteq> [] \<and> hd chunk = CHR '']'' \<and> acc \<noteq> [] then Some (acc, tl chunk)
      else case getEsc chunk of
        None \<Rightarrow> None
      | Some (lo, r1) \<Rightarrow>
          if hd r1 = CHR ''-'' then
            (case getEsc (tl r1) of None \<Rightarrow> None
             | Some (hi, r2) \<Rightarrow> parseRanges (acc @ [(lo, hi)]) r2)
          else parseRanges (acc @ [(lo, lo)]) r1)"
  by pat_completeness auto
termination
  by (relation "measure (\<lambda>(_, s). length s)") (auto dest!: getEsc_shorter)

declare parseRanges.simps [simp del]

lemma parseRanges_shorter:
  "parseRanges acc chunk = Some (rs, rest) \<Longrightarrow> length rest < length chunk"
proof (induction acc chunk rule: parseRanges.induct)
  case (1 acc chunk)
  show ?case
  proof (cases "chunk \<noteq> [] \<and> hd chunk = CHR '']'' \<and> acc \<noteq> []")
    case True
    with "1.prems" have "rest = tl chunk" by (simp add: parseRanges.simps [of acc chunk])
    with True show ?thesis by simp
  next
    case False
    with "1.prems" obtain lo r1 where g1: "getEsc chunk = Some (lo, r1)"
      by (auto simp: parseRanges.simps [of acc chunk] split: option.splits)
    show ?thesis
    proof (cases "hd r1 = CHR ''-''")
      case True
      with False g1 "1.prems" obtain hi r2 where g2: "getEsc (tl r1) = Some (hi, r2)"
        and p: "parseRanges (acc @ [(lo, hi)]) r2 = Some (rs, rest)"
        by (auto simp: parseRanges.simps [of acc chunk] split: option.splits)
      have "length rest < length r2"
        using "1.IH"(1) [OF False g1 refl True g2 refl p] .
      then show ?thesis
        using getEsc_shorter [OF g1] getEsc_shorter [OF g2] by simp
    next
      case notrange: False
      with False g1 "1.prems" have p: "parseRanges (acc @ [(lo, lo)]) r1 = Some (rs, rest)"
        by (auto simp: parseRanges.simps [of acc chunk])
      have "length rest < length r1"
        using "1.IH"(2) [OF False g1 refl notrange p] .
      then show ?thesis using getEsc_shorter [OF g1] by simp
    qed
  qed
qed

function parsePat :: "string \<Rightarrow> patTok list option" where
  "parsePat [] = Some []"
| "parsePat (c # s) =
     (if c = CHR ''*'' then map_option ((#) PStar) (parsePat s)
      else if c = CHR ''?'' then map_option ((#) PAny) (parsePat s)
      else if c = CHR ''['' then
        (let neg = (s \<noteq> [] \<and> hd s = CHR ''^'') in
         case parseRanges [] (if neg then tl s else s) of
           None \<Rightarrow> None
         | Some (rs, rest) \<Rightarrow> map_option ((#) (PClass neg rs)) (parsePat rest))
      else if c = CHR 0x5C then
        (case s of [] \<Rightarrow> None | d # r \<Rightarrow> map_option ((#) (PByte d)) (parsePat r))
      else map_option ((#) (PByte c)) (parsePat s))"
  by pat_completeness auto
termination
  by (relation "measure length") (auto dest!: parseRanges_shorter split: if_splits)

text \<open>
  The pattern is matched chunk by chunk, as \<^verbatim>\<open>path.Match\<close> does: a chunk is a run of tokens
  without \<^verbatim>\<open>*\<close>. After a star the chunk is tried at the current position, and then after each
  byte that the star may skip; the first place where it fits is kept and never revisited. Only
  the last chunk has to reach the end of the name.
\<close>

fun matchChunk :: "patTok list \<Rightarrow> string \<Rightarrow> string option" where
  "matchChunk [] s = Some s"
| "matchChunk (t # ts) [] = None"
| "matchChunk (PByte c # ts) (d # s) = (if c \<noteq> d then None else matchChunk ts s)"
| "matchChunk (PAny # ts) (d # s) =
     (if d = slash then None else matchChunk ts (drop (snd (DecodeRune (d # s))) (d # s)))"
| "matchChunk (PClass neg rs # ts) (d # s) =
     (if list_ex (\<lambda>(lo, hi). lo \<le> fst (DecodeRune (d # s)) \<and> fst (DecodeRune (d # s)) \<le> hi) rs = neg then None
      else matchChunk ts (drop (snd (DecodeRune (d # s))) (d # s)))"
| "matchChunk (PStar # ts) (d # s) = None"

fun matchSkip :: "patTok list \<Rightarrow> bool \<Rightarrow> string \<Rightarrow> string option" where
  "matchSkip chunk isLast [] = None"
| "matchSkip chunk isLast (d # s) =
     (if d = slash then None
      else case matchChunk chunk s of
        Some t \<Rightarrow> if isLast \<and> t \<noteq> [] then matchSkip chunk isLast s else Some t
      | None \<Rightarrow> matchSkip chunk isLast s)"

function matchTokens :: "patTok list \<Rightarrow> string \<Rightarrow> bool" where
  "matchTokens ts name =
     (if ts = [] then name = []
      else
        let star = (hd ts = PStar);
            body = dropWhile (\<lambda>t. t = PStar) ts;
            chunk = takeWhile (\<lambda>t. t \<noteq> PStar) body;
            rest = dropWhile (\<lambda>t. t \<noteq> PStar) body in
        if star \<and> chunk = [] then slash \<notin> set name
        else case (case matchChunk chunk name of
            Some t \<Rightarrow> if t = [] \<or> rest \<noteq> [] then Some t else if star then matchSkip chunk True name else None
          | None \<Rightarrow> if star then matchSkip chunk (rest = []) name else None) of
          None \<Rightarrow> False
        | Some t \<Rightarrow> matchTokens rest t)"
  by pat_completeness auto
termination
proof (relation "measure (length \<circ> fst)", goal_cases)
  case (2 ts name star body chunk rest)
  then obtain t us where "ts = t # us" by (cases ts) auto
  with 2 show ?case
    using length_dropWhile_le [of "\<lambda>t. t = PStar" us] length_dropWhile_le [of "\<lambda>t. t \<noteq> PStar" "dropWhile (\<lambda>t. t = PStar) us"]
      length_dropWhile_le [of "\<lambda>t. t \<noteq> PStar" us]
    by (auto simp: less_Suc_eq_le)
qed simp

declare matchTokens.simps [simp del]

definition Match :: "string \<Rightarrow> string \<Rightarrow> bool" where
  "Match pattern name = (case parsePat pattern of None \<Rightarrow> False | Some ts \<Rightarrow> matchTokens ts name)"

definition globChars :: string where
  "globChars = [CHR ''*'', CHR ''?'', CHR ''['', CHR 0x5C]"

lemma parsePat_literal: "\<forall>c \<in> set s. c \<notin> set globChars \<Longrightarrow> parsePat s = Some (map PByte s)"
  by (induction s) (auto simp: globChars_def)

lemma matchChunk_bytes: "matchChunk (map PByte p) s = (if prefix p s then Some (drop (length p) s) else None)"
proof (induction p arbitrary: s)
  case (Cons c p)
  then show ?case by (cases s) auto
qed simp

lemma matchTokens_bytes: "matchTokens (map PByte p) s \<longleftrightarrow> s = p"
proof -
  have chunk: "takeWhile (\<lambda>t. t \<noteq> PStar) (map PByte q) = map PByte q" "dropWhile (\<lambda>t. t \<noteq> PStar) (map PByte q) = []"
    "dropWhile (\<lambda>t. t = PStar) (map PByte q) = map PByte q" for q
    by (simp_all add: takeWhile_eq_all_conv) (cases q; simp)
  show ?thesis
  proof (cases p)
    case (Cons c q)
    then have "map PByte p \<noteq> []" "hd (map PByte p) \<noteq> PStar" by simp_all
    then show ?thesis
      unfolding matchTokens.simps [of "map PByte p"] Let_def chunk
      by (auto simp: matchChunk_bytes prefix_def matchTokens.simps [of "[]"])
  qed (simp add: matchTokens.simps)
qed

lemma Match_literal: "\<forall>c \<in> set p. c \<notin> set globChars \<Longrightarrow> Match p s \<longleftrightarrow> s = p"
  by (simp add: Match_def parsePat_literal matchTokens_bytes)

end
