(* ===== verification/Agent.thy ===== *)
theory Agent
  imports OsApi GoPath
begin

text \<open>
  \<^verbatim>\<open>internal/agent/agent.go\<close>: storage pools, the mapping of volumes to directories of a
  pool, the shadow and backup trees beside them, the sync command builder and the bearer
  token check. Definitions that touch files take the operating system as an argument.
\<close>

section \<open>Pools and volume paths\<close>

definition PoolMarkerFile :: string where
  "PoolMarkerFile = ''.simple-volume-pool''"

definition shadowRootDir :: string where "shadowRootDir = ''.simple-volume-shadows''"
definition shadowCurrentDir :: string where "shadowCurrentDir = ''current''"
definition shadowDataDir :: string where "shadowDataDir = ''data''"
definition shadowManifestName :: string where
  "shadowManifestName = ''.simple-volume-generation.json''"
definition backupRootDir :: string where "backupRootDir = ''.simple-volume-backups''"

record Pool =
  poolName :: string
  poolPath :: string

record VolumePath =
  vpPool :: Pool
  vpNamespace :: string
  vpName :: string
  vpGeneration :: string

abbreviation volumeAt :: "Pool \<Rightarrow> string \<Rightarrow> string \<Rightarrow> VolumePath" where
  "volumeAt pool namespace name \<equiv>
     \<lparr>vpPool = pool, vpNamespace = namespace, vpName = name, vpGeneration = ''''\<rparr>"

definition PoolClean :: "Pool \<Rightarrow> Pool" where
  "PoolClean p = \<lparr>poolName = poolName p, poolPath = Clean (poolPath p)\<rparr>"

definition invalidPoolPath :: "string \<Rightarrow> bool" where
  "invalidPoolPath p \<longleftrightarrow> p = ''.'' \<or> p = ''/'' \<or> p = ''''"

text \<open>\<^verbatim>\<open>safeSegment\<close> maps a name to one path component.\<close>

definition segChar :: "char \<Rightarrow> bool" where
  "segChar c \<longleftrightarrow> (CHR ''a'' \<le> c \<and> c \<le> CHR ''z'') \<or> (CHR ''A'' \<le> c \<and> c \<le> CHR ''Z'') \<or>
     (CHR ''0'' \<le> c \<and> c \<le> CHR ''9'') \<or> c = CHR ''-'' \<or> c = CHR ''_'' \<or> c = dot"

function mapSegment :: "string \<Rightarrow> string" where
  "mapSegment [] = []"
| "mapSegment (c # s) =
     (if segChar c then c else CHR ''-'') # mapSegment (drop (snd (DecodeRune (c # s))) (c # s))"
  by pat_completeness auto
termination
proof (relation "measure length")
  fix c :: char and s
  show "(drop (snd (DecodeRune (c # s))) (c # s), c # s) \<in> measure length"
    using DecodeRune_width [of "c # s"] by simp
qed simp

definition safeSegment :: "string \<Rightarrow> string" where
  "safeSegment s =
     (let s1 = TrimSpace s;
          s2 = ReplaceAll s1 ''..'' '''';
          s3 = mapSegment s2;
          s4 = Trim s3 ''.-''
      in if s4 = '''' then ''default'' else s4)"

definition ResolveVolumePath :: "VolumePath \<Rightarrow> go_error + string" where
  "ResolveVolumePath v =
     (let pool = PoolClean (vpPool v) in
      if invalidPoolPath (poolPath pool) then Inl (ErrInvalidPoolPath (poolPath (vpPool v)))
      else
        let rel = pathJoin [safeSegment (vpNamespace v), safeSegment (vpName v)];
            full = Clean (pathJoin [poolPath pool, rel])
        in if full \<noteq> poolPath pool \<and> \<not> HasPrefix full (poolPath pool @ ''/'')
           then Inl ErrPathOutsidePool else Inr full)"

definition EnsureVolumePath :: "'w os_api \<Rightarrow> VolumePath \<Rightarrow> filemode \<Rightarrow> ('w, string) io" where
  "EnsureVolumePath os v perm =
     io_bind (io_lift (ResolveVolumePath v)) (\<lambda>path.
     io_bind (osMkdirAll os path perm) (\<lambda>_. io_return path))"

definition ShadowSourceBasePath :: "string \<Rightarrow> string \<Rightarrow> string" where
  "ShadowSourceBasePath namespace volume =
     pathJoin [shadowRootDir, safeSegment namespace, safeSegment volume, shadowCurrentDir, shadowDataDir]"

definition resolvePoolRelativePath :: "Pool \<Rightarrow> string \<Rightarrow> go_error + string" where
  "resolvePoolRelativePath pool rel0 =
     (let cleanPool = PoolClean pool in
      if invalidPoolPath (poolPath cleanPool) then Inl (ErrInvalidPoolPath (poolPath pool))
      else
        let rel = Trim (ReplaceAll rel0 [CHR 0x5C] ''/'') ''/'' in
        if rel = '''' then Inl (Errorf ''relative path is required'')
        else
          let full = Clean (pathJoin [poolPath cleanPool, rel])
          in if full \<noteq> poolPath cleanPool \<and> \<not> HasPrefix full (poolPath cleanPool @ ''/'')
             then Inl ErrPathOutsidePool else Inr full)"

definition ResolveShadowPath :: "Pool \<Rightarrow> string \<Rightarrow> string \<Rightarrow> go_error + string" where
  "ResolveShadowPath pool namespace volume =
     resolvePoolRelativePath pool (ShadowSourceBasePath namespace volume)"

definition EnsureShadowPath :: "'w os_api \<Rightarrow> Pool \<Rightarrow> string \<Rightarrow> string \<Rightarrow> ('w, string) io" where
  "EnsureShadowPath os pool namespace volume =
     io_bind (io_lift (ResolveShadowPath pool namespace volume)) (\<lambda>path.
     io_bind (osMkdirAll os path 0x1ED) (\<lambda>_. io_return path))"

section \<open>Pool initialisation and backups\<close>

definition EnsurePool :: "'w os_api \<Rightarrow> Pool \<Rightarrow> bool \<Rightarrow> ('w, unit) io" where
  "EnsurePool os pool allowNonEmpty =
     (let clean = PoolClean pool; path = poolPath clean in
      if poolName clean = '''' then io_fail (Errorf ''pool name is required'')
      else if invalidPoolPath path then io_fail (ErrInvalidPoolPath (poolPath pool))
      else
        io_bind (osMkdirAll os path 0x1ED) (\<lambda>_.
        let marker = pathJoin [path, PoolMarkerFile] in
        io_try (osStat os marker) (\<lambda>st. case st of
          Inr _ \<Rightarrow> io_return ()
        | Inl e \<Rightarrow>
            if \<not> IsNotExist e then io_fail e
            else io_bind (osReadDir os path) (\<lambda>entries.
              if entries \<noteq> [] \<and> \<not> allowNonEmpty
              then io_fail (ErrNonEmptyPool path (length entries))
              else osWriteFile os marker
                (''name='' @ poolName clean @ [CHR 0x0A] @ ''path='' @ path @ [CHR 0x0A]) 0x1A4))))"

definition IsEmptyDir :: "'w os_api \<Rightarrow> string \<Rightarrow> ('w, bool) io" where
  "IsEmptyDir os path =
     io_bind (osOpen os path) (\<lambda>f.
     io_try (osReaddirnames os f 1) (\<lambda>r.
     io_try (osClose os f) (\<lambda>_. case r of
       Inl e \<Rightarrow> if e = ErrEOF then io_return True else io_fail e
     | Inr _ \<Rightarrow> io_return False)))"

definition BackupVolumePath :: "'w os_api \<Rightarrow> VolumePath \<Rightarrow> time \<Rightarrow> ('w, string) io" where
  "BackupVolumePath os v now =
     io_bind (io_lift (ResolveVolumePath v)) (\<lambda>path.
     io_try (osStat os path) (\<lambda>st. case st of
       Inl e \<Rightarrow> if IsNotExist e then io_return '''' else io_fail e
     | Inr _ \<Rightarrow>
         io_bind (IsEmptyDir os path) (\<lambda>empty.
         if empty then io_return ''''
         else
           let pool = PoolClean (vpPool v);
               backupRoot = pathJoin [poolPath pool, backupRootDir,
                 safeSegment (vpNamespace v), safeSegment (vpName v)] in
           io_bind (osMkdirAll os backupRoot 0x1ED) (\<lambda>_.
           let backupPath = pathJoin [backupRoot, FormatStamp now] in
           io_bind (osRename os path backupPath) (\<lambda>_. io_return backupPath)))))"

section \<open>Sync commands and tokens\<close>

record SyncRequest =
  srMethod :: string
  srSourceURL :: string
  srTargetPath :: string
  srExcludes :: "string list"
  srDelete :: bool

definition BuildSyncCommand :: "SyncRequest \<Rightarrow> go_error + string \<times> string list" where
  "BuildSyncCommand req =
     (let excludes = concat (map (\<lambda>e. [''--exclude'', e]) (srExcludes req)) in
      if srMethod req = '''' \<or> srMethod req = ''rsync'' then
        Inr (''rsync'', [''-a''] @ (if srDelete req then [''--delete''] else []) @ excludes @
          [srSourceURL req, srTargetPath req])
      else if srMethod req = ''rclone'' then
        Inr (''rclone'', [''sync'', srSourceURL req, srTargetPath req] @ excludes)
      else Inl (Errorf (''unsupported sync method '' @ srMethod req)))"

text \<open>\<^verbatim>\<open>TokenAuthorizer.Authorize\<close> on the value of the \<^verbatim>\<open>Authorization\<close> header.\<close>

definition Authorize :: "string \<Rightarrow> string \<Rightarrow> bool" where
  "Authorize token header \<longleftrightarrow> (if token = '''' then False else header = ''Bearer '' @ token)"

section \<open>Segments are plain path components\<close>

lemma segChar_mapSegment: "c \<in> set (mapSegment s) \<Longrightarrow> segChar c"
  by (induction s rule: mapSegment.induct) (auto simp: segChar_def split: if_splits)

lemma segChar_ascii: "segChar c \<Longrightarrow> byte c < 128"
  by (auto simp: segChar_def less_eq_char_def)

lemma segChar_not_spaceByte: "segChar c \<Longrightarrow> \<not> spaceByte c"
  by (auto simp: segChar_def less_eq_char_def spaceByte_def)

lemma segChar_not_slash [simp]: "\<not> segChar slash" "\<not> segChar (CHR 0x5C)"
  by (simp_all add: segChar_def less_eq_char_def)

lemma mapSegment_id: "list_all segChar s \<Longrightarrow> mapSegment s = s"
proof (induction s)
  case (Cons c s)
  then have "DecodeRune (c # s) = (byte c, 1)"
    by (simp add: DecodeRune_ascii segChar_ascii)
  with Cons show ?case by simp
qed simp

definition segment :: "string \<Rightarrow> bool" where
  "segment s \<longleftrightarrow> s \<noteq> [] \<and> list_all segChar s \<and> \<not> sublist ''..'' s \<and>
     hd s \<notin> set ''.-'' \<and> last s \<notin> set ''.-''"

lemma ReplaceAll_no_dotdot: "\<not> sublist ''..'' (ReplaceAll s ''..'' '''')"
proof (induction s "''..''" "'''' :: string" rule: ReplaceAll.induct)
  case (2 c s)
  show ?case
  proof (cases "prefix ''..'' (c # s)")
    case True
    with 2 show ?thesis by auto
  next
    case False
    then have "c = dot \<Longrightarrow> \<not> prefix [dot] (ReplaceAll s ''..'' '''')"
      by (cases s) auto
    with False 2 show ?thesis by (auto simp: sublist_Cons_right)
  qed
qed simp

lemma mapSegment_dot: "prefix [dot] (mapSegment s) \<Longrightarrow> prefix [dot] s"
  by (cases s) (auto split: if_splits)

lemma mapSegment_no_dotdot: "\<not> sublist ''..'' s \<Longrightarrow> \<not> sublist ''..'' (mapSegment s)"
proof (induction s rule: mapSegment.induct)
  case (2 c s)
  let ?r = "drop (snd (DecodeRune (c # s))) (c # s)"
  have "sublist ?r (c # s)" by simp
  with 2 have IH: "\<not> sublist ''..'' (mapSegment ?r)"
    using sublist_order.order.trans by blast
  have "\<not> prefix [dot] (mapSegment ?r)" if "c = dot"
  proof
    assume "prefix [dot] (mapSegment ?r)"
    then have "prefix [dot] ?r" by (rule mapSegment_dot)
    moreover have "?r = s" using that by (simp add: DecodeRune_ascii)
    ultimately have "prefix ''..'' (c # s)" using that by simp
    with "2.prems" show False using prefix_imp_sublist by blast
  qed
  with IH show ?case by (auto simp: sublist_Cons_right split: if_splits)
qed simp

lemma sublist_Trim: "sublist (Trim s cs) s"
  unfolding Trim_def
  by (meson prefix_TrimRight prefix_imp_sublist sublist_order.order.trans suffix_TrimLeft suffix_imp_sublist)

lemma segment_safeSegment: "segment (safeSegment s)"
proof -
  define r where "r = Trim (mapSegment (ReplaceAll (TrimSpace s) ''..'' '''')) ''.-''"
  have "\<not> sublist ''..'' r"
    unfolding r_def using mapSegment_no_dotdot ReplaceAll_no_dotdot sublist_Trim sublist_order.order.trans
    by blast
  moreover have "list_all segChar r"
    using set_Trim segChar_mapSegment by (fastforce simp: r_def list_all_iff)
  moreover have "r \<noteq> [] \<Longrightarrow> hd r \<notin> set ''.-'' \<and> last r \<notin> set ''.-''"
    unfolding r_def using Trim_hd Trim_last by blast
  moreover have "segment ''default''"
    by (simp add: segment_def segChar_def less_eq_char_def sublist_code)
  ultimately show ?thesis
    by (auto simp: safeSegment_def segment_def simp flip: r_def)
qed

lemma safeSegment_segment:
  assumes "segment s"
  shows "safeSegment s = s"
proof -
  from assms have "s \<noteq> []" "segChar (hd s)" "segChar (last s)"
    by (auto simp: segment_def list_all_iff)
  then have "TrimSpace s = s"
    by (simp add: TrimSpace_id segChar_not_spaceByte)
  moreover have "ReplaceAll s ''..'' '''' = s"
    using assms by (intro ReplaceAll_id) (auto simp: segment_def)
  ultimately show ?thesis
    using assms by (simp add: safeSegment_def segment_def mapSegment_id Trim_id)
qed

lemma plainComp_segment: "segment s \<Longrightarrow> plainComp s"
  by (auto simp: segment_def plainComp_def list_all_iff)

lemmas plainComp_safeSegment = plainComp_segment [OF segment_safeSegment]

lemma safeSegment_neq_Nil [simp]: "safeSegment s \<noteq> []"
  using segment_safeSegment [of s] by (simp add: segment_def)

lemma safeSegment_hd: "hd (safeSegment s) \<noteq> dot"
  using segment_safeSegment [of s] by (auto simp: segment_def)

section \<open>Where volumes, shadows and backups live\<close>

lemma validPool_comps: "\<not> invalidPoolPath (Clean p) \<Longrightarrow> pathComps p \<noteq> []"
  by (cases "pathRooted p") (auto simp: invalidPoolPath_def Clean_dot Clean_slash)

lemma pool_join:
  assumes "\<not> invalidPoolPath (Clean p)" "list_all plainComp ws" "ws \<noteq> []"
  shows "pathJoin (Clean p # ws) = Clean p @ ''/'' @ Join ''/'' ws"
    and "Clean (pathJoin (Clean p # ws)) = Clean p @ ''/'' @ Join ''/'' ws"
proof -
  show "pathJoin (Clean p # ws) = Clean p @ ''/'' @ Join ''/'' ws"
    using pathJoin_below [of "Clean p" ws] assms validPool_comps by simp
  then show "Clean (pathJoin (Clean p # ws)) = Clean p @ ''/'' @ Join ''/'' ws"
    using Clean_join_plain [of "Clean p" ws] assms validPool_comps by simp
qed

text \<open>The component lists of the three kinds of path below a pool.\<close>

definition volumeComps :: "string \<Rightarrow> string \<Rightarrow> string list" where
  "volumeComps namespace name = [safeSegment namespace, safeSegment name]"

definition shadowComps :: "string \<Rightarrow> string \<Rightarrow> string list" where
  "shadowComps namespace name =
     [shadowRootDir, safeSegment namespace, safeSegment name, shadowCurrentDir, shadowDataDir]"

definition backupComps :: "string \<Rightarrow> string \<Rightarrow> time \<Rightarrow> string list" where
  "backupComps namespace name now =
     [backupRootDir, safeSegment namespace, safeSegment name, FormatStamp now]"

lemma plain_internal_dirs:
  "plainComp shadowRootDir" "plainComp shadowCurrentDir" "plainComp shadowDataDir"
  "plainComp backupRootDir" "plainComp PoolMarkerFile"
  by (simp_all add: plainComp_def shadowRootDir_def shadowCurrentDir_def shadowDataDir_def
      backupRootDir_def PoolMarkerFile_def)

lemma plain_stamp: "plainComp (FormatStamp t)"
proof -
  have "FormatStamp t \<noteq> []" by (auto simp: FormatStamp_def split: prod.splits)
  moreover have "FormatStamp t \<noteq> ''.''" "FormatStamp t \<noteq> ''..''"
    using last_FormatStamp [of t] by auto
  ultimately show ?thesis using FormatStamp_no_slash [of t] by (simp add: plainComp_def)
qed

lemma plain_comps:
  "list_all plainComp (volumeComps ns v)" "list_all plainComp (shadowComps ns v)"
  "list_all plainComp (backupComps ns v t)"
  by (simp_all add: volumeComps_def shadowComps_def backupComps_def plainComp_safeSegment
      plain_internal_dirs plain_stamp)

lemma comps_neq_Nil [simp]:
  "volumeComps ns v \<noteq> []" "shadowComps ns v \<noteq> []" "backupComps ns v t \<noteq> []"
  by (simp_all add: volumeComps_def shadowComps_def backupComps_def)

lemma plainComp_no_slash: "list_all plainComp ws \<Longrightarrow> \<forall>w \<in> set ws. slash \<notin> set w"
  by (auto simp: list_all_iff plainComp_def)

lemma join_segments: "pathJoin (volumeComps ns v) = Join ''/'' (volumeComps ns v)"
  by (rule pathJoin_plain) (simp_all add: plain_comps)

lemma ResolveVolumePath_Inr:
  "ResolveVolumePath v = Inr p \<longleftrightarrow>
     \<not> invalidPoolPath (Clean (poolPath (vpPool v))) \<and>
     p = Clean (poolPath (vpPool v)) @ ''/'' @ Join ''/'' (volumeComps (vpNamespace v) (vpName v))"
proof -
  let ?ws = "volumeComps (vpNamespace v) (vpName v)" and ?p = "poolPath (vpPool v)"
  have rel: "pathJoin [safeSegment (vpNamespace v), safeSegment (vpName v)] = Join ''/'' ?ws"
    using join_segments [of "vpNamespace v" "vpName v"] by (simp add: volumeComps_def)
  have "Clean (pathJoin [Clean ?p, Join ''/'' ?ws]) = Clean ?p @ ''/'' @ Join ''/'' ?ws"
    if "\<not> invalidPoolPath (Clean ?p)"
  proof -
    have "pathJoin [Clean ?p, Join ''/'' ?ws] = pathJoin (Clean ?p # ?ws)"
      by (simp add: volumeComps_def pathJoin_Cons)
    then show ?thesis using pool_join(2) [OF that plain_comps(1)] by simp
  qed
  then show ?thesis
    by (auto simp: ResolveVolumePath_def PoolClean_def Let_def rel HasPrefix_iff)
qed

lemma ResolveVolumePath_Inl:
  "ResolveVolumePath v = Inl e \<longleftrightarrow>
     invalidPoolPath (Clean (poolPath (vpPool v))) \<and> e = ErrInvalidPoolPath (poolPath (vpPool v))"
proof (cases "invalidPoolPath (Clean (poolPath (vpPool v)))")
  case True
  then show ?thesis by (auto simp: ResolveVolumePath_def PoolClean_def Let_def)
next
  case False
  then have "\<exists>p. ResolveVolumePath v = Inr p" by (simp add: ResolveVolumePath_Inr)
  with False show ?thesis by auto
qed

lemma ResolveVolumePath_eq:
  "ResolveVolumePath v =
     (let pool = Clean (poolPath (vpPool v)) in
      if invalidPoolPath pool then Inl (ErrInvalidPoolPath (poolPath (vpPool v)))
      else Inr (pool @ ''/'' @ safeSegment (vpNamespace v) @ ''/'' @ safeSegment (vpName v)))"
  by (cases "ResolveVolumePath v")
    (auto simp: ResolveVolumePath_Inr ResolveVolumePath_Inl volumeComps_def)


lemma ShadowSourceBasePath_eq: "ShadowSourceBasePath ns v = Join ''/'' (shadowComps ns v)"
proof -
  have "ShadowSourceBasePath ns v = pathJoin (shadowComps ns v)"
    by (simp add: ShadowSourceBasePath_def shadowComps_def)
  then show ?thesis by (simp add: pathJoin_plain plain_comps)
qed

lemma plain_trim:
  assumes "list_all plainComp ws" "ws \<noteq> []"
  shows "Trim (Join ''/'' ws) ''/'' = Join ''/'' ws"
proof -
  have ends: "c \<noteq> [] \<and> hd c \<noteq> slash \<and> last c \<noteq> slash" if "plainComp c" for c
    using that hd_in_set [of c] last_in_set [of c] by (metis plainComp_def)
  obtain w vs where w: "ws = w # vs" "w \<noteq> []" "hd w \<noteq> slash"
    using assms ends by (cases ws) auto
  obtain us u where u: "ws = us @ [u]" "u \<noteq> []" "last u \<noteq> slash"
    using assms ends by (cases ws rule: rev_cases) auto
  have "Join ''/'' ws \<noteq> []" "hd (Join ''/'' ws) = hd w"
    using w by (cases vs; simp)+
  moreover have "last (Join ''/'' ws) = last u"
    using u by (cases "us = []") (auto simp: Join_append)
  ultimately show ?thesis
    using w u by (intro Trim_id) auto
qed

lemma shadowComps_no_backslash: "CHR 0x5C \<notin> set (Join ''/'' (shadowComps ns v))"
proof -
  have "CHR 0x5C \<notin> set (safeSegment s)" for s
    using segment_safeSegment [of s] by (auto simp: segment_def list_all_iff)
  then show ?thesis
    by (simp add: shadowComps_def shadowRootDir_def shadowCurrentDir_def shadowDataDir_def)
qed

lemma ResolveShadowPath_Inr:
  "ResolveShadowPath pool ns v = Inr p \<longleftrightarrow>
     \<not> invalidPoolPath (Clean (poolPath pool)) \<and>
     p = Clean (poolPath pool) @ ''/'' @ Join ''/'' (shadowComps ns v)"
proof -
  let ?ws = "shadowComps ns v" and ?p = "poolPath pool"
  have rel: "Trim (ReplaceAll (ShadowSourceBasePath ns v) [CHR 0x5C] ''/'') ''/'' = Join ''/'' ?ws"
    by (simp add: ShadowSourceBasePath_eq ReplaceAll_notin shadowComps_no_backslash plain_trim plain_comps)
  have ne: "Join ''/'' ?ws \<noteq> []"
    by (simp add: shadowComps_def shadowRootDir_def)
  have "Clean (pathJoin [Clean ?p, Join ''/'' ?ws]) = Clean ?p @ ''/'' @ Join ''/'' ?ws"
    if "\<not> invalidPoolPath (Clean ?p)"
  proof -
    have "pathJoin [Clean ?p, Join ''/'' ?ws] = pathJoin (Clean ?p # ?ws)"
      by (simp add: shadowComps_def pathJoin_Cons)
    then show ?thesis using pool_join(2) [OF that plain_comps(2)] by simp
  qed
  then show ?thesis
    using ne
    by (auto simp: ResolveShadowPath_def resolvePoolRelativePath_def PoolClean_def Let_def rel HasPrefix_iff)
qed

lemma internal_dirs_not_segments:
  "safeSegment s \<noteq> shadowRootDir" "safeSegment s \<noteq> backupRootDir" "safeSegment s \<noteq> PoolMarkerFile"
  using safeSegment_hd [of s]
  by (auto simp: shadowRootDir_def backupRootDir_def PoolMarkerFile_def)

text \<open>
  C22. The trees of a pool do not overlap: no volume directory contains or lies in the shadow
  tree of any volume, nor a backup of any volume, so replication can neither serve nor prune
  the agent's own state through a volume path.
\<close>

theorem volume_shadow_backup_disjoint:
  assumes "ResolveVolumePath v = Inr vp"
    and "ResolveShadowPath (vpPool v) ns name = Inr sp"
    and "bp = Clean (poolPath (vpPool v)) @ ''/'' @ Join ''/'' (backupComps ns' name' now)"
  shows "\<not> within vp sp \<and> \<not> within sp vp \<and> \<not> within vp bp \<and> \<not> within bp vp \<and>
    \<not> within sp bp \<and> \<not> within bp sp"
proof -
  let ?r = "Clean (poolPath (vpPool v))"
  have eqs: "vp = ?r @ ''/'' @ Join ''/'' (volumeComps (vpNamespace v) (vpName v))"
    "sp = ?r @ ''/'' @ Join ''/'' (shadowComps ns name)"
    using assms by (auto simp: ResolveVolumePath_Inr ResolveShadowPath_Inr)
  have pre: "within (?r @ ''/'' @ Join ''/'' us) (?r @ ''/'' @ Join ''/'' ws) = prefix us ws"
    if "list_all plainComp us" "list_all plainComp ws" "us \<noteq> []" "ws \<noteq> []" for us ws
    by (rule within_Join) (use that plainComp_no_slash in auto)
  note pre = pre [OF plain_comps(1) plain_comps(2)] pre [OF plain_comps(2) plain_comps(1)]
    pre [OF plain_comps(1) plain_comps(3)] pre [OF plain_comps(3) plain_comps(1)]
    pre [OF plain_comps(2) plain_comps(3)] pre [OF plain_comps(3) plain_comps(2)]
  have "shadowRootDir \<noteq> backupRootDir" by (simp add: shadowRootDir_def backupRootDir_def)
  then show ?thesis
    unfolding eqs assms(3)
    by (simp add: pre del: append_Cons append_Nil)
      (simp add: volumeComps_def shadowComps_def backupComps_def internal_dirs_not_segments
        internal_dirs_not_segments [THEN not_sym])
qed

definition demoVolume :: VolumePath where
  "demoVolume = \<lparr>vpPool = \<lparr>poolName = ''default'', poolPath = ''/pool''\<rparr>,
     vpNamespace = ''games'', vpName = ''../etc'', vpGeneration = ''''\<rparr>"

lemma demoPool_valid: "\<not> invalidPoolPath (Clean (poolPath (vpPool demoVolume)))"
  by code_simp

theorem volume_shadow_backup_disjoint_witness:
  "\<not> within (Clean ''/pool'' @ ''/'' @ Join ''/'' (volumeComps ''games'' ''../etc''))
      (Clean ''/pool'' @ ''/'' @ Join ''/'' (shadowComps ''a'' ''b''))"
proof -
  have "ResolveVolumePath demoVolume =
      Inr (Clean ''/pool'' @ ''/'' @ Join ''/'' (volumeComps ''games'' ''../etc''))"
    using demoPool_valid by (subst ResolveVolumePath_Inr) (simp add: demoVolume_def)
  moreover have "ResolveShadowPath (vpPool demoVolume) ''a'' ''b'' =
      Inr (Clean ''/pool'' @ ''/'' @ Join ''/'' (shadowComps ''a'' ''b''))"
    using demoPool_valid by (subst ResolveShadowPath_Inr) (simp add: demoVolume_def)
  ultimately show ?thesis
    using volume_shadow_backup_disjoint by blast
qed

section \<open>Pool adoption and backups\<close>

definition markerPath :: "Pool \<Rightarrow> string" where
  "markerPath pool = pathJoin [Clean (poolPath pool), PoolMarkerFile]"

definition markerContent :: "Pool \<Rightarrow> string" where
  "markerContent pool =
     ''name='' @ poolName pool @ [CHR 0x0A] @ ''path='' @ Clean (poolPath pool) @ [CHR 0x0A]"

text \<open>
  C31. Storage pool safety: without the override, initialising a pool succeeds only if the
  marker file is already there, or if it is missing and the directory listing is empty, and
  in the second case the only change to the directory is the marker.
\<close>

theorem EnsurePool_adopts_only_marked_or_empty:
  assumes run: "EnsurePool os pool False w = (Inr (), w')"
  shows "\<exists>w1 w2 r. osMkdirAll os (Clean (poolPath pool)) 0x1ED w = (Inr (), w1) \<and>
    osStat os (markerPath pool) w1 = (r, w2) \<and>
    ((\<exists>info. r = Inr info \<and> w' = w2) \<or>
     r = Inl ErrNotExist \<and> (\<exists>w3. osReadDir os (Clean (poolPath pool)) w2 = (Inr [], w3) \<and>
       osWriteFile os (markerPath pool) (markerContent pool) 0x1A4 w3 = (Inr (), w')))"
proof -
  have valid: "poolName pool \<noteq> ''''" "\<not> invalidPoolPath (Clean (poolPath pool))"
    using run by (auto simp: EnsurePool_def PoolClean_def Let_def split: if_splits)
  with run obtain w1 w2 r where steps: "osMkdirAll os (Clean (poolPath pool)) 0x1ED w = (Inr (), w1)"
      "osStat os (markerPath pool) w1 = (r, w2)"
    and rest: "(case r of Inr _ \<Rightarrow> io_return ()
        | Inl e \<Rightarrow> if \<not> IsNotExist e then io_fail e
            else io_bind (osReadDir os (Clean (poolPath pool))) (\<lambda>entries.
              if entries \<noteq> []
              then io_fail (ErrNonEmptyPool (Clean (poolPath pool)) (length entries))
              else osWriteFile os (markerPath pool) (markerContent pool) 0x1A4)) w2 = (Inr (), w')"
    unfolding EnsurePool_def PoolClean_def markerPath_def markerContent_def Let_def
      Pool.select_convs not_False_eq_True simp_thms
    by (simp add: io_bind_Inr io_try_run) blast
  show ?thesis
  proof (cases r)
    case (Inl e)
    with rest steps show ?thesis
      by (auto simp: IsNotExist_def io_bind_Inr split: if_splits)
  next
    case (Inr info)
    with rest steps show ?thesis by auto
  qed
qed

definition demoPool :: Pool where
  "demoPool = \<lparr>poolName = ''default'', poolPath = ''/pool''\<rparr>"

lemma demoPool_run:
  "EnsurePool memOs demoPool False (memWorld []) =
     (Inr (), memWorld [(''/pool'', MDir), (''/pool/.simple-volume-pool'', MFile (markerContent demoPool))])"
  by code_simp

theorem EnsurePool_adopts_only_marked_or_empty_witness:
  "\<exists>w1 w2 r. osMkdirAll memOs (Clean (poolPath demoPool)) 0x1ED (memWorld []) = (Inr (), w1) \<and>
    osStat memOs (markerPath demoPool) w1 = (r, w2) \<and> r = Inl ErrNotExist"
  using EnsurePool_adopts_only_marked_or_empty [OF demoPool_run]
  by (auto simp: memOs_def mUpd_def mStat_def memWorld_def split: option.splits)

text \<open>
  C32. A backup loses nothing: when the backup of a volume reports a path, the whole volume
  directory was renamed to that path, a fresh entry below the pool's backup tree for this
  volume, as the last thing done; otherwise it reports the empty path and renames nothing.
\<close>

theorem BackupVolumePath_renames:
  assumes run: "BackupVolumePath os v now w = (Inr b, w')"
  shows "\<exists>p. ResolveVolumePath v = Inr p \<and>
    (if b = '''' then
       (\<exists>r w1. osStat os p w = (r, w1) \<and>
         (r = Inl ErrNotExist \<and> w' = w1 \<or> (\<exists>i. r = Inr i \<and> IsEmptyDir os p w1 = (Inr True, w'))))
     else b = Clean (poolPath (vpPool v)) @ ''/'' @ Join ''/'' (backupComps (vpNamespace v) (vpName v) now) \<and>
       (\<exists>u. osRename os p b u = (Inr (), w')))"
proof -
  obtain p where p: "ResolveVolumePath v = Inr p"
    using run by (cases "ResolveVolumePath v") (auto simp: BackupVolumePath_def io_bind_Inr)
  then have valid: "\<not> invalidPoolPath (Clean (poolPath (vpPool v)))"
    by (simp add: ResolveVolumePath_Inr)
  let ?root = "Clean (poolPath (vpPool v))"
  let ?bs = "[backupRootDir, safeSegment (vpNamespace v), safeSegment (vpName v)]"
  have broot: "pathJoin (?root # ?bs) = ?root @ ''/'' @ Join ''/'' ?bs"
    using pool_join(1) [OF valid, of ?bs]
    by (simp add: plain_internal_dirs plainComp_safeSegment)
  have bpath: "pathJoin [?root @ ''/'' @ Join ''/'' ?bs, FormatStamp now] =
      ?root @ ''/'' @ Join ''/'' (backupComps (vpNamespace v) (vpName v) now)"
    using pool_join(1) [OF valid plain_comps(3) comps_neq_Nil(3), of "vpNamespace v" "vpName v" now]
    by (simp add: backupComps_def pathJoin_Cons)
  obtain r w1 where st: "osStat os p w = (r, w1)" by fastforce
  from run p st have rest: "(case r of
       Inl e \<Rightarrow> if IsNotExist e then io_return '''' else io_fail e
     | Inr _ \<Rightarrow> io_bind (IsEmptyDir os p) (\<lambda>empty.
         if empty then io_return ''''
         else io_bind (osMkdirAll os (pathJoin (?root # ?bs)) 0x1ED) (\<lambda>_.
           io_bind (osRename os p (pathJoin [pathJoin (?root # ?bs), FormatStamp now]))
             (\<lambda>_. io_return (pathJoin [pathJoin (?root # ?bs), FormatStamp now]))))) w1 = (Inr b, w')"
    unfolding BackupVolumePath_def PoolClean_def Let_def Pool.select_convs
    by (simp add: io_bind_Inr io_try_run)
  show ?thesis
  proof (cases r)
    case (Inl e)
    with rest st p show ?thesis by (auto simp: IsNotExist_def split: if_splits)
  next
    case (Inr i)
    with rest st p show ?thesis
      unfolding broot bpath by (auto simp: io_bind_Inr split: if_splits)
  qed
qed

definition demoRoot :: string where
  "demoRoot = Clean ''/pool'' @ ''/'' @ Join ''/'' (volumeComps ''games'' ''../etc'')"

definition demoBackup :: string where
  "demoBackup = Clean ''/pool'' @ ''/'' @ Join ''/'' (backupComps ''games'' ''../etc'' 0)"

definition demoWorld :: mworld where
  "demoWorld = memWorld [(demoRoot, MDir), (demoRoot @ ''/save'', MFile ''x'')]"

lemma demoVolume_root: "ResolveVolumePath demoVolume = Inr demoRoot"
  using demoPool_valid by (subst ResolveVolumePath_Inr) (simp add: demoVolume_def demoRoot_def)

lemma demoBackup_run: "\<exists>w'. BackupVolumePath memOs demoVolume 0 demoWorld = (Inr demoBackup, w')"
proof -
  let ?bs = "[backupRootDir, safeSegment ''games'', safeSegment ''../etc'']"
  have valid: "\<not> invalidPoolPath (Clean ''/pool'')"
    using demoPool_valid by (simp add: demoVolume_def)
  have broot: "pathJoin (Clean ''/pool'' # ?bs) = Clean ''/pool'' @ ''/'' @ Join ''/'' ?bs"
    by (rule pool_join(1) [OF valid]) (simp_all add: plain_internal_dirs plainComp_safeSegment)
  have bpath: "pathJoin [Clean ''/pool'' @ ''/'' @ Join ''/'' ?bs, FormatStamp 0] = demoBackup"
    using pool_join(1) [OF valid plain_comps(3) comps_neq_Nil(3), of "''games''" "''../etc''" 0]
    by (simp add: demoBackup_def backupComps_def pathJoin_Cons)
  have stat: "osStat memOs demoRoot demoWorld = (Inr (mInfo MDir), demoWorld)"
    by (simp add: memOs_def mStat_def demoWorld_def memWorld_def)
  have nonempty: "IsEmptyDir memOs demoRoot demoWorld = (Inr False, demoWorld\<lparr>mopen := demoRoot\<rparr>)"
    by (simp add: IsEmptyDir_def memOs_def demoWorld_def memWorld_def mBelow_def HasPrefix_iff io_defs)
  have sel: "poolPath (vpPool demoVolume) = ''/pool''" "vpNamespace demoVolume = ''games''"
    "vpName demoVolume = ''../etc''"
    by (simp_all add: demoVolume_def)
  have ops: "\<exists>u'. osMkdirAll memOs p m u = (Inr (), u')" "\<exists>u'. osRename memOs p q u = (Inr (), u')"
    for p m q u
    by (simp_all add: memOs_def mUpd_def)
  obtain w1 where mk: "osMkdirAll memOs (Clean ''/pool'' @ ''/'' @ Join ''/'' ?bs) 0x1ED
      (demoWorld\<lparr>mopen := demoRoot\<rparr>) = (Inr (), w1)"
    using ops(1) by blast
  obtain w2 where mv: "osRename memOs demoRoot demoBackup w1 = (Inr (), w2)"
    using ops(2) by blast
  have "BackupVolumePath memOs demoVolume 0 demoWorld = (Inr demoBackup, w2)"
    unfolding BackupVolumePath_def PoolClean_def Let_def Pool.select_convs sel broot bpath
      io_bind_def io_try_def io_lift_def io_return_def
    by (simp only: demoVolume_root stat nonempty mk mv prod.case sum.case if_False)
  then show ?thesis by blast
qed

theorem BackupVolumePath_renames_witness:
  "\<exists>u w'. osRename memOs demoRoot demoBackup u = (Inr (), w') \<and>
     BackupVolumePath memOs demoVolume 0 demoWorld = (Inr demoBackup, w')"
proof -
  obtain w' where run: "BackupVolumePath memOs demoVolume 0 demoWorld = (Inr demoBackup, w')"
    using demoBackup_run by blast
  have "demoBackup \<noteq> ''''" by (simp add: demoBackup_def)
  then show ?thesis
    using BackupVolumePath_renames [OF run] demoVolume_root run by auto
qed

end
