(* ===== verification/PathFilter.thy ===== *)
theory PathFilter
  imports Agent
begin

text \<open>
  The path and event layer of \<^verbatim>\<open>internal/agent/replication.go\<close>: file events and their
  normalisation, include and exclude filters, coalescing of a batch of events, and the key
  of the per-volume lock.
\<close>

section \<open>Events and filters\<close>

definition EventOpUpsert :: string where "EventOpUpsert = ''upsert''"
definition EventOpDelete :: string where "EventOpDelete = ''delete''"

record FileEvent =
  evPath :: string
  evOp :: string

record PathFilter =
  IncludePaths :: "string list"
  ExcludePaths :: "string list"
  PruneExcluded :: bool

definition NormalizeEventPath :: "string \<Rightarrow> go_error + string" where
  "NormalizeEventPath p0 =
     (let p1 = TrimSpace (ReplaceAll p0 [CHR 0x5C] ''/'');
          p = TrimPrefix p1 ''/'';
          clean = Clean p in
      if clean = ''.'' \<or> clean = '''' then Inl (Errorf ''empty event path'')
      else if HasPrefix clean ''../'' \<or> clean = ''..''
        then Inl (Errorf (''event path escapes volume: '' @ p))
      else Inr clean)"

definition normalizeSlashes :: "string \<Rightarrow> string" where
  "normalizeSlashes pattern = Trim (ReplaceAll pattern [CHR 0x5C] ''/'') ''/''"

definition matchesPath :: "string \<Rightarrow> string \<Rightarrow> bool" where
  "matchesPath pattern0 p =
     (let pattern = normalizeSlashes pattern0 in
      if pattern = '''' then False
      else if HasSuffix pattern ''/**'' then
        (let pre = TrimSuffix pattern ''/**'' in p = pre \<or> HasPrefix p (pre @ ''/''))
      else if HasSuffix pattern ''/'' then HasPrefix p (TrimSuffix pattern ''/'' @ ''/'')
      else if Match pattern p then True
      else p = pattern \<or> HasPrefix p (pattern @ ''/''))"

text \<open>The loop over the glob markers in \<^verbatim>\<open>filterStaticPrefix\<close>: where the first of them stands.\<close>

definition patternCut :: "string \<Rightarrow> nat" where
  "patternCut pattern =
     foldl (\<lambda>cut marker. case IndexChar pattern marker of
         None \<Rightarrow> cut | Some idx \<Rightarrow> if idx < cut then idx else cut)
       (length pattern) [CHR ''*'', CHR ''?'', CHR ''['']"

definition filterStaticPrefix :: "string \<Rightarrow> string" where
  "filterStaticPrefix pattern0 =
     (let pattern = normalizeSlashes pattern0 in
      if pattern = '''' then ''''
      else
        let cut = patternCut pattern;
            pre = TrimSuffix (take cut pattern) ''/'';
            pre' = (case LastIndexChar pre slash of
                      Some i \<Rightarrow> if cut < length pattern then take i pre else pre
                    | None \<Rightarrow> pre)
        in Trim pre' ''/'')"

definition isPathAncestor :: "string \<Rightarrow> string \<Rightarrow> bool" where
  "isPathAncestor candidate0 descendant0 =
     (let candidate = Trim candidate0 ''/''; descendant = Trim descendant0 ''/'' in
      if candidate = '''' then True
      else candidate = descendant \<or> HasPrefix descendant (candidate @ ''/''))"

definition normalizeFilterPattern :: "string \<Rightarrow> string" where
  "normalizeFilterPattern pattern0 =
     (let pattern = normalizeSlashes pattern0 in
      if pattern = '''' then ''/**''
      else if HasSuffix pattern ''/**'' then ''/'' @ pattern
      else if HasSuffix pattern ''/'' then ''/'' @ TrimSuffix pattern ''/'' @ ''/**''
      else ''/'' @ pattern)"

definition ShouldReplicate :: "PathFilter \<Rightarrow> string \<Rightarrow> bool" where
  "ShouldReplicate f p = (case NormalizeEventPath p of
     Inl _ \<Rightarrow> False
   | Inr clean \<Rightarrow>
       if list_ex (\<lambda>ex. matchesPath ex clean) (ExcludePaths f) then False
       else if IncludePaths f = [] then True
       else list_ex (\<lambda>inc. matchesPath inc clean) (IncludePaths f))"

definition ShouldTraverse :: "PathFilter \<Rightarrow> string \<Rightarrow> bool" where
  "ShouldTraverse f p = (case NormalizeEventPath p of
     Inl _ \<Rightarrow> False
   | Inr clean \<Rightarrow>
       if list_ex (\<lambda>ex. matchesPath ex clean) (ExcludePaths f) then False
       else if IncludePaths f = [] then True
       else list_ex (\<lambda>inc. matchesPath inc clean \<or>
         (let root = filterStaticPrefix inc in root \<noteq> '''' \<and> isPathAncestor clean root)) (IncludePaths f))"

section \<open>Coalescing\<close>

text \<open>The three containers of the loop: \<^verbatim>\<open>byPath\<close>, \<^verbatim>\<open>order\<close> and \<^verbatim>\<open>position\<close>.\<close>

record coalesceState =
  csByPath :: "string \<rightharpoonup> FileEvent"
  csOrder :: "string list"
  csPosition :: "string \<rightharpoonup> nat"

definition removeOrder :: "nat \<Rightarrow> coalesceState \<Rightarrow> coalesceState" where
  "removeOrder idx st =
     (let order = take idx (csOrder st) @ drop (idx + 1) (csOrder st) in
      st\<lparr>csOrder := order,
         csPosition := fold (\<lambda>i m. m(order ! i \<mapsto> i)) [idx ..< length order] (csPosition st)\<rparr>)"

definition coalesceStep :: "PathFilter \<Rightarrow> FileEvent \<Rightarrow> coalesceState \<Rightarrow> coalesceState" where
  "coalesceStep filt event st = (case NormalizeEventPath (evPath event) of
     Inl _ \<Rightarrow> st
   | Inr clean \<Rightarrow>
       if \<not> ShouldReplicate filt clean then st
       else
         let op = (if evOp event = '''' then EventOpUpsert else evOp event);
             st1 = (case csPosition st clean of Some idx \<Rightarrow> removeOrder idx st | None \<Rightarrow> st)
         in \<lparr>csByPath = (csByPath st1)(clean \<mapsto> \<lparr>evPath = clean, evOp = op\<rparr>),
             csOrder = csOrder st1 @ [clean],
             csPosition = (csPosition st1)(clean \<mapsto> length (csOrder st1))\<rparr>)"

definition CoalesceEvents :: "FileEvent list \<Rightarrow> PathFilter \<Rightarrow> FileEvent list" where
  "CoalesceEvents events filt =
     (let st = fold (coalesceStep filt) events
            \<lparr>csByPath = Map.empty, csOrder = [], csPosition = Map.empty\<rparr>
      in map (\<lambda>p. case csByPath st p of Some e \<Rightarrow> e | None \<Rightarrow> \<lparr>evPath = '''', evOp = ''''\<rparr>) (csOrder st))"

text \<open>The key of \<^verbatim>\<open>VolumeLocker.Lock\<close>.\<close>

definition lockKey :: "string \<Rightarrow> string \<Rightarrow> string" where
  "lockKey namespace volume = safeSegment namespace @ ''/'' @ safeSegment volume"

section \<open>Coalescing keeps the last event of each path\<close>

text \<open>The events that count: normalised, filtered, and with the default operation filled in.\<close>

definition effectiveEvent :: "PathFilter \<Rightarrow> FileEvent \<Rightarrow> FileEvent option" where
  "effectiveEvent filt event = (case NormalizeEventPath (evPath event) of
     Inl _ \<Rightarrow> None
   | Inr clean \<Rightarrow> if ShouldReplicate filt clean
       then Some \<lparr>evPath = clean, evOp = (if evOp event = '''' then EventOpUpsert else evOp event)\<rparr>
       else None)"

text \<open>The reference: of several events for a path, the last one, where it stands.\<close>

fun lastPerPath :: "FileEvent list \<Rightarrow> FileEvent list" where
  "lastPerPath [] = []"
| "lastPerPath (e # es) =
     (if evPath e \<in> evPath ` set es then lastPerPath es else e # lastPerPath es)"

lemma fold_positions:
  assumes "distinct xs" "n \<le> k" "k \<le> length xs"
  shows "fold (\<lambda>i m. m(xs ! i \<mapsto> i)) [n ..< k] m p = Some i \<longleftrightarrow>
    (if \<exists>j. n \<le> j \<and> j < k \<and> xs ! j = p then n \<le> i \<and> i < k \<and> xs ! i = p else m p = Some i)"
  using assms(2,3)
proof (induction k)
  case (Suc k)
  define g where "g = (\<lambda>i m. m(xs ! i \<mapsto> (i :: nat)))"
  show ?case
  proof (cases "n = Suc k")
    case False
    with Suc.prems have k: "n \<le> k" "k < length xs" by simp_all
    then have IH: "fold g [n ..< k] m p = Some i \<longleftrightarrow>
      (if \<exists>j. n \<le> j \<and> j < k \<and> xs ! j = p then n \<le> i \<and> i < k \<and> xs ! i = p else m p = Some i)"
      unfolding g_def by (intro Suc.IH) simp_all
    have last: "fold g [n ..< Suc k] m p = (if p = xs ! k then Some k else fold g [n ..< k] m p)"
      using k by (simp add: g_def)
    have uniq: "xs ! j = xs ! k \<longleftrightarrow> j = k" if "j \<le> k" for j
      using that k assms(1) by (simp add: nth_eq_iff_index_eq)
    have "fold g [n ..< Suc k] m p = Some i \<longleftrightarrow>
      (if \<exists>j. n \<le> j \<and> j < Suc k \<and> xs ! j = p then n \<le> i \<and> i < Suc k \<and> xs ! i = p else m p = Some i)"
    proof (cases "xs ! k = p")
      case True
      then show ?thesis using last k uniq by (auto simp: less_Suc_eq_le)
    next
      case False
      then have "(\<exists>j\<ge>n. j < Suc k \<and> xs ! j = p) \<longleftrightarrow> (\<exists>j\<ge>n. j < k \<and> xs ! j = p)"
        and "i < Suc k \<and> xs ! i = p \<longleftrightarrow> i < k \<and> xs ! i = p"
        by (metis less_Suc_eq)+
      with False IH last show ?thesis by auto
    qed
    then show ?thesis unfolding g_def .
  qed auto
qed simp

text \<open>The position map of a list of distinct paths, and what removing one entry does to it.\<close>

definition posRep :: "(string \<rightharpoonup> nat) \<Rightarrow> string list \<Rightarrow> bool" where
  "posRep m xs \<longleftrightarrow> (\<forall>p i. m p = Some i \<longleftrightarrow> i < length xs \<and> xs ! i = p)"

lemma posRep_remove:
  assumes pos: "posRep m (us @ c # vs)" and d: "distinct (us @ c # vs)" and "p \<noteq> c"
  shows "fold (\<lambda>i m. m((us @ vs) ! i \<mapsto> i)) [length us ..< length (us @ vs)] m p = Some i \<longleftrightarrow>
    i < length (us @ vs) \<and> (us @ vs) ! i = p"
proof -
  let ?in = "\<exists>j. length us \<le> j \<and> j < length (us @ vs) \<and> (us @ vs) ! j = p"
  have inv: "?in \<longleftrightarrow> p \<in> set vs"
  proof
    assume ?in
    then obtain j where j: "length us \<le> j" "j < length (us @ vs)" "(us @ vs) ! j = p" by blast
    then have "vs ! (j - length us) = p" "j - length us < length vs" by (simp_all add: nth_append)
    then show "p \<in> set vs" by auto
  next
    assume "p \<in> set vs"
    then obtain j where "j < length vs" "vs ! j = p" by (auto simp: in_set_conv_nth)
    then show ?in by (intro exI [of _ "length us + j"]) (simp add: nth_append)
  qed
  have upd: "fold (\<lambda>i m. m((us @ vs) ! i \<mapsto> i)) [length us ..< length (us @ vs)] m p = Some i \<longleftrightarrow>
    (if ?in then length us \<le> i \<and> i < length (us @ vs) \<and> (us @ vs) ! i = p else m p = Some i)"
    using d by (intro fold_positions) auto
  show ?thesis
  proof (cases "p \<in> set vs")
    case True
    then have "i < length us \<Longrightarrow> (us @ vs) ! i \<noteq> p"
      using d by (simp add: nth_append) (metis disjoint_iff nth_mem)
    then show ?thesis unfolding upd using inv True by (metis not_le)
  next
    case False
    then have "m p = Some i \<longleftrightarrow> i < length us \<and> us ! i = p"
      using pos \<open>p \<noteq> c\<close> by (auto simp: posRep_def nth_append nth_Cons split: if_splits nat.splits)
    moreover have "(us @ vs) ! i \<noteq> p" if "length us \<le> i" "i < length (us @ vs)"
      using that False inv by blast
    ultimately show ?thesis
      unfolding upd using inv False by (cases "i < length us") (auto simp: nth_append)
  qed
qed

text \<open>The loop's containers represent a list of events with distinct paths.\<close>

definition csRep :: "coalesceState \<Rightarrow> FileEvent list \<Rightarrow> bool" where
  "csRep st es \<longleftrightarrow> distinct (map evPath es) \<and> csOrder st = map evPath es \<and>
     (\<forall>e \<in> set es. csByPath st (evPath e) = Some e) \<and> posRep (csPosition st) (map evPath es)"

lemma filter_split_path:
  assumes "distinct (map evPath (us @ x # vs))"
  shows "filter (\<lambda>y. evPath y \<noteq> evPath x) (us @ x # vs) = us @ vs"
proof -
  have "\<forall>y \<in> set us \<union> set vs. evPath y \<noteq> evPath x"
  proof
    fix y
    assume "y \<in> set us \<union> set vs"
    then have "evPath y \<in> evPath ` set us \<union> evPath ` set vs" by blast
    moreover have "evPath x \<notin> evPath ` set us \<union> evPath ` set vs" using assms by simp
    ultimately show "evPath y \<noteq> evPath x" by metis
  qed
  then show ?thesis by (simp add: filter_id_conv)
qed

text \<open>One turn of the loop drops the older event of the same path and appends the new one.\<close>

lemma csRep_append:
  assumes "distinct (map evPath es)" "evPath e \<notin> evPath ` set es"
    and "\<forall>x \<in> set es. m (evPath x) = Some x"
    and "\<And>p i. p \<noteq> evPath e \<Longrightarrow> pos p = Some i \<longleftrightarrow> i < length es \<and> map evPath es ! i = p"
  shows "csRep \<lparr>csByPath = m(evPath e \<mapsto> e), csOrder = map evPath es @ [evPath e],
      csPosition = pos(evPath e \<mapsto> length es)\<rparr> (es @ [e])"
proof -
  have "posRep (pos(evPath e \<mapsto> length es)) (map evPath es @ [evPath e])"
    unfolding posRep_def
  proof (intro allI)
    fix p i
    show "(pos(evPath e \<mapsto> length es)) p = Some i \<longleftrightarrow>
      i < length (map evPath es @ [evPath e]) \<and> (map evPath es @ [evPath e]) ! i = p"
    proof (cases "p = evPath e")
      case True
      have "i < length es \<Longrightarrow> evPath (es ! i) \<noteq> evPath e"
        using assms(2) by (metis image_eqI nth_mem)
      with True show ?thesis by (auto simp: nth_append less_Suc_eq)
    next
      case False
      with assms(4) [of p i] show ?thesis by (auto simp: nth_append less_Suc_eq)
    qed
  qed
  moreover have "\<forall>x \<in> set es. evPath x \<noteq> evPath e" using assms(2) by (metis imageI)
  ultimately show ?thesis using assms(1-3) by (auto simp: csRep_def)
qed

lemma csRep_insert_new:
  assumes rep: "csRep st es" and new: "csPosition st (evPath e) = None"
  shows "csRep \<lparr>csByPath = (csByPath st)(evPath e \<mapsto> e), csOrder = csOrder st @ [evPath e],
      csPosition = (csPosition st)(evPath e \<mapsto> length (csOrder st))\<rparr>
    (filter (\<lambda>y. evPath y \<noteq> evPath e) es @ [e])"
proof -
  have "\<not> (i < length es \<and> evPath (es ! i) = evPath e)" for i
    using rep new unfolding csRep_def posRep_def by (metis length_map nth_map option.distinct(1))
  then have notin: "evPath e \<notin> evPath ` set es" by (metis imageE in_set_conv_nth)
  then have "filter (\<lambda>y. evPath y \<noteq> evPath e) es = es"
    by (auto simp: filter_id_conv image_iff)
  then show ?thesis
    using csRep_append [of es e "csByPath st" "csPosition st"] rep notin
    by (simp add: csRep_def posRep_def)
qed

lemma csRep_insert:
  assumes rep: "csRep st es"
    and st1: "st1 = (case csPosition st (evPath e) of Some idx \<Rightarrow> removeOrder idx st | None \<Rightarrow> st)"
  shows "csRep \<lparr>csByPath = (csByPath st1)(evPath e \<mapsto> e), csOrder = csOrder st1 @ [evPath e],
      csPosition = (csPosition st1)(evPath e \<mapsto> length (csOrder st1))\<rparr>
    (filter (\<lambda>y. evPath y \<noteq> evPath e) es @ [e])"
proof (cases "csPosition st (evPath e)")
  case None
  with csRep_insert_new [OF rep] st1 show ?thesis by simp
next
  case (Some idx)
  then have idx: "idx < length es" "evPath (es ! idx) = evPath e"
    using rep by (auto simp: csRep_def posRep_def)
  define us x vs where "us = take idx es" and "x = es ! idx" and "vs = drop (Suc idx) es"
  have es: "es = us @ x # vs" and len: "length us = idx"
    using idx by (simp_all add: us_def x_def vs_def id_take_nth_drop [symmetric])
  have x: "evPath x = evPath e" using idx by (simp add: x_def)
  have d: "distinct (map evPath (us @ x # vs))" and pos: "posRep (csPosition st) (map evPath (us @ x # vs))"
    and bp: "\<forall>y \<in> set (us @ vs). csByPath st (evPath y) = Some y"
    and ord: "csOrder st = map evPath (us @ x # vs)"
    using rep by (auto simp: csRep_def es)
  have order: "take idx (csOrder st) @ drop (idx + 1) (csOrder st) = map evPath (us @ vs)"
    using len by (simp add: ord)
  have st1': "csOrder st1 = map evPath (us @ vs)" "csByPath st1 = csByPath st"
    "csPosition st1 = fold (\<lambda>i m. m(map evPath (us @ vs) ! i \<mapsto> i))
       [idx ..< length (map evPath (us @ vs))] (csPosition st)"
    unfolding st1 Some option.case removeOrder_def Let_def order by simp_all
  have "csPosition st1 p = Some i \<longleftrightarrow> i < length (us @ vs) \<and> map evPath (us @ vs) ! i = p"
    if "p \<noteq> evPath e" for p i
    using posRep_remove [of "csPosition st" "map evPath us" "evPath x" "map evPath vs" p i]
      pos d that len x st1'(3) by simp
  then have "csRep \<lparr>csByPath = (csByPath st)(evPath e \<mapsto> e), csOrder = map evPath (us @ vs) @ [evPath e],
      csPosition = (csPosition st1)(evPath e \<mapsto> length (us @ vs))\<rparr> ((us @ vs) @ [e])"
    using d bp x by (intro csRep_append) (auto simp: image_Un)
  moreover have "filter (\<lambda>y. evPath y \<noteq> evPath e) es = us @ vs"
    using filter_split_path [OF d] x es by metis
  ultimately show ?thesis
    unfolding st1'(1,2) by simp
qed

lemma csRep_step:
  assumes "csRep st es"
  shows "csRep (coalesceStep filt ev st) (case effectiveEvent filt ev of
      None \<Rightarrow> es | Some e \<Rightarrow> filter (\<lambda>y. evPath y \<noteq> evPath e) es @ [e])"
proof (cases "effectiveEvent filt ev")
  case None
  with assms show ?thesis
    by (auto simp: coalesceStep_def effectiveEvent_def split: sum.splits if_splits)
next
  case (Some e)
  then show ?thesis
    using csRep_insert [OF assms refl, of e]
    by (auto simp: coalesceStep_def effectiveEvent_def Let_def split: sum.splits if_splits)
qed

lemma lastPerPath_snoc:
  "lastPerPath (es @ [e]) = filter (\<lambda>y. evPath y \<noteq> evPath e) (lastPerPath es) @ [e]"
  by (induction es) auto

lemma csRep_fold:
  "csRep (fold (coalesceStep filt) evs \<lparr>csByPath = Map.empty, csOrder = [], csPosition = Map.empty\<rparr>)
     (lastPerPath (List.map_filter (effectiveEvent filt) evs))"
proof (induction evs rule: rev_induct)
  case Nil
  then show ?case by (simp add: csRep_def posRep_def map_filter_def)
next
  case (snoc ev evs)
  from csRep_step [OF snoc, of filt ev] show ?case
    by (auto simp: map_filter_def lastPerPath_snoc split: option.splits)
qed

lemma CoalesceEvents_eq:
  "CoalesceEvents events filt = lastPerPath (List.map_filter (effectiveEvent filt) events)"
proof -
  let ?es = "lastPerPath (List.map_filter (effectiveEvent filt) events)"
  let ?st = "fold (coalesceStep filt) events \<lparr>csByPath = Map.empty, csOrder = [], csPosition = Map.empty\<rparr>"
  have "csOrder ?st = map evPath ?es" "\<forall>e \<in> set ?es. csByPath ?st (evPath e) = Some e"
    using csRep_fold [of filt events] by (simp_all add: csRep_def)
  then have "CoalesceEvents events filt = map (\<lambda>e. e) ?es"
    unfolding CoalesceEvents_def Let_def by (simp cong: map_cong)
  then show ?thesis by simp
qed

text \<open>
  C30. Coalescing a batch: the index bookkeeping of the loop computes exactly the last
  effective event of each path, in the order in which those last events were recorded;
  events whose path does not normalise or is filtered out leave no trace.
\<close>

theorem CoalesceEvents_last_per_path:
  "CoalesceEvents events filt = lastPerPath (List.map_filter (effectiveEvent filt) events)"
  by (rule CoalesceEvents_eq)

section \<open>Events stay inside their volume\<close>

definition ensurePathInside :: "string \<Rightarrow> string \<Rightarrow> go_error + unit" where
  "ensurePathInside root target = (case Rel root target of
     Inl e \<Rightarrow> Inl e
   | Inr rel \<Rightarrow> if rel = ''..'' \<or> HasPrefix rel ''../''
       then Inl (Errorf (''archive entry escapes volume: '' @ target)) else Inr ())"

lemma NormalizeEventPath_Inr:
  assumes "NormalizeEventPath p = Inr c"
  shows "Clean c = c" "c \<noteq> ''.''" "list_all plainComp (pathComps c)"
proof -
  obtain q where q: "c = Clean q" "Clean q \<noteq> ''.''" "Clean q \<noteq> ''..''" "\<not> HasPrefix (Clean q) ''../''"
    using assms by (auto simp: NormalizeEventPath_def Let_def split: if_splits)
  then show "Clean c = c" "c \<noteq> ''.''" by simp_all
  obtain n us where ok: "pathComps q = replicate n ''..'' @ us" "list_all plainComp us" "pathRooted q \<longrightarrow> n = 0"
    using okComps_pathComps [of q] by (rule okCompsE)
  have "n = 0"
  proof (cases n)
    case (Suc m)
    with ok have "Clean q = Join ''/'' (''..'' # replicate m ''..'' @ us)"
      by (simp add: Clean_def renderPath_def)
    with q(3,4) show ?thesis
      by (cases "replicate m ''..'' @ us = []") (auto simp: Join_Cons HasPrefix_def)
  qed
  with ok q(1) show "list_all plainComp (pathComps c)" by simp
qed

lemma foldl_cleanStep_normal:
  assumes "Clean c = c" "list_all plainComp (pathComps c)" "c \<noteq> ''.''"
  shows "foldl (cleanStep r) acc (Split slash c) = acc @ pathComps c"
proof -
  have c: "c = renderPath (pathRooted c) (pathComps c)" using assms(1) by (simp add: Clean_def)
  have "Split slash c = (if pathRooted c then [''''] else []) @
      (if pathComps c = [] then [''''] else pathComps c)"
    using Split_renderPath [OF okComps_pathComps [of c]] c assms(1,3) Clean_dot [of c] by auto
  then show ?thesis
    by (simp add: foldl_cleanStep_plain [OF assms(2)] cleanStep_def)
qed

lemma normal_target:
  assumes c: "NormalizeEventPath p = Inr c" and root: "properRoot root"
  shows "pathJoin [root, c] = treePath root (pathComps c)"
proof -
  note n = NormalizeEventPath_Inr [OF c] and nn = properRoot_neq_Nil [OF root]
  have "pathComps (root @ ''/'' @ c) = pathComps root @ pathComps c"
    using foldl_cleanStep_normal [OF n(1,3,2)] by (simp add: pathComps_append [OF nn] del: append_Cons)
  then have "Clean (root @ ''/'' @ c) = Clean (treePath root (pathComps c))"
    using nn treePath_comps [OF root n(3)] by (simp add: Clean_eq_iff treePath_def)
  then show ?thesis
    using nn properRoot_treePath [OF root n(3)] by (simp add: pathJoin2 properRoot_def)
qed

lemma normal_target_inTree:
  assumes "NormalizeEventPath p = Inr c" "properRoot root"
  shows "inTree root (pathJoin [root, c])"
  using normal_target [OF assms] NormalizeEventPath_Inr(3) [OF assms(1)] by auto

lemma NormalizeEventPath_slash: "\<exists>e. NormalizeEventPath ''/'' = Inl e"
proof -
  have "ReplaceAll ''/'' [CHR 0x5C] ''/'' = ''/''" by (simp add: ReplaceAll_notin)
  moreover have "TrimSpace ''/'' = ''/''" by (rule TrimSpace_id) (simp_all add: spaceByte_def)
  moreover have "Clean '''' = ''.''" by (simp add: Clean_dot pathRooted_def pathComps_def cleanStep_def)
  ultimately show ?thesis by (simp add: NormalizeEventPath_def TrimPrefix_def HasPrefix_def)
qed

lemma set_lastPerPath: "set (lastPerPath es) \<subseteq> set es"
  by (induction es) auto

lemma coalesced_normal:
  assumes "e \<in> set (CoalesceEvents events filt)"
  obtains p where "NormalizeEventPath p = Inr (evPath e)" "ShouldReplicate filt (evPath e)"
    "pathComps (evPath e) \<noteq> []"
proof -
  have "e \<in> set (List.map_filter (effectiveEvent filt) events)"
    using assms set_lastPerPath by (auto simp: CoalesceEvents_eq)
  then obtain ev where "effectiveEvent filt ev = Some e"
    by (auto simp: map_filter_def)
  then have n: "NormalizeEventPath (evPath ev) = Inr (evPath e)" and r: "ShouldReplicate filt (evPath e)"
    by (auto simp: effectiveEvent_def split: sum.splits if_splits)
  have "evPath e \<noteq> ''/''"
    using r NormalizeEventPath_slash by (auto simp: ShouldReplicate_def)
  then have "pathComps (evPath e) \<noteq> []"
    using NormalizeEventPath_Inr(1,2) [OF n] Clean_dot [of "evPath e"] Clean_slash [of "evPath e"] by auto
  with n r show thesis by (rule that)
qed

lemma proper_below_pool:
  assumes "\<not> invalidPoolPath (Clean p)" "list_all plainComp ws" "ws \<noteq> []"
  shows "properRoot (Clean p @ ''/'' @ Join ''/'' ws)"
proof -
  have "properRoot (Clean p)" using validPool_comps [OF assms(1)] by (simp add: properRoot_def)
  from properRoot_treePath [OF this assms(2)] show ?thesis using assms(3) by (simp add: treePath_def)
qed

lemma volume_root: "ResolveVolumePath v = Inr root \<Longrightarrow> properRoot root"
  using proper_below_pool [OF _ plain_comps(1) comps_neq_Nil(1)] by (auto simp: ResolveVolumePath_Inr)

lemma shadow_root: "ResolveShadowPath pool ns v = Inr root \<Longrightarrow> properRoot root"
  using proper_below_pool [OF _ plain_comps(2) comps_neq_Nil(2)] by (auto simp: ResolveShadowPath_Inr)

lemma dotdot_not_plain:
  assumes "list_all plainComp ws" "ws \<noteq> []"
  shows "\<not> HasPrefix (Join ''/'' ws) ''../'' \<and> Join ''/'' ws \<noteq> ''..''"
proof -
  obtain w vs where ws: "ws = w # vs" "plainComp w" using assms by (cases ws) auto
  have split: "Split slash (Join ''/'' ws) = ws"
    using assms by (intro Split_Join) (auto simp: plainComp_def list_all_iff)
  have "ws \<noteq> ''..'' # us" for us using ws by (simp add: plainComp_def)
  moreover have "HasPrefix (Join ''/'' ws) ''../'' \<Longrightarrow> \<exists>r. ws = ''..'' # Split slash r"
    using split Split_append_sep [of slash "''..''"] by (auto simp: HasPrefix_iff)
  moreover have "Join ''/'' ws = ''..'' \<Longrightarrow> ws = [''..'']" using split by simp
  ultimately show ?thesis by blast
qed

lemma ensurePathInside_inTree:
  assumes "properRoot root" "inTree root p"
  shows "ensurePathInside root p = Inr ()"
proof -
  obtain ws where ws: "list_all plainComp ws" "p = treePath root ws" using assms(2) by (auto simp: inTree_def)
  then show ?thesis
    using Rel_treePath [OF assms(1) ws(1)] dotdot_not_plain [OF ws(1)]
    by (auto simp: ensurePathInside_def HasPrefix_def)
qed

lemma coalesced_target:
  assumes "properRoot root" "e \<in> set (CoalesceEvents events filt)"
  shows "belowTree root (pathJoin [root, evPath e])"
proof -
  obtain p where p: "NormalizeEventPath p = Inr (evPath e)" "pathComps (evPath e) \<noteq> []"
    using assms(2) by (rule coalesced_normal)
  show ?thesis
    unfolding normal_target [OF p(1) assms(1)] using NormalizeEventPath_Inr(3) [OF p(1)] p(2) by (rule belowTreeI)
qed

text \<open>
  Event paths cannot leave or erase a volume: whatever paths a batch carries, each event
  that coalescing lets through names a target strictly below the volume directory, reached
  by plain components only and never the directory itself, and the containment check accepts
  it.
\<close>

theorem CoalesceEvents_targets_inside:
  assumes "ResolveVolumePath v = Inr root" and "e \<in> set (CoalesceEvents events filt)"
  shows "belowTree root (pathJoin [root, evPath e]) \<and> ensurePathInside root (pathJoin [root, evPath e]) = Inr ()"
  using coalesced_target [OF volume_root [OF assms(1)] assms(2)] ensurePathInside_inTree volume_root [OF assms(1)]
  by (auto simp: belowTree_inTree)

definition demoEvents :: "FileEvent list" where
  "demoEvents = [\<lparr>evPath = ''a'', evOp = ''''\<rparr>, \<lparr>evPath = ''a'', evOp = ''delete''\<rparr>]"

lemma NormalizeEventPath_plain:
  assumes "list_all plainComp ws" "ws \<noteq> []" "CHR 0x5C \<notin> set (Join ''/'' ws)"
    and "\<not> spaceByte (hd (Join ''/'' ws))" "\<not> spaceByte (last (Join ''/'' ws))"
  shows "NormalizeEventPath (Join ''/'' ws) = Inr (Join ''/'' ws)"
proof -
  let ?s = "Join ''/'' ws"
  have r: "?s = renderPath False ws" using assms(2) by (simp add: renderPath_def)
  have ok: "okComps False ws" using assms(1) by (rule okComps_plain)
  have clean: "Clean ?s = ?s" and nroot: "\<not> pathRooted ?s" and comps: "pathComps ?s = ws"
    unfolding r using Clean_renderPath [OF ok] pathRooted_renderPath [OF ok] pathComps_renderPath [OF ok] by auto
  have "TrimSpace (ReplaceAll ?s [CHR 0x5C] ''/'') = ?s"
    using assms(3-5) by (simp add: ReplaceAll_notin TrimSpace_id)
  moreover have "TrimPrefix ?s ''/'' = ?s"
    using nroot by (cases ?s) (auto simp: TrimPrefix_def HasPrefix_def pathRooted_def)
  moreover have "?s \<noteq> ''.''" using clean comps assms(2) Clean_dot [of ?s] by auto
  moreover have "\<not> HasPrefix ?s ''../'' \<and> ?s \<noteq> ''..''"
    using dotdot_not_plain assms(1,2) by blast
  moreover have "?s \<noteq> ''''" using clean Clean_neq_Nil [of ?s] by metis
  ultimately show ?thesis by (simp add: NormalizeEventPath_def clean)
qed

lemma demoEvents_coalesced:
  "CoalesceEvents demoEvents \<lparr>IncludePaths = [], ExcludePaths = [], PruneExcluded = False\<rparr> =
     [\<lparr>evPath = ''a'', evOp = ''delete''\<rparr>]"
proof -
  have "NormalizeEventPath ''a'' = Inr ''a''"
    using NormalizeEventPath_plain [of "[''a'']"] by (simp add: plainComp_def spaceByte_def)
  then show ?thesis
    by (simp add: CoalesceEvents_eq demoEvents_def map_filter_def effectiveEvent_def ShouldReplicate_def)
qed

theorem CoalesceEvents_targets_inside_witness:
  "belowTree demoRoot (pathJoin [demoRoot, ''a''])"
  using CoalesceEvents_targets_inside [OF demoVolume_root, of "\<lparr>evPath = ''a'', evOp = ''delete''\<rparr>"
      demoEvents "\<lparr>IncludePaths = [], ExcludePaths = [], PruneExcluded = False\<rparr>"]
  by (simp add: demoEvents_coalesced)

section \<open>Directories on the way to a replicated file are traversed\<close>

text \<open>
  The patterns the filters treat as trees: a literal path, or a literal path followed by
  \<^verbatim>\<open>/**\<close>. Their root is the literal part.
\<close>

definition literal :: "string \<Rightarrow> bool" where
  "literal s \<longleftrightarrow> (\<forall>c \<in> set s. c \<notin> set globChars)"

definition treePattern :: "string \<Rightarrow> bool" where
  "treePattern pattern \<longleftrightarrow>
     (let s = normalizeSlashes pattern in literal s \<or> HasSuffix s ''/**'' \<and> literal (TrimSuffix s ''/**''))"

definition treeRoot :: "string \<Rightarrow> string" where
  "treeRoot pattern = TrimSuffix (normalizeSlashes pattern) ''/**''"

lemma normalizeSlashes_ends:
  assumes "normalizeSlashes s \<noteq> []"
  shows "hd (normalizeSlashes s) \<noteq> slash" "last (normalizeSlashes s) \<noteq> slash"
  using assms Trim_hd Trim_last unfolding normalizeSlashes_def by force+

lemma literal_no_glob_suffix: "literal s \<Longrightarrow> \<not> HasSuffix s ''/**''"
proof
  assume "literal s" "HasSuffix s ''/**''"
  then obtain r where "s = r @ ''/**''" by (auto simp: HasSuffix_def suffix_def)
  then have "CHR ''*'' \<in> set s" by simp
  with \<open>literal s\<close> show False by (auto simp: literal_def globChars_def)
qed

lemma treeRoot_ends:
  assumes "treePattern s" "normalizeSlashes s \<noteq> []"
  shows "treeRoot s \<noteq> []" "hd (treeRoot s) \<noteq> slash" "literal (treeRoot s)"
proof -
  have "(\<exists>r. normalizeSlashes s = r @ ''/**'' \<and> treeRoot s = r) \<or> normalizeSlashes s = treeRoot s"
    by (auto simp: treeRoot_def TrimSuffix_def HasSuffix_def suffix_def)
  then show "treeRoot s \<noteq> []" "hd (treeRoot s) \<noteq> slash"
    using normalizeSlashes_ends(1) [OF assms(2)] assms(2) by (auto simp: hd_append split: if_splits)
  show "literal (treeRoot s)"
    using assms(1) literal_no_glob_suffix
    by (auto simp: treePattern_def treeRoot_def Let_def TrimSuffix_def)
qed

lemma matchesPath_tree:
  assumes "treePattern pattern"
  shows "matchesPath pattern p \<longleftrightarrow> normalizeSlashes pattern \<noteq> [] \<and> within (treeRoot pattern) p"
proof (cases "normalizeSlashes pattern = [] \<or> HasSuffix (normalizeSlashes pattern) ''/**''")
  case True
  then show ?thesis by (auto simp: matchesPath_def treeRoot_def within_def Let_def)
next
  case False
  then have lit: "literal (normalizeSlashes pattern)" using assms by (auto simp: treePattern_def Let_def)
  have "\<not> HasSuffix (normalizeSlashes pattern) ''/''"
    using normalizeSlashes_ends(2) [of pattern] False by (auto simp: HasSuffix_def suffix_def)
  moreover have "treeRoot pattern = normalizeSlashes pattern"
    using False by (simp add: treeRoot_def TrimSuffix_def)
  ultimately show ?thesis
    using False Match_literal [OF lit [unfolded literal_def], of p]
    by (auto simp: matchesPath_def within_def Let_def)
qed

lemma IndexChar_notin [simp]: "c \<notin> set s \<Longrightarrow> IndexChar s c = None"
  by (induction s) auto

lemma IndexChar_append: "c \<notin> set s \<Longrightarrow> IndexChar (s @ t) c = map_option ((+) (length s)) (IndexChar t c)"
proof (induction s)
  case (Cons d s)
  then have "IndexChar ((d # s) @ t) c = map_option Suc (map_option ((+) (length s)) (IndexChar t c))"
    by auto
  also have "\<dots> = map_option ((+) (length (d # s))) (IndexChar t c)"
    by (cases "IndexChar t c") simp_all
  finally show ?case .
next
  case Nil
  then show ?case by (simp add: option.map_ident)
qed

lemma IndexChar_before: "IndexChar (s @ c # t) c = Some j \<Longrightarrow> j \<le> length s"
  by (induction s arbitrary: j) (auto split: if_splits)

lemma LastIndexChar_append:
  assumes "LastIndexChar (u @ c # v) c = Some i"
  shows "length u \<le> i"
  using assms IndexChar_before [of "rev v" c "rev u"] by (auto simp: LastIndexChar_def)

lemma filterStaticPrefix_tree:
  assumes "treePattern pattern" "normalizeSlashes pattern \<noteq> []"
  shows "filterStaticPrefix pattern =
    (if HasSuffix (normalizeSlashes pattern) ''/**'' then
       Trim (case LastIndexChar (treeRoot pattern) slash of
         None \<Rightarrow> treeRoot pattern | Some i \<Rightarrow> take i (treeRoot pattern)) ''/''
     else treeRoot pattern)"
proof (cases "HasSuffix (normalizeSlashes pattern) ''/**''")
  case True
  then obtain r where r: "normalizeSlashes pattern = r @ ''/**''" "treeRoot pattern = r"
    by (auto simp: treeRoot_def TrimSuffix_def HasSuffix_def suffix_def)
  have lit: "literal r" using treeRoot_ends(3) [OF assms(1,2)] r by simp
  then have notin: "CHR ''*'' \<notin> set r" "CHR ''?'' \<notin> set r" "CHR ''['' \<notin> set r"
    by (auto simp: literal_def globChars_def)
  then have cut: "patternCut (r @ ''/**'') = length r + 1"
    by (simp add: patternCut_def IndexChar_append)
  have "take (length r + 1) (r @ ''/**'') = r @ ''/''" by simp
  then have pre: "TrimSuffix (take (patternCut (r @ ''/**'')) (r @ ''/**'')) ''/'' = r"
    unfolding cut by (simp only: TrimSuffix_append)
  have "patternCut (r @ ''/**'') < length (r @ ''/**'')" unfolding cut by simp
  then show ?thesis
    using True unfolding filterStaticPrefix_def Let_def r pre by (simp split: option.splits)
next
  case False
  then have lit: "literal (normalizeSlashes pattern)" and r: "treeRoot pattern = normalizeSlashes pattern"
    using assms(1) by (auto simp: treePattern_def Let_def treeRoot_def TrimSuffix_def)
  let ?s = "normalizeSlashes pattern"
  have idx: "patternCut ?s = length ?s"
  proof -
    have "CHR ''*'' \<notin> set ?s" "CHR ''?'' \<notin> set ?s" "CHR ''['' \<notin> set ?s"
      using lit by (auto simp: literal_def globChars_def)
    then have "IndexChar ?s (CHR ''*'') = None" "IndexChar ?s (CHR ''?'') = None"
      "IndexChar ?s (CHR ''['') = None" by simp_all
    then show ?thesis by (simp add: patternCut_def)
  qed
  have "TrimSuffix ?s ''/'' = ?s"
    using normalizeSlashes_ends(2) [OF assms(2)] by (auto simp: TrimSuffix_def HasSuffix_def suffix_def)
  moreover have "Trim ?s ''/'' = ?s" by (simp add: normalizeSlashes_def)
  ultimately show ?thesis
    using False assms(2) r by (simp add: filterStaticPrefix_def Let_def idx split: option.splits)
qed

text \<open>Strictly below a directory, in the sense of the traversal.\<close>

lemma within_ancestor:
  assumes "within r p" "HasPrefix p (d @ ''/'')"
  shows "within r d \<or> HasPrefix r (d @ ''/'')"
proof -
  obtain q where q: "p = d @ slash # q" using assms(2) by (auto simp: HasPrefix_iff)
  consider "p = r" | s where "p = r @ slash # s"
    using assms(1) by (auto simp: within_def HasPrefix_iff)
  then show ?thesis
  proof cases
    case 1
    with q show ?thesis by (simp add: HasPrefix_iff)
  next
    case 2
    with q have "r @ slash # s = d @ slash # q" by simp
    then obtain us where "r = d @ us \<and> us @ slash # s = slash # q \<or> r @ us = d \<and> slash # s = us @ slash # q"
      by (auto simp: append_eq_append_conv2)
    then show ?thesis
      by (cases us) (auto simp: within_def HasPrefix_iff)
  qed
qed

lemma within_below: "within r d \<Longrightarrow> HasPrefix p (d @ ''/'') \<Longrightarrow> within r p"
  by (auto simp: within_def HasPrefix_iff)

lemma isPathAncestor_below:
  assumes "d \<noteq> []" "hd d \<noteq> slash" "last d \<noteq> slash" "r = d \<or> HasPrefix r (d @ ''/'')" "Trim r ''/'' = r"
  shows "isPathAncestor d r"
  using assms by (auto simp: isPathAncestor_def Let_def Trim_id)

lemma take_LastIndexChar:
  assumes "HasPrefix r (d @ ''/'')" "LastIndexChar r slash = Some i"
  shows "take i r = d \<or> HasPrefix (take i r) (d @ ''/'')"
proof -
  obtain q where q: "r = d @ slash # q" using assms(1) by (auto simp: HasPrefix_iff)
  then have "length d \<le> i" using LastIndexChar_append assms(2) by blast
  then have "take i r = d @ take (i - length d) (slash # q)" using q by simp
  then show ?thesis by (cases "i - length d") (auto simp: HasPrefix_iff)
qed

lemma Trim_keeps_prefix:
  assumes "d \<noteq> []" "hd d \<noteq> slash" "last d \<noteq> slash" "x = d \<or> HasPrefix x (d @ ''/'')"
  shows "Trim x ''/'' = d \<or> HasPrefix (Trim x ''/'') (d @ ''/'')"
proof -
  obtain q where x: "x = d @ q" "q = [] \<or> hd q = slash"
    using assms(4) by (auto simp: HasPrefix_iff)
  have "TrimLeft x ''/'' = x" using assms(1,2) x by (cases d) (auto simp: TrimLeft_def)
  moreover have "TrimRight (d @ q) ''/'' = d @ TrimRight q ''/''"
  proof (cases "TrimRight q ''/'' = []")
    case True
    then have "set q \<subseteq> {slash}" by (auto simp: TrimRight_def dropWhile_eq_Nil_conv)
    then have "dropWhile (\<lambda>c. c \<in> set ''/'') (rev q @ rev d) = dropWhile (\<lambda>c. c \<in> set ''/'') (rev d)"
      by (intro dropWhile_append2) auto
    moreover have "dropWhile (\<lambda>c. c \<in> set ''/'') (rev d) = rev d"
      using assms(1,3) by (cases d rule: rev_cases) auto
    ultimately show ?thesis using True by (simp add: TrimRight_def)
  next
    case False
    then have "\<not> (\<forall>c \<in> set (rev q). c \<in> set ''/'')" by (auto simp: TrimRight_def dropWhile_eq_Nil_conv)
    then show ?thesis by (auto simp: TrimRight_def dropWhile_append1)
  qed
  moreover have "TrimRight q ''/'' = [] \<or> hd (TrimRight q ''/'') = slash"
    using x(2) prefix_TrimRight [of q "''/''"] unfolding prefix_def by (metis append_is_Nil_conv hd_append2)
  ultimately show ?thesis
    using x by (cases "TrimRight q ''/''") (auto simp: Trim_def HasPrefix_iff)
qed

lemma traverse_include:
  assumes "treePattern inc" "matchesPath inc p" "HasPrefix p (d @ ''/'')"
    and d: "d \<noteq> []" "hd d \<noteq> slash" "last d \<noteq> slash"
  shows "matchesPath inc d \<or> filterStaticPrefix inc \<noteq> [] \<and> isPathAncestor d (filterStaticPrefix inc)"
proof -
  let ?r = "treeRoot inc"
  have ne: "normalizeSlashes inc \<noteq> []" and w: "within ?r p"
    using assms(2) matchesPath_tree [OF assms(1)] by auto
  show ?thesis
  proof (cases "within ?r d")
    case True
    then show ?thesis using matchesPath_tree [OF assms(1)] ne by simp
  next
    case False
    then have below: "HasPrefix ?r (d @ ''/'')" using within_ancestor [OF w assms(3)] by blast
    define x where "x = (case LastIndexChar ?r slash of None \<Rightarrow> ?r | Some i \<Rightarrow> take i ?r)"
    have "x = d \<or> HasPrefix x (d @ ''/'')"
      using below take_LastIndexChar [OF below] by (auto simp: x_def split: option.splits)
    then have "Trim x ''/'' = d \<or> HasPrefix (Trim x ''/'') (d @ ''/'')"
      using d by (intro Trim_keeps_prefix)
    moreover have "HasPrefix ?r (d @ ''/'') \<and> Trim ?r ''/'' = ?r" if "\<not> HasSuffix (normalizeSlashes inc) ''/**''"
      using below that by (simp add: treeRoot_def TrimSuffix_def normalizeSlashes_def)
    ultimately have "(filterStaticPrefix inc = d \<or> HasPrefix (filterStaticPrefix inc) (d @ ''/'')) \<and>
        Trim (filterStaticPrefix inc) ''/'' = filterStaticPrefix inc"
      using filterStaticPrefix_tree [OF assms(1) ne] by (auto simp: x_def)
    then show ?thesis
      using isPathAncestor_below [OF d] d(1) by (auto simp: HasPrefix_iff)
  qed
qed

lemma normal_ends:
  assumes "NormalizeEventPath p = Inr c" "\<not> pathRooted c"
  shows "c \<noteq> [] \<and> hd c \<noteq> slash \<and> last c \<noteq> slash"
proof -
  note n = NormalizeEventPath_Inr [OF assms(1)]
  have ne: "pathComps c \<noteq> []" using n(1,2) assms(2) Clean_dot [of c] by auto
  then have "c = Join ''/'' (pathComps c)"
    using n(1) assms(2) by (simp add: Clean_def renderPath_def)
  then have "Trim c ''/'' = c" using plain_trim [OF n(3) ne] by metis
  moreover have "c \<noteq> []" using n(1) Clean_neq_Nil by metis
  ultimately show ?thesis
    using Trim_last [of c "''/''"] assms(2) by (auto simp: pathRooted_def)
qed

text \<open>
  C33. Watching a filtered tree misses nothing: when the patterns are literal paths or trees
  (a path followed by \<^verbatim>\<open>/**\<close>), every directory on the way to a file that should be
  replicated is one that should be traversed.
\<close>

theorem ShouldReplicate_traverses_ancestors:
  assumes "list_all treePattern (IncludePaths filt @ ExcludePaths filt)"
    and "NormalizeEventPath p = Inr c" and "NormalizeEventPath d = Inr dc"
    and "HasPrefix c (dc @ ''/'')" and "ShouldReplicate filt p"
  shows "ShouldTraverse filt d"
proof -
  have tree: "treePattern pat" if "pat \<in> set (IncludePaths filt) \<union> set (ExcludePaths filt)" for pat
    using assms(1) that by (auto simp: list_all_iff)
  have "\<not> matchesPath ex dc" if "ex \<in> set (ExcludePaths filt)" for ex
    using that assms(2,4,5) matchesPath_tree [OF tree [of ex]] within_below [of "treeRoot ex" dc c]
    by (auto simp: ShouldReplicate_def list_ex_iff split: if_splits)
  moreover have "\<exists>inc \<in> set (IncludePaths filt). matchesPath inc dc \<or>
      filterStaticPrefix inc \<noteq> [] \<and> isPathAncestor dc (filterStaticPrefix inc)"
    if "IncludePaths filt \<noteq> []"
  proof -
    have "\<exists>inc \<in> set (IncludePaths filt). matchesPath inc c"
      using assms(2,5) that by (simp add: ShouldReplicate_def list_ex_iff split: if_splits)
    then obtain inc where inc: "inc \<in> set (IncludePaths filt)" "matchesPath inc c" by blast
    have "treeRoot inc \<noteq> []" "hd (treeRoot inc) \<noteq> slash" "within (treeRoot inc) c"
      using inc treeRoot_ends matchesPath_tree tree by auto
    then have "hd c \<noteq> slash" by (auto simp: within_def HasPrefix_iff hd_append split: if_splits)
    then have "\<not> pathRooted dc" using assms(4) by (auto simp: pathRooted_def HasPrefix_iff hd_append)
    then have "dc \<noteq> [] \<and> hd dc \<noteq> slash \<and> last dc \<noteq> slash" by (rule normal_ends [OF assms(3)])
    then show ?thesis using traverse_include [OF tree inc(2) assms(4)] inc(1) by blast
  qed
  ultimately show ?thesis
    using assms(3) by (auto simp: ShouldTraverse_def list_ex_iff Let_def)
qed

definition savesFilter :: PathFilter where
  "savesFilter = \<lparr>IncludePaths = [''s/w/**''], ExcludePaths = [''t''], PruneExcluded = False\<rparr>"

lemma normalize_examples:
  "NormalizeEventPath ''s'' = Inr ''s''" "NormalizeEventPath ''s/w'' = Inr ''s/w''"
  "NormalizeEventPath ''s/w/x'' = Inr ''s/w/x''"
  using NormalizeEventPath_plain [of "[''s'']"] NormalizeEventPath_plain [of "[''s'', ''w'']"]
    NormalizeEventPath_plain [of "[''s'', ''w'', ''x'']"]
  by (simp_all add: plainComp_def spaceByte_def)

theorem ShouldReplicate_traverses_ancestors_witness:
  "ShouldReplicate savesFilter ''s/w/x'' \<and> ShouldTraverse savesFilter ''s''"
proof -
  have "list_all treePattern (IncludePaths savesFilter @ ExcludePaths savesFilter)"
    by code_simp
  moreover have "matchesPath ''s/w/**'' ''s/w/x''" "\<not> matchesPath ''t'' ''s/w/x''" by code_simp+
  then have "ShouldReplicate savesFilter ''s/w/x''"
    by (simp add: ShouldReplicate_def normalize_examples savesFilter_def)
  moreover have "HasPrefix ''s/w/x'' (''s'' @ ''/'')" by (simp add: HasPrefix_def)
  ultimately show ?thesis
    using ShouldReplicate_traverses_ancestors normalize_examples(1,3) by blast
qed

text \<open>
  Beyond tree patterns the guarantee fails: with a glob in a directory component the file is
  replicated and its directory is not traversed, so the watcher never sees it.
\<close>

lemma glob_directory_not_traversed:
  "ShouldReplicate \<lparr>IncludePaths = [''s/*/x''], ExcludePaths = [], PruneExcluded = False\<rparr> ''s/w/x'' \<and>
   \<not> ShouldTraverse \<lparr>IncludePaths = [''s/*/x''], ExcludePaths = [], PruneExcluded = False\<rparr> ''s/w''"
proof -
  have "matchesPath ''s/*/x'' ''s/w/x''" "\<not> matchesPath ''s/*/x'' ''s/w''" by code_simp+
  moreover have "\<not> isPathAncestor ''s/w'' (filterStaticPrefix ''s/*/x'')" by code_simp
  ultimately show ?thesis
    by (simp add: ShouldReplicate_def ShouldTraverse_def normalize_examples)
qed

text \<open>A pattern with a trailing separator loses it, and with it the tree it stood for.\<close>

lemma trailing_slash_pattern_is_a_file_pattern:
  "normalizeFilterPattern ''saves/'' = ''/saves'' \<and> normalizeFilterPattern ''saves/**'' = ''/saves/**''"
  by code_simp

text \<open>Only one leading separator is removed, so normalisation is not idempotent.\<close>

lemma NormalizeEventPath_double_slash: "NormalizeEventPath ''//a'' = Inr ''/a''"
proof -
  have "TrimSpace ''//a'' = ''//a''" by (rule TrimSpace_id) (simp add: spaceByte_def)
  moreover have "Clean ''/a'' = ''/a''" by code_simp
  ultimately show ?thesis
    by (simp add: NormalizeEventPath_def ReplaceAll_notin TrimPrefix_def HasPrefix_def)
qed

section \<open>One lock per volume directory\<close>

text \<open>
  The lock of a request stands for the directory it works on: two requests to the agent
  of one pool take the same lock exactly if their volumes resolve to the same directory.
\<close>

theorem lockKey_same_directory:
  assumes "\<not> invalidPoolPath (Clean (poolPath pool))"
  shows "lockKey ns v = lockKey ns' v' \<longleftrightarrow>
    ResolveVolumePath \<lparr>vpPool = pool, vpNamespace = ns, vpName = v, vpGeneration = g\<rparr> =
    ResolveVolumePath \<lparr>vpPool = pool, vpNamespace = ns', vpName = v', vpGeneration = g'\<rparr>"
  using assms by (simp add: ResolveVolumePath_eq lockKey_def Let_def)

theorem lockKey_same_directory_witness:
  "lockKey ''a'' ''b'' = lockKey '' a'' ''b'' \<longleftrightarrow>
    ResolveVolumePath \<lparr>vpPool = demoPool, vpNamespace = ''a'', vpName = ''b'', vpGeneration = ''''\<rparr> =
    ResolveVolumePath \<lparr>vpPool = demoPool, vpNamespace = '' a'', vpName = ''b'', vpGeneration = ''1''\<rparr>"
proof -
  have "\<not> invalidPoolPath (Clean (poolPath demoPool))"
    using demoPool_valid by (simp add: demoVolume_def demoPool_def)
  then show ?thesis by (rule lockKey_same_directory)
qed

end
