(* ===== verification/Rclone.thy ===== *)
theory Rclone
  imports PathFilter
begin

text \<open>
  The command layer of \<^verbatim>\<open>internal/agent/replication.go\<close>: the \<^verbatim>\<open>rclone\<close> command lines, the
  bounded capture of their output, and the two ways the agent runs them. Running a command
  is a parameter, since \<^verbatim>\<open>rclone\<close> is not part of the program; what the agent prints to its
  own standard streams is left out.
\<close>

section \<open>Requests\<close>

record SourceRef =
  srcWebDAVURL :: string
  srcUser :: string
  srcPassword :: string

record CommandSpec =
  cmdName :: string
  cmdArgs :: "string list"

section \<open>Command lines\<close>

definition appendRcloneLowMemoryArgs :: "string list \<Rightarrow> string list" where
  "appendRcloneLowMemoryArgs args = args @ [''--transfers'', ''1'', ''--checkers'', ''1'',
     ''--buffer-size'', ''0'', ''--multi-thread-streams'', ''0'']"

text \<open>The two conditional appends of the WebDAV credentials that the builders share.\<close>

definition credentialArgs :: "SourceRef \<Rightarrow> string list" where
  "credentialArgs source =
     (if srcUser source \<noteq> '''' then [''--webdav-user'', srcUser source] else []) @
     (if srcPassword source \<noteq> '''' then [''--webdav-pass'', srcPassword source] else [])"

definition webdavArgs :: "SourceRef \<Rightarrow> string list" where
  "webdavArgs source = [''--config'', ''/dev/null'', ''--webdav-url'', TrimRight (srcWebDAVURL source) ''/'',
     ''--webdav-vendor'', ''other'']"

text \<open>The filter rules: excludes, includes, and the final catch-all if there are includes.\<close>

definition filterArgs :: "PathFilter \<Rightarrow> string list" where
  "filterArgs filt =
     concat (map (\<lambda>ex. [''--filter'', ''- '' @ normalizeFilterPattern ex]) (ExcludePaths filt)) @
     concat (map (\<lambda>inc. [''--filter'', ''+ '' @ normalizeFilterPattern inc]) (IncludePaths filt)) @
     (if IncludePaths filt \<noteq> [] then [''--filter'', ''- **''] else [])"

definition rclone :: "string list \<Rightarrow> CommandSpec" where
  "rclone args = \<lparr>cmdName = ''rclone'', cmdArgs = args\<rparr>"

definition BuildRcloneServeWebDAVCommand :: "string \<Rightarrow> string \<Rightarrow> bool \<Rightarrow> CommandSpec" where
  "BuildRcloneServeWebDAVCommand rootPath addr readOnly =
     rclone ([''serve'', ''webdav'', rootPath, ''--config'', ''/dev/null'', ''--addr'', addr,
       ''--dir-cache-time'', ''1s'', ''--metadata'', ''--links''] @ (if readOnly then [''--read-only''] else []))"

definition BuildRcloneCopyToCommand :: "SourceRef \<Rightarrow> string \<Rightarrow> string \<Rightarrow> go_error + CommandSpec" where
  "BuildRcloneCopyToCommand source sourcePath targetPath = (case NormalizeEventPath sourcePath of
     Inl e \<Rightarrow> Inl e
   | Inr clean \<Rightarrow> Inr (rclone (appendRcloneLowMemoryArgs ([''copyto''] @ webdavArgs source @
       [''--metadata'', ''--links'', ''--ignore-times'']) @ credentialArgs source @
       ['':webdav:'' @ clean, targetPath])))"

definition BuildRcloneFullSyncCommand :: "SourceRef \<Rightarrow> string \<Rightarrow> string \<Rightarrow> PathFilter \<Rightarrow> CommandSpec" where
  "BuildRcloneFullSyncCommand source sourceVolume targetRoot filt =
     rclone (appendRcloneLowMemoryArgs ([''sync''] @ webdavArgs source @ [''--metadata'', ''--links''] @
         (if PruneExcluded filt then [''--delete-excluded''] else [])) @
       credentialArgs source @ filterArgs filt @ ['':webdav:'' @ Trim sourceVolume ''/'', targetRoot])"

definition BuildRcloneLocalSyncCommand :: "string \<Rightarrow> string \<Rightarrow> PathFilter \<Rightarrow> CommandSpec" where
  "BuildRcloneLocalSyncCommand sourceRoot targetRoot filt =
     rclone (appendRcloneLowMemoryArgs ([''sync'', sourceRoot, targetRoot, ''--metadata'', ''--links''] @
         (if PruneExcluded filt then [''--delete-excluded''] else [])) @ filterArgs filt)"

definition BuildRcloneLocalCopyToCommand :: "string \<Rightarrow> string \<Rightarrow> CommandSpec" where
  "BuildRcloneLocalCopyToCommand sourcePath targetPath =
     rclone (appendRcloneLowMemoryArgs [''copyto'', sourcePath, targetPath, ''--metadata'', ''--links'', ''--ignore-times''])"

definition BuildRcloneCheckCommand :: "SourceRef \<Rightarrow> string \<Rightarrow> string \<Rightarrow> CommandSpec" where
  "BuildRcloneCheckCommand source sourcePath targetPath =
     rclone ([''check'', ''--one-way'', ''--size-only''] @ webdavArgs source @ [''--checkers'', ''1''] @
       credentialArgs source @ ['':webdav:'' @ Trim sourcePath ''/'', targetPath])"

definition BuildRclonePathSyncCommand :: "SourceRef \<Rightarrow> string \<Rightarrow> string \<Rightarrow> CommandSpec" where
  "BuildRclonePathSyncCommand source sourcePath targetPath =
     rclone (appendRcloneLowMemoryArgs ([''sync''] @ webdavArgs source @
         [''--metadata'', ''--links'', ''--ignore-times'']) @ credentialArgs source @
       ['':webdav:'' @ Trim sourcePath ''/'', targetPath])"

section \<open>Captured output\<close>

text \<open>\<^verbatim>\<open>limitedOutput\<close>: a buffer with a limit that counts what it drops.\<close>

record limitedOutput =
  loBuf :: string
  loLimit :: int
  loTruncated :: int

definition loWrite :: "string \<Rightarrow> limitedOutput \<Rightarrow> limitedOutput" where
  "loWrite p ob =
     (if loLimit ob \<le> 0 then ob\<lparr>loTruncated := loTruncated ob + int (length p)\<rparr>
      else
        let remaining = loLimit ob - int (length (loBuf ob)) in
        if remaining > 0 then
          (if int (length p) \<le> remaining then ob\<lparr>loBuf := loBuf ob @ p\<rparr>
           else ob\<lparr>loBuf := loBuf ob @ take (nat remaining) p,
                   loTruncated := loTruncated ob + (int (length p) - remaining)\<rparr>)
        else ob\<lparr>loTruncated := loTruncated ob + int (length p)\<rparr>)"

definition loBytes :: "limitedOutput \<Rightarrow> string" where
  "loBytes ob = (if loTruncated ob = 0 then loBuf ob
     else loBuf ob @ [CHR 0x0A] @ ''... truncated '' @ FormatInt (loTruncated ob) @
       '' bytes of command output ...'' @ [CHR 0x0A])"

definition newOutput :: "int \<Rightarrow> limitedOutput" where
  "newOutput limit = \<lparr>loBuf = '''', loLimit = limit, loTruncated = 0\<rparr>"

text \<open>\<^verbatim>\<open>ExecRunner.RunOutput\<close> on the chunks a command writes and how it ends.\<close>

definition RunOutput :: "string list \<Rightarrow> go_error option \<Rightarrow> string \<times> go_error option" where
  "RunOutput chunks err = (loBytes (fold loWrite chunks (newOutput (64 * 1024))), err)"

text \<open>
  The text of an error: \<^verbatim>\<open>CommandError.Error\<close> puts the captured output first. \<open>text\<close> gives the
  texts of the errors that carry none here.
\<close>

fun errorText :: "(go_error \<Rightarrow> string) \<Rightarrow> go_error \<Rightarrow> string" where
  "errorText text (CommandError e output) =
     (if output = '''' then errorText text e else TrimSpace output @ '': '' @ errorText text e)"
| "errorText text (Wrapf msg e) = msg @ errorText text e"
| "errorText text (Errorf s) = s"
| "errorText text e = text e"

section \<open>Running commands\<close>

text \<open>
  A runner: its \<^verbatim>\<open>Run\<close>, and its \<^verbatim>\<open>RunOutput\<close> if it implements \<^verbatim>\<open>OutputRunner\<close>, which
  returns output and error together.
\<close>

record 'w runner =
  runnerRun :: "CommandSpec \<Rightarrow> ('w, unit) io"
  runnerOutput :: "(CommandSpec \<Rightarrow> 'w \<Rightarrow> (string \<times> go_error option) \<times> 'w) option"

definition runEventCopy :: "'w runner \<Rightarrow> CommandSpec \<Rightarrow> ('w, unit) io" where
  "runEventCopy runner spec = (case runnerOutput runner of
     None \<Rightarrow> runnerRun runner spec
   | Some run \<Rightarrow> (\<lambda>w. case run spec w of
       ((output, None), w') \<Rightarrow> (Inr (), w')
     | ((output, Some e), w') \<Rightarrow> (Inl (CommandError e output), w')))"

definition runFullSyncCommand :: "'w runner \<Rightarrow> CommandSpec \<Rightarrow> ('w, unit) io" where
  "runFullSyncCommand runner spec = (case runnerOutput runner of
     None \<Rightarrow> runnerRun runner spec
   | Some run \<Rightarrow> (\<lambda>w. case run spec w of
       ((output, None), w') \<Rightarrow> (Inr (), w')
     | ((output, Some e), w') \<Rightarrow> (Inl (CommandError e output), w')))"

text \<open>
  \<^verbatim>\<open>ExecRunner\<close>: the process writes to the agent's own streams, or into the bounded buffer.
  \<open>process\<close> runs a command to its end and gives what it wrote, in chunks, and its error.
\<close>

definition ExecRunner :: "(CommandSpec \<Rightarrow> 'w \<Rightarrow> (string list \<times> go_error option) \<times> 'w) \<Rightarrow> 'w runner" where
  "ExecRunner process = \<lparr>
     runnerRun = (\<lambda>spec w. case process spec w of
       ((_, None), w') \<Rightarrow> (Inr (), w') | ((_, Some e), w') \<Rightarrow> (Inl e, w')),
     runnerOutput = Some (\<lambda>spec w. case process spec w of
       ((chunks, err), w') \<Rightarrow> (RunOutput chunks err, w'))\<rparr>"

text \<open>A runner whose commands are recorded.\<close>

definition execEvent :: "CommandSpec \<Rightarrow> os_event" where
  "execEvent spec = OsExec (cmdName spec) (cmdArgs spec)"

definition tracedRunner :: "'w runner \<Rightarrow> ('w \<times> os_event list) runner" where
  "tracedRunner runner = \<lparr>
     runnerRun = (\<lambda>spec. io_noisy (execEvent spec) (runnerRun runner spec)),
     runnerOutput = map_option (\<lambda>run spec (w, es). case run spec w of
       (r, w') \<Rightarrow> (r, (w', es @ [execEvent spec]))) (runnerOutput runner)\<rparr>"

lemma runFullSyncCommand_traced:
  "runFullSyncCommand (tracedRunner runner) spec = io_noisy (execEvent spec) (runFullSyncCommand runner spec)"
  by (cases "runnerOutput runner")
    (auto simp: runFullSyncCommand_def tracedRunner_def io_noisy_def fun_eq_iff split: prod.splits option.splits)

lemma runEventCopy_traced:
  "runEventCopy (tracedRunner runner) spec = io_noisy (execEvent spec) (runEventCopy runner spec)"
  using runFullSyncCommand_traced [of runner spec] by (simp add: runEventCopy_def runFullSyncCommand_def)

definition isMissingSourceOutput :: "string \<Rightarrow> bool" where
  "isMissingSourceOutput output =
     (let normalized = ToLower output in
      if \<not> Contains normalized ''not found'' \<and> \<not> Contains normalized ''directory not found'' then False
      else Contains normalized ''error reading source'' \<or> Contains normalized ''failed to open source'' \<or>
        Contains normalized ''webdav root'')"

definition isDirectorySourceCopyOutput :: "string \<Rightarrow> bool" where
  "isDirectorySourceCopyOutput output =
     (let normalized = ToLower output in
      Contains normalized (''source doesn'' @ [CHR 0x27] @ ''t exist or is a directory and destination is a file'') \<or>
      Contains normalized ''source does not exist or is a directory and destination is a file'')"

text \<open>\<^verbatim>\<open>errors.As\<close> unwraps until it meets a \<^verbatim>\<open>CommandError\<close>.\<close>

fun asCommandError :: "go_error \<Rightarrow> string option" where
  "asCommandError (CommandError e output) = Some output"
| "asCommandError (Wrapf s e) = asCommandError e"
| "asCommandError _ = None"

definition isMissingSourceCopyError :: "go_error \<Rightarrow> bool" where
  "isMissingSourceCopyError e = (case asCommandError e of
     None \<Rightarrow> False
   | Some output \<Rightarrow> isMissingSourceOutput output \<or> isDirectorySourceCopyOutput output)"

section \<open>What the commands and the buffer guarantee\<close>

lemma loWrite_step:
  assumes "0 < L" "loLimit ob = int L" "loBuf ob = take L t" "loTruncated ob = int (length t - L)"
  shows "loLimit (loWrite p ob) = int L" "loBuf (loWrite p ob) = take L (t @ p)"
    "loTruncated (loWrite p ob) = int (length (t @ p) - L)"
  using assms by (auto simp: loWrite_def Let_def min_def nat_diff_distrib split: if_splits)

lemma loWrite_fold:
  assumes "0 < L" "loLimit ob = int L" "loBuf ob = take L t" "loTruncated ob = int (length t - L)"
  shows "loBuf (fold loWrite chunks ob) = take L (t @ concat chunks) \<and>
    loTruncated (fold loWrite chunks ob) = int (length (t @ concat chunks) - L)"
  using assms
proof (induction chunks arbitrary: ob t)
  case (Cons p chunks)
  show ?case
    using Cons.IH [OF assms(1) loWrite_step [OF Cons.prems]] by simp
qed simp

text \<open>
  Captured output is bounded: however a command splits its output into writes, exactly
  the first 64 KiB are kept, the number of dropped bytes is exact, and nothing is dropped
  below the limit.
\<close>

theorem RunOutput_bounded:
  "RunOutput chunks err =
     (let out = concat chunks; kept = take (64 * 1024) out in
      (if length out \<le> 64 * 1024 then out
       else kept @ [CHR 0x0A] @ ''... truncated '' @ FormatInt (int (length out - 64 * 1024)) @
         '' bytes of command output ...'' @ [CHR 0x0A], err))"
  using loWrite_fold [of "64 * 1024" "newOutput (64 * 1024)" "''''" chunks]
  by (auto simp: RunOutput_def loBytes_def newOutput_def Let_def)

end
