(* ===== verification/Ownership.thy ===== *)
theory Ownership
  imports PathFilter
begin

text \<open>
  Directory walks and file ownership of \<^verbatim>\<open>internal/agent/replication.go\<close>: the ownership
  policy of a volume and how it is applied to a file, to the directories above it and to a
  whole tree.
\<close>

section \<open>Walking a directory tree\<close>

text \<open>
  \<^verbatim>\<open>filepath.WalkDir\<close>. The visitor gets a path, whether it is a directory, and the error of
  the listing, if any; \<^const>\<open>ErrSkipDir\<close> prunes. The recursion is bounded by the depth of
  the tree: a path on Linux has at most 4096 bytes, so a tree deeper than \<open>walkFuel\<close> cannot be
  addressed and the system answers with \<^verbatim>\<open>ENAMETOOLONG\<close>, as the model does.
\<close>

type_synonym 'w visitor = "string \<Rightarrow> bool \<Rightarrow> go_error option \<Rightarrow> ('w, unit) io"

definition walkFuel :: nat where "walkFuel = 4096"

fun walkEntries :: "(string \<Rightarrow> bool \<Rightarrow> ('w, unit) io) \<Rightarrow> (string \<times> bool) list \<Rightarrow> ('w, unit) io" where
  "walkEntries visit [] = io_return ()"
| "walkEntries visit ((name, d) # es) = io_try (visit name d) (\<lambda>r. case r of
     Inl e \<Rightarrow> if e = ErrSkipDir then io_return () else io_fail e
   | Inr _ \<Rightarrow> walkEntries visit es)"

primrec walkDir :: "nat \<Rightarrow> 'w os_api \<Rightarrow> 'w visitor \<Rightarrow> string \<Rightarrow> bool \<Rightarrow> ('w, unit) io" where
  "walkDir 0 os fn path isDir = io_fail ErrNameTooLong"
| "walkDir (Suc n) os fn path isDir = io_try (fn path isDir None) (\<lambda>r. case r of
     Inl e \<Rightarrow> if e = ErrSkipDir \<and> isDir then io_return () else io_fail e
   | Inr _ \<Rightarrow>
       if \<not> isDir then io_return ()
       else io_try (osReadDir os path) (\<lambda>l. case l of
         Inl e \<Rightarrow> io_try (fn path isDir (Some e)) (\<lambda>r. case r of
           Inl e2 \<Rightarrow> if e2 = ErrSkipDir \<and> isDir then io_return () else io_fail e2
         | Inr _ \<Rightarrow> io_return ())
       | Inr entries \<Rightarrow> walkEntries (\<lambda>name d. walkDir n os fn (pathJoin [path, name]) d) entries))"

definition WalkDir :: "'w os_api \<Rightarrow> string \<Rightarrow> 'w visitor \<Rightarrow> ('w, unit) io" where
  "WalkDir os root fn =
     io_try (io_try (osLstat os root) (\<lambda>r. case r of
         Inl e \<Rightarrow> fn root False (Some e)
       | Inr info \<Rightarrow> walkDir walkFuel os fn root (IsDir info)))
     (\<lambda>r. case r of Inl e \<Rightarrow> if e = ErrSkipDir then io_return () else io_fail e | Inr _ \<Rightarrow> io_return ())"

text \<open>A walk keeps what its visitor and the listings keep.\<close>

lemma walkEntries_inv: "(\<And>n d. io_inv I (visit n d)) \<Longrightarrow> io_inv I (walkEntries visit es)"
  by (induction es) (auto intro!: io_inv_intros split: sum.split)

lemma WalkDir_inv:
  assumes "\<And>p. io_inv I (osLstat os p)" "\<And>p. io_inv I (osReadDir os p)" "\<And>p d e. io_inv I (fn p d e)"
  shows "io_inv I (WalkDir os root fn)"
proof -
  have "io_inv I (walkDir n os fn p d)" for n p d
    by (induction n arbitrary: p d) (auto intro!: io_inv_intros walkEntries_inv assms split: sum.split)
  then show ?thesis unfolding WalkDir_def by (auto intro!: io_inv_intros assms split: sum.split)
qed

section \<open>Ownership policies\<close>

record OwnershipPolicy =
  owUID :: "int option"
  owGID :: "int option"
  owFileMode :: "filemode option"
  owDirMode :: "filemode option"

definition OwnershipEmpty :: "OwnershipPolicy \<Rightarrow> bool" where
  "OwnershipEmpty p \<longleftrightarrow> owUID p = None \<and> owGID p = None \<and> owFileMode p = None \<and> owDirMode p = None"

definition noOwnership :: OwnershipPolicy where
  "noOwnership = \<lparr>owUID = None, owGID = None, owFileMode = None, owDirMode = None\<rparr>"

definition fileModePreservingExecute :: "filemode \<Rightarrow> filemode \<Rightarrow> filemode" where
  "fileModePreservingExecute current desired = or (Perm desired) (and (Perm current) 0x49)"

text \<open>\<^verbatim>\<open>os.FileMode\<close> of a raw mode is the same 32 bits.\<close>

definition applyOwnershipToOne :: "'w os_api \<Rightarrow> string \<Rightarrow> file_info \<Rightarrow> OwnershipPolicy \<Rightarrow> ('w, unit) io" where
  "applyOwnershipToOne os p info policy =
     io_bind
       (if owUID policy \<noteq> None \<or> owGID policy \<noteq> None then
          (let uid = (case owUID policy of None \<Rightarrow> - 1 | Some u \<Rightarrow> u);
               gid = (case owGID policy of None \<Rightarrow> - 1 | Some g \<Rightarrow> g)
           in if IsSymlink info then osLchown os p uid gid else osChown os p uid gid)
        else io_return ()) (\<lambda>_.
     if IsSymlink info then io_return ()
     else case (IsDir info, owDirMode policy, owFileMode policy) of
       (True, Some dirMode, _) \<Rightarrow> osChmod os p dirMode
     | (False, _, Some fileMode) \<Rightarrow> osChmod os p (fileModePreservingExecute (fiMode info) fileMode)
     | _ \<Rightarrow> io_return ())"

text \<open>
  The loop up to the root. Each turn moves to the parent directory, so one turn more than
  the path has bytes is enough.
\<close>

primrec parentDirsLoop :: "nat \<Rightarrow> 'w os_api \<Rightarrow> string \<Rightarrow> OwnershipPolicy \<Rightarrow> string \<Rightarrow> ('w, unit) io" where
  "parentDirsLoop 0 os root policy dir = io_return ()"
| "parentDirsLoop (Suc n) os root policy dir =
     io_try (osLstat os dir) (\<lambda>r. case r of
       Inl e \<Rightarrow> if IsNotExist e then io_return () else io_fail e
     | Inr info \<Rightarrow>
         io_bind (applyOwnershipToOne os dir info (policy\<lparr>owFileMode := None\<rparr>)) (\<lambda>_.
         if dir = root then io_return ()
         else if pathDir dir = dir then io_return ()
         else parentDirsLoop n os root policy (pathDir dir)))"

definition applyOwnershipToParentDirs ::
    "'w os_api \<Rightarrow> string \<Rightarrow> string \<Rightarrow> OwnershipPolicy \<Rightarrow> ('w, unit) io" where
  "applyOwnershipToParentDirs os root target policy =
     io_try (osLstat os target) (\<lambda>r. case r of
       Inr info \<Rightarrow> let dir = (if \<not> IsDir info then pathDir target else target)
         in parentDirsLoop (length dir + 1) os root policy dir
     | Inl e \<Rightarrow> if IsNotExist e then parentDirsLoop (length (pathDir target) + 1) os root policy (pathDir target)
         else io_fail e)"

definition ownershipVisitor :: "'w os_api \<Rightarrow> OwnershipPolicy \<Rightarrow> 'w visitor" where
  "ownershipVisitor os policy p isDir err = (case err of
     Some e \<Rightarrow> if IsNotExist e then io_return () else io_fail e
   | None \<Rightarrow> io_try (osLstat os p) (\<lambda>r. case r of
       Inl e \<Rightarrow> if IsNotExist e then io_return () else io_fail e
     | Inr info \<Rightarrow> applyOwnershipToOne os p info policy))"

definition ApplyOwnershipPolicy ::
    "'w os_api \<Rightarrow> string \<Rightarrow> string \<Rightarrow> OwnershipPolicy \<Rightarrow> bool \<Rightarrow> ('w, unit) io" where
  "ApplyOwnershipPolicy os root0 target0 policy recursive =
     (if OwnershipEmpty policy then io_return ()
      else
        let root = Clean root0; target = Clean target0 in
        io_bind (io_lift (Rel root target)) (\<lambda>rel.
        if rel = ''..'' \<or> HasPrefix rel ''../''
        then io_fail (Errorf (''ownership target escapes volume: '' @ target))
        else
          io_bind (applyOwnershipToParentDirs os root target policy) (\<lambda>_.
          io_try (osLstat os target) (\<lambda>r. case r of
            Inl e \<Rightarrow> if IsNotExist e then io_return () else io_fail e
          | Inr info \<Rightarrow>
              if recursive \<and> IsDir info then WalkDir os target (ownershipVisitor os policy)
              else applyOwnershipToOne os target info policy))))"

text \<open>The loop over the include patterns; \<open>seen\<close> are the prefixes already handled.\<close>

fun ownershipIncludes ::
    "'w os_api \<Rightarrow> string \<Rightarrow> OwnershipPolicy \<Rightarrow> string list \<Rightarrow> string list \<Rightarrow> ('w, unit) io" where
  "ownershipIncludes os root policy seen [] = io_return ()"
| "ownershipIncludes os root policy seen (inc # incs) =
     (let pre = filterStaticPrefix inc in
      if pre = '''' then ApplyOwnershipPolicy os root root policy True
      else io_bind (io_lift (NormalizeEventPath pre)) (\<lambda>clean.
        if clean \<in> set seen then ownershipIncludes os root policy seen incs
        else io_bind (ApplyOwnershipPolicy os root (pathJoin [root, clean]) policy True) (\<lambda>_.
          ownershipIncludes os root policy (clean # seen) incs)))"

definition ApplyOwnershipPolicyForFilter ::
    "'w os_api \<Rightarrow> string \<Rightarrow> PathFilter \<Rightarrow> OwnershipPolicy \<Rightarrow> ('w, unit) io" where
  "ApplyOwnershipPolicyForFilter os root filt policy =
     (if OwnershipEmpty policy then io_return ()
      else if IncludePaths filt = [] then ApplyOwnershipPolicy os root root policy True
      else ownershipIncludes os root policy [] (IncludePaths filt))"

section \<open>Ownership stays inside the volume\<close>

text \<open>
  What the operating system's directory listings promise, and that a path is a directory.
\<close>

definition plainListings :: "'w os_api \<Rightarrow> bool" where
  "plainListings os \<longleftrightarrow>
     (\<forall>p. io_result (\<lambda>r. \<forall>es. r = Inr es \<longrightarrow> list_all (\<lambda>(n, d). plainComp n) es) (osReadDir os p))"

definition isDirectory :: "'w os_api \<Rightarrow> string \<Rightarrow> bool" where
  "isDirectory os p \<longleftrightarrow> io_result (\<lambda>r. \<exists>i. r = Inr i \<and> IsDir i) (osLstat os p)"

text \<open>A condition on logged changes that admits new attributes for every path of a tree.\<close>

definition allowsAttrs :: "string \<Rightarrow> (os_event list \<Rightarrow> bool) \<Rightarrow> bool" where
  "allowsAttrs root J \<longleftrightarrow> (\<forall>p. inTree root p \<longrightarrow> admits J (OsAttr p))"

lemma allowsAttrsD: "allowsAttrs root J \<Longrightarrow> inTree root p \<Longrightarrow> admits J (OsAttr p)"
  by (simp add: allowsAttrs_def)

lemma plainListings_traced [simp]: "plainListings (tracedOs os) \<longleftrightarrow> plainListings os"
  by (simp add: plainListings_def tracedOs_sel)

lemma isDirectory_traced [simp]: "isDirectory (tracedOs os) p \<longleftrightarrow> isDirectory os p"
  by (simp add: isDirectory_def tracedOs_sel)

lemma applyOwnershipToOne_log [io_inv_intros]:
  "admits J (OsAttr p) \<Longrightarrow> io_inv (logIs J) (applyOwnershipToOne (tracedOs os) p info policy)"
  unfolding applyOwnershipToOne_def tracedOs_sel Let_def
  by (auto intro!: io_inv_intros split: bool.split option.split)

lemma parentDirsLoop_log:
  assumes "properRoot root" "list_all plainComp ws" "allowsAttrs root J"
  shows "io_inv (logIs J) (parentDirsLoop n (tracedOs os) root policy (treePath root ws))"
  using assms(2)
proof (induction n arbitrary: ws)
  case (Suc n)
  have up: "ws \<noteq> [] \<Longrightarrow> io_inv (logIs J)
      (parentDirsLoop n (tracedOs os) root policy (pathDir (treePath root ws)))"
    using Suc by (auto simp: pathDir_treePath [OF assms(1) Suc.prems] list_all_butlast)
  have "admits J (OsAttr (treePath root ws))" using allowsAttrsD [OF assms(3)] Suc.prems by auto
  with up show ?case
    unfolding parentDirsLoop.simps tracedOs_sel by (auto intro!: io_inv_intros split: sum.split)
qed simp

lemma walkDir_log:
  assumes "properRoot root" "list_all plainComp ws" "plainListings os"
    and fn: "\<And>p d e. inTree root p \<Longrightarrow> io_inv (logIs J) (fn p d e)"
  shows "io_inv (logIs J) (walkDir n (tracedOs os) fn (treePath root ws) d)"
  using assms(2)
proof (induction n arbitrary: ws d)
  case (Suc n)
  have entries: "io_inv (logIs J) (walkEntries (\<lambda>name d. walkDir n (tracedOs os) fn (pathJoin [treePath root ws, name]) d) es)"
    if "list_all (\<lambda>(n, d). plainComp n) es" for es
    using that
  proof (induction es)
    case (Cons e es)
    obtain name d where e: "e = (name, d)" "plainComp name" using Cons.prems by (cases e) auto
    have "io_inv (logIs J) (walkDir n (tracedOs os) fn (pathJoin [treePath root ws, name]) d)"
      using Suc.IH [of "ws @ [name]" d] Suc.prems e(2) pathJoin_treePath [OF assms(1) Suc.prems e(2)] by simp
    then show ?case using Cons e by (auto intro!: io_inv_intros split: sum.split)
  qed simp
  have listing: "io_inv (logIs J) (io_try (osReadDir (tracedOs os) (treePath root ws)) (\<lambda>l. case l of
         Inl e \<Rightarrow> io_try (fn (treePath root ws) d (Some e)) (\<lambda>r. case r of
           Inl e2 \<Rightarrow> if e2 = ErrSkipDir \<and> d then io_return () else io_fail e2
         | Inr _ \<Rightarrow> io_return ())
       | Inr entries \<Rightarrow> walkEntries (\<lambda>name d. walkDir n (tracedOs os) fn (pathJoin [treePath root ws, name]) d) entries))"
    using assms(3) entries fn [OF inTreeI [OF Suc.prems]]
    by (intro io_inv_try_result [where R = "\<lambda>r. \<forall>es. r = Inr es \<longrightarrow> list_all (\<lambda>(n, d). plainComp n) es"])
      (auto simp: plainListings_def tracedOs_sel intro!: io_inv_intros split: sum.split)
  show ?case
    using listing fn [OF inTreeI [OF Suc.prems]]
    by (auto intro!: io_inv_intros split: sum.split)
qed simp

lemma WalkDir_log:
  assumes "properRoot root" "inTree root p" "plainListings os"
    and fn: "\<And>p d e. inTree root p \<Longrightarrow> io_inv (logIs J) (fn p d e)"
  shows "io_inv (logIs J) (WalkDir (tracedOs os) p fn)"
proof -
  obtain ws where ws: "list_all plainComp ws" "p = treePath root ws" using assms(2) by (auto simp: inTree_def)
  show ?thesis
    unfolding WalkDir_def tracedOs_sel
    using walkDir_log [OF assms(1) ws(1) assms(3) fn] fn [OF assms(2)] ws(2)
    by (auto intro!: io_inv_intros split: sum.split)
qed

lemma applyOwnershipToParentDirs_log:
  assumes root: "properRoot root" and p: "inTree root p" "belowTree root p \<or> isDirectory os root"
    and P: "allowsAttrs root J"
  shows "io_inv (logIs J) (applyOwnershipToParentDirs (tracedOs os) root p policy)"
proof -
  obtain ws where ws: "list_all plainComp ws" "p = treePath root ws" using p(1) by (auto simp: inTree_def)
  have self: "io_inv (logIs J) (parentDirsLoop n (tracedOs os) root policy p)" for n
    unfolding ws(2) by (rule parentDirsLoop_log [OF root ws(1) P])
  show ?thesis
  proof (cases "ws = []")
    case True
    then have "isDirectory (tracedOs os) p" using p(2) ws(2) by (auto simp: belowTree_def)
    then show ?thesis
      unfolding applyOwnershipToParentDirs_def isDirectory_def using self
      by (intro io_inv_try_result [where R = "\<lambda>r. \<exists>i. r = Inr i \<and> IsDir i"])
        (auto simp: tracedOs_sel Let_def simp del: parentDirsLoop.simps intro!: io_inv_intros)
  next
    case False
    have "io_inv (logIs J) (parentDirsLoop n (tracedOs os) root policy (pathDir p))" for n
      unfolding ws(2) pathDir_treePath [OF root ws(1) False]
      by (rule parentDirsLoop_log [OF root list_all_butlast [OF ws(1)] P])
    then show ?thesis
      unfolding applyOwnershipToParentDirs_def tracedOs_sel Let_def using self
      by (auto simp del: parentDirsLoop.simps intro!: io_inv_intros split: sum.split)
  qed
qed

lemma ApplyOwnershipPolicy_log:
  assumes root: "properRoot root" "plainListings os" and p: "inTree root p" "belowTree root p \<or> isDirectory os root"
    and P: "allowsAttrs root J"
  shows "io_inv (logIs J) (ApplyOwnershipPolicy (tracedOs os) root p policy recursive)"
proof -
  have visit: "io_inv (logIs J) (ownershipVisitor (tracedOs os) policy q d e)" if "inTree root q" for q d e
    unfolding ownershipVisitor_def tracedOs_sel using allowsAttrsD [OF P that]
    by (auto intro!: io_inv_intros split: option.split sum.split)
  have "Clean root = root" "Clean p = p"
    using root(1) p(1) properRoot_treePath by (auto simp: properRoot_def inTree_def)
  then show ?thesis
    unfolding ApplyOwnershipPolicy_def Let_def
    using applyOwnershipToParentDirs_log [OF root(1) p P] allowsAttrsD [OF P p(1)]
      WalkDir_log [OF root(1) p(1) root(2) visit]
    by (auto simp: tracedOs_sel intro!: io_inv_intros split: sum.split)
qed

lemma ApplyOwnershipPolicyForFilter_log:
  assumes root: "properRoot root" "plainListings os" "isDirectory os root"
    and P: "allowsAttrs root J"
  shows "io_inv (logIs J) (ApplyOwnershipPolicyForFilter (tracedOs os) root filt policy)"
proof -
  have apply_one: "inTree root p \<Longrightarrow> io_inv (logIs J) (ApplyOwnershipPolicy (tracedOs os) root p policy True)" for p
    using ApplyOwnershipPolicy_log [OF root(1,2) _ _ P] root(3) by blast
  have "io_inv (logIs J) (ownershipIncludes (tracedOs os) root policy seen incs)" for seen incs
  proof (induction incs arbitrary: seen)
    case (Cons inc incs)
    then show ?case
      by (auto simp: Let_def intro!: io_inv_bind_lift apply_one io_inv_bind normal_target_inTree root(1))
  qed simp
  then show ?thesis unfolding ApplyOwnershipPolicyForFilter_def by (auto intro!: apply_one)
qed

text \<open>The fuel of the loop is enough: one turn per byte of the path reaches the root.\<close>

lemma parentDirsLoop_fuel:
  assumes "properRoot root" "list_all plainComp ws" "length ws < n" "length ws < m"
  shows "parentDirsLoop n os root policy (treePath root ws) = parentDirsLoop m os root policy (treePath root ws)"
  using assms(2-)
proof (induction n arbitrary: m ws)
  case (Suc n)
  then obtain k where m: "m = Suc k" by (cases m) auto
  show ?case
  proof (cases "ws = []")
    case False
    have "parentDirsLoop n os root policy (treePath root (butlast ws)) =
        parentDirsLoop k os root policy (treePath root (butlast ws))"
      using Suc.prems False m
      by (intro Suc.IH) (auto simp: list_all_butlast neq_Nil_conv)
    then show ?thesis by (simp add: m pathDir_treePath [OF assms(1) Suc.prems(1) False])
  qed (simp add: m)
qed simp

lemma length_treePath: "list_all plainComp ws \<Longrightarrow> length ws \<le> length (treePath root ws)"
proof -
  assume "list_all plainComp ws"
  then have "length ws \<le> length (Join ''/'' ws)"
  proof (induction ws)
    case (Cons w ws)
    then show ?case by (cases "ws = []") (auto simp: Join_Cons plainComp_def neq_Nil_conv)
  qed simp
  then show ?thesis by (auto simp: treePath_def)
qed


lemma demoFile_below: "belowTree demoRoot (demoRoot @ ''/save'')"
  using belowTreeI [of "[''save'']" demoRoot] by (simp add: plainComp_def treePath_def)


section \<open>Modes\<close>

text \<open>
  Applying a file mode never makes a program unusable and sets nothing but permissions:
  the new mode has the requested permission bits plus the execute bits the file already had,
  and no bit outside the nine permission bits, so a set-user-id, set-group-id or sticky bit
  in the requested mode is dropped.
\<close>

theorem fileModePreservingExecute_bits:
  "bit (fileModePreservingExecute current desired) n \<longleftrightarrow>
     n < 9 \<and> (bit desired n \<or> n mod 3 = 0 \<and> bit current n)"
proof -
  have m: "(0x1FF :: filemode) = mask 9" by (simp add: mask_eq_exp_minus_1)
  have perm: "bit (0x1FF :: filemode) n \<longleftrightarrow> n < 9" unfolding m bit_mask_iff by auto
  have x: "(0x49 :: filemode) = or 1 (or (push_bit 3 1) (push_bit 6 1))" by (simp add: push_bit_eq_mult)
  have exec: "bit (0x49 :: filemode) n \<longleftrightarrow> n = 0 \<or> n = 3 \<or> n = 6"
    unfolding x bit_or_iff bit_push_bit_iff bit_1_iff by auto
  have thirds: "n < 9 \<and> n mod 3 = 0 \<longleftrightarrow> n = 0 \<or> n = 3 \<or> n = 6" by presburger
  show ?thesis
    unfolding fileModePreservingExecute_def Perm_def bit_or_iff bit_and_iff perm exec using thirds by auto
qed
end
