(* ===== verification/BatchApply.thy ===== *)
theory BatchApply
  imports Rclone Ownership
begin

text \<open>
  Applying changes to a replica, from \<^verbatim>\<open>internal/agent/replication.go\<close>: a batch of file
  events, a full synchronisation, and the checks that a source or a target has the paths a
  volume requires. The requests to the source's WebDAV server, the commands and the file
  system are parameters.
\<close>

section \<open>Requests and the environment\<close>

record EventBatch =
  ebNamespace :: string
  ebVolume :: string
  ebGeneration :: string
  ebSource :: SourceRef
  ebSourceBasePath :: string
  ebOwnership :: OwnershipPolicy
  ebDeletesAuthoritative :: bool
  ebEvents :: "FileEvent list"

record FullSyncRequest =
  fsNamespace :: string
  fsVolume :: string
  fsSource :: SourceRef
  fsSourceBasePath :: string
  fsIncludePaths :: "string list"
  fsExcludePaths :: "string list"
  fsPruneExcluded :: bool
  fsRequiredPaths :: "string list"
  fsOwnership :: OwnershipPolicy
  fsBackupExisting :: bool

text \<open>
  The HTTP client: whether a text parses as a URL, whether a request can be built for a
  reference resolved against a base, and the status a \<^verbatim>\<open>HEAD\<close> request gets, with the
  credentials if it carries any.
\<close>

record 'w webdav =
  urlError :: "string \<Rightarrow> go_error option"
  requestError :: "string \<Rightarrow> string \<Rightarrow> go_error option"
  headStatus :: "string \<Rightarrow> string \<Rightarrow> (string \<times> string) option \<Rightarrow> ('w, int) io"

record 'w agent_env =
  envOs :: "'w os_api"
  envHttp :: "'w webdav"
  envRunner :: "'w runner"

section \<open>Does the source have a path?\<close>

datatype sourceExistsResult = sourceExistsUnknown | sourceExistsYes | sourceExistsNo

fun headCandidates ::
    "'w webdav \<Rightarrow> string \<Rightarrow> (string \<times> string) option \<Rightarrow> bool \<Rightarrow> string list \<Rightarrow> ('w, sourceExistsResult) io" where
  "headCandidates http base auth sawMissing [] =
     io_return (if sawMissing then sourceExistsNo else sourceExistsUnknown)"
| "headCandidates http base auth sawMissing (candidate # cs) = (case urlError http candidate of
     Some e \<Rightarrow> io_fail e
   | None \<Rightarrow> (case requestError http base candidate of
       Some e \<Rightarrow> io_fail e
     | None \<Rightarrow> io_try (headStatus http base candidate auth) (\<lambda>r. case r of
         Inl e \<Rightarrow> io_return sourceExistsUnknown
       | Inr status \<Rightarrow>
           if status = 200 \<or> status = 204 \<or> status = 206 then io_return sourceExistsYes
           else if status = 404 \<or> status = 410 then headCandidates http base auth True cs
           else if status = 405 then headCandidates http base auth sawMissing cs
           else io_return sourceExistsUnknown)))"

definition sourcePathExists :: "'w webdav \<Rightarrow> SourceRef \<Rightarrow> string \<Rightarrow> ('w, sourceExistsResult) io" where
  "sourcePathExists http source sourcePath =
     (if TrimSpace (srcWebDAVURL source) = '''' then io_return sourceExistsUnknown
      else
        let base = TrimRight (srcWebDAVURL source) ''/'' @ ''/'' in
        case urlError http base of
          Some e \<Rightarrow> io_fail e
        | None \<Rightarrow>
            let joined = pathJoin [Trim sourcePath ''/''];
                candidates = joined # (if \<not> HasSuffix sourcePath ''/'' then [joined @ ''/''] else []);
                auth = (if srcUser source \<noteq> '''' \<or> srcPassword source \<noteq> ''''
                        then Some (srcUser source, srcPassword source) else None)
            in headCandidates http base auth False candidates)"

definition sourceBasePath :: "string \<Rightarrow> string \<Rightarrow> string \<Rightarrow> string" where
  "sourceBasePath namespace volume override =
     (if TrimSpace override \<noteq> '''' then Trim (ReplaceAll override [CHR 0x5C] ''/'') ''/''
      else pathJoin [safeSegment namespace, safeSegment volume])"

section \<open>Event batches\<close>

definition applyDelete :: "'w os_api \<Rightarrow> string \<Rightarrow> bool \<Rightarrow> FileEvent \<Rightarrow> ('w, unit) io" where
  "applyDelete os targetRoot authoritative event =
     (if authoritative then
        let targetPath = pathJoin [targetRoot, evPath event] in
        io_bind (io_lift (ensurePathInside targetRoot targetPath)) (\<lambda>_. osRemoveAll os targetPath)
      else io_return ())"

definition applyUpsert :: "'w agent_env \<Rightarrow> string \<Rightarrow> EventBatch \<Rightarrow> FileEvent \<Rightarrow> ('w, unit) io" where
  "applyUpsert env targetRoot batch event =
     (let sourcePath = pathJoin [sourceBasePath (ebNamespace batch) (ebVolume batch) (ebSourceBasePath batch), evPath event];
          targetPath = pathJoin [targetRoot, evPath event]
      in
      io_bind (sourcePathExists (envHttp env) (ebSource batch) sourcePath) (\<lambda>exists.
      if exists = sourceExistsNo then io_return ()
      else
        io_bind (io_lift (BuildRcloneCopyToCommand (ebSource batch) sourcePath targetPath)) (\<lambda>spec.
        io_try (runEventCopy (envRunner env) spec) (\<lambda>r. case r of
          Inl e \<Rightarrow> io_try (sourcePathExists (envHttp env) (ebSource batch) sourcePath) (\<lambda>x. case x of
            Inl existsErr \<Rightarrow> io_fail e
          | Inr exists2 \<Rightarrow> if exists2 = sourceExistsNo \<or> isMissingSourceCopyError e then io_return () else io_fail e)
        | Inr _ \<Rightarrow> ApplyOwnershipPolicy (envOs env) targetRoot targetPath (ebOwnership batch) True))))"

definition ApplyEventBatch :: "'w agent_env \<Rightarrow> Pool \<Rightarrow> EventBatch \<Rightarrow> ('w, unit) io" where
  "ApplyEventBatch env pool batch =
     io_bind (EnsureVolumePath (envOs env) (volumeAt pool (ebNamespace batch) (ebVolume batch)) 0x1ED)
       (\<lambda>targetRoot.
     io_foreach (\<lambda>event.
       if evOp event = EventOpDelete
       then applyDelete (envOs env) targetRoot (ebDeletesAuthoritative batch) event
       else applyUpsert env targetRoot batch event)
     (CoalesceEvents (ebEvents batch) \<lparr>IncludePaths = [], ExcludePaths = [], PruneExcluded = False\<rparr>))"

section \<open>Full synchronisation\<close>

definition validateFullSyncRequiredPaths ::
    "'w webdav \<Rightarrow> SourceRef \<Rightarrow> string \<Rightarrow> string list \<Rightarrow> ('w, unit) io" where
  "validateFullSyncRequiredPaths http source sourceVolume requiredPaths =
     io_foreach (\<lambda>required. case NormalizeEventPath required of
       Inl e \<Rightarrow> io_fail (Wrapf (''required path '' @ required @ '': '') e)
     | Inr clean \<Rightarrow>
         io_try (sourcePathExists http source (pathJoin [Trim sourceVolume ''/'', clean])) (\<lambda>r. case r of
           Inl e \<Rightarrow> io_fail (Wrapf (''check required source path '' @ clean @ '': '') e)
         | Inr exists \<Rightarrow>
             if exists \<noteq> sourceExistsYes then io_fail (Errorf (''required source path missing: '' @ clean))
             else io_return ())) requiredPaths"

definition exactIncludePath :: "string \<Rightarrow> go_error + string option" where
  "exactIncludePath inc = (case NormalizeEventPath inc of
     Inl e \<Rightarrow> Inl e
   | Inr clean \<Rightarrow> if ContainsAny clean ''*?['' then Inr None else Inr (Some clean))"

definition forceSyncIncludedFiles ::
    "'w agent_env \<Rightarrow> SourceRef \<Rightarrow> string \<Rightarrow> string \<Rightarrow> string list \<Rightarrow> ('w, unit) io" where
  "forceSyncIncludedFiles env source sourceVolume targetRoot includePaths =
     io_foreach (\<lambda>inc.
       io_bind (io_lift (exactIncludePath inc)) (\<lambda>exact. case exact of
         None \<Rightarrow> io_return ()
       | Some clean \<Rightarrow>
           let sourcePath = pathJoin [Trim sourceVolume ''/'', clean] in
           io_try (sourcePathExists (envHttp env) source sourcePath) (\<lambda>r. case r of
             Inl e \<Rightarrow> io_fail (Wrapf (''check included source path '' @ clean @ '': '') e)
           | Inr exists \<Rightarrow>
               if exists = sourceExistsNo then io_return ()
               else io_bind (io_lift (BuildRcloneCopyToCommand source sourcePath (pathJoin [targetRoot, clean]))) (\<lambda>spec.
                 io_try (runFullSyncCommand (envRunner env) spec) (\<lambda>r. case r of
                   Inl e \<Rightarrow> if isMissingSourceCopyError e then io_return ()
                     else io_fail (Wrapf (''force sync included file '' @ clean @ '': '') e)
                 | Inr _ \<Rightarrow> io_return ()))))) includePaths"

text \<open>
  The retry loop of one required path: \<open>n\<close> attempts remain and \<open>lastErr\<close> is the error of the
  last one. The result is the error after the last attempt, or none.
\<close>

definition requiredPathRepairTries :: nat where "requiredPathRepairTries = 3"

primrec repairRequiredPath ::
    "nat \<Rightarrow> 'w agent_env \<Rightarrow> SourceRef \<Rightarrow> string \<Rightarrow> string \<Rightarrow> string \<Rightarrow> go_error option \<Rightarrow> ('w, go_error option) io" where
  "repairRequiredPath 0 env source clean sourcePath targetPath lastErr = io_return lastErr"
| "repairRequiredPath (Suc n) env source clean sourcePath targetPath lastErr =
     (let again = (\<lambda>e. repairRequiredPath n env source clean sourcePath targetPath (Some e)) in
      io_try (runFullSyncCommand (envRunner env) (BuildRclonePathSyncCommand source sourcePath targetPath)) (\<lambda>r. case r of
        Inl e \<Rightarrow> again (Wrapf (''required target path repair sync failed '' @ clean @ '': '') e)
      | Inr _ \<Rightarrow>
          io_try (osStat (envOs env) targetPath) (\<lambda>r. case r of
            Inl e \<Rightarrow>
              if IsNotExist e then again (Errorf (''required target path missing after full sync: '' @ clean))
              else io_fail (Wrapf (''check required target path '' @ clean @ '': '') e)
          | Inr _ \<Rightarrow>
              io_try (runFullSyncCommand (envRunner env) (BuildRcloneCheckCommand source sourcePath targetPath)) (\<lambda>r. case r of
                Inl e \<Rightarrow> again (Wrapf (''required target path failed post-sync check '' @ clean @ '': '') e)
              | Inr _ \<Rightarrow> io_return None))))"

definition validateTargetPath ::
    "'w agent_env \<Rightarrow> SourceRef \<Rightarrow> string \<Rightarrow> string \<Rightarrow> string \<Rightarrow> ('w, unit) io" where
  "validateTargetPath env source sourceVolume targetRoot required = (case NormalizeEventPath required of
     Inl e \<Rightarrow> io_fail (Wrapf (''required path '' @ required @ '': '') e)
   | Inr clean \<Rightarrow>
       io_bind (repairRequiredPath requiredPathRepairTries env source clean
         (pathJoin [Trim sourceVolume ''/'', clean]) (pathJoin [targetRoot, clean]) None) (\<lambda>lastErr.
       case lastErr of Some e \<Rightarrow> io_fail e | None \<Rightarrow> io_return ()))"

definition validateFullSyncTargetRequiredPaths ::
    "'w agent_env \<Rightarrow> SourceRef \<Rightarrow> string \<Rightarrow> string \<Rightarrow> string list \<Rightarrow> ('w, unit) io" where
  "validateFullSyncTargetRequiredPaths env source sourceVolume targetRoot requiredPaths =
     io_foreach (validateTargetPath env source sourceVolume targetRoot) requiredPaths"

definition fullSyncFilter :: "FullSyncRequest \<Rightarrow> PathFilter" where
  "fullSyncFilter req = \<lparr>IncludePaths = fsIncludePaths req, ExcludePaths = fsExcludePaths req,
     PruneExcluded = fsPruneExcluded req\<rparr>"

text \<open>The code is handed the bearer token of the request and does not use it.\<close>

definition ApplyFullSyncWithToken :: "'w agent_env \<Rightarrow> Pool \<Rightarrow> FullSyncRequest \<Rightarrow> string \<Rightarrow> ('w, unit) io" where
  "ApplyFullSyncWithToken env pool req token =
     (if fsVolume req = '''' then io_fail (Errorf ''volume is required'')
      else if srcWebDAVURL (fsSource req) = '''' then io_fail (Errorf ''source.webdavUrl is required'')
      else
        let volumePath = volumeAt pool (fsNamespace req) (fsVolume req) in
        io_bind (if fsBackupExisting req
          then io_bind (timeNow (envOs env)) (\<lambda>now. BackupVolumePath (envOs env) volumePath now)
          else io_return '''') (\<lambda>_.
        io_bind (EnsureVolumePath (envOs env) volumePath 0x1ED) (\<lambda>targetRoot.
        let sourceVolume = sourceBasePath (fsNamespace req) (fsVolume req) (fsSourceBasePath req) in
        io_bind (validateFullSyncRequiredPaths (envHttp env) (fsSource req) sourceVolume (fsRequiredPaths req)) (\<lambda>_.
        io_bind (runFullSyncCommand (envRunner env)
          (BuildRcloneFullSyncCommand (fsSource req) sourceVolume targetRoot (fullSyncFilter req))) (\<lambda>_.
        io_bind (forceSyncIncludedFiles env (fsSource req) sourceVolume targetRoot (fsIncludePaths req)) (\<lambda>_.
        io_bind (validateFullSyncTargetRequiredPaths env (fsSource req) sourceVolume targetRoot (fsRequiredPaths req)) (\<lambda>_.
        ApplyOwnershipPolicyForFilter (envOs env) targetRoot (fullSyncFilter req) (fsOwnership req))))))))"

definition ApplyFullSync :: "'w agent_env \<Rightarrow> Pool \<Rightarrow> FullSyncRequest \<Rightarrow> ('w, unit) io" where
  "ApplyFullSync env pool req = ApplyFullSyncWithToken env pool req ''''"

section \<open>Observing a replica\<close>

text \<open>The environment with its changes and its commands recorded; requests leave no trace.\<close>

definition quietHttp :: "'w webdav \<Rightarrow> ('w \<times> 'e list) webdav" where
  "quietHttp http = \<lparr>urlError = urlError http, requestError = requestError http,
     headStatus = (\<lambda>base ref auth. io_quiet (headStatus http base ref auth))\<rparr>"

definition tracedEnv :: "'w agent_env \<Rightarrow> ('w \<times> os_event list) agent_env" where
  "tracedEnv env = \<lparr>envOs = tracedOs (envOs env), envHttp = quietHttp (envHttp env),
     envRunner = tracedRunner (envRunner env)\<rparr>"

lemma tracedEnv_sel [simp]:
  "envOs (tracedEnv env) = tracedOs (envOs env)"
  "envHttp (tracedEnv env) = quietHttp (envHttp env)"
  "envRunner (tracedEnv env) = tracedRunner (envRunner env)"
  by (simp_all add: tracedEnv_def)

lemma quietHttp_sel:
  "urlError (quietHttp http) = urlError http" "requestError (quietHttp http) = requestError http"
  "headStatus (quietHttp http) base ref auth = io_quiet (headStatus http base ref auth)"
  by (simp_all add: quietHttp_def)

lemma headCandidates_quiet:
  "headCandidates (quietHttp http) base auth saw cs = io_quiet (headCandidates http base auth saw cs)"
proof (induction cs arbitrary: saw)
  case (Cons c cs)
  show ?case
    unfolding headCandidates.simps Cons.IH quietHttp_sel
    by (auto simp: io_quiet_try intro!: io_try_cong split: option.split sum.split)
qed simp

lemma sourcePathExists_quiet:
  "sourcePathExists (quietHttp http) source p = io_quiet (sourcePathExists http source p)"
  unfolding sourcePathExists_def Let_def headCandidates_quiet
  by (auto simp: quietHttp_sel split: option.split)

lemma sourcePathExists_log [io_inv_intros]: "io_inv (logIs J) (sourcePathExists (quietHttp http) source p)"
  unfolding sourcePathExists_quiet by (rule logIs_quiet)

lemma runs_log [io_inv_intros]:
  "admits J (execEvent spec) \<Longrightarrow> io_inv (logIs J) (runEventCopy (tracedRunner runner) spec)"
  "admits J (execEvent spec) \<Longrightarrow> io_inv (logIs J) (runFullSyncCommand (tracedRunner runner) spec)"
  unfolding runEventCopy_traced runFullSyncCommand_traced by (rule logIs_noisy, assumption)+

section \<open>What a batch does to the replica\<close>

abbreviation noFilter :: PathFilter where
  "noFilter \<equiv> \<lparr>IncludePaths = [], ExcludePaths = [], PruneExcluded = False\<rparr>"

abbreviation eventTarget :: "string \<Rightarrow> FileEvent \<Rightarrow> string" where
  "eventTarget root event \<equiv> pathJoin [root, evPath event]"

text \<open>The copy command of an upsert.\<close>

definition upsertCommand :: "string \<Rightarrow> EventBatch \<Rightarrow> FileEvent \<Rightarrow> go_error + CommandSpec" where
  "upsertCommand root batch event = BuildRcloneCopyToCommand (ebSource batch)
     (pathJoin [sourceBasePath (ebNamespace batch) (ebVolume batch) (ebSourceBasePath batch), evPath event])
     (eventTarget root event)"

definition batchEffect :: "string \<Rightarrow> EventBatch \<Rightarrow> os_event \<Rightarrow> bool" where
  "batchEffect root batch e = (case e of
     OsMkdir p \<Rightarrow> p = root
   | OsAttr p \<Rightarrow> inTree root p
   | OsRemoveAll p \<Rightarrow> belowTree root p
   | OsExec name args \<Rightarrow> name = ''rclone'' \<and> belowTree root (last args) \<and>
       (\<exists>event \<in> set (CoalesceEvents (ebEvents batch) noFilter).
          evOp event \<noteq> EventOpDelete \<and> upsertCommand root batch event = Inr \<lparr>cmdName = name, cmdArgs = args\<rparr>)
   | _ \<Rightarrow> False)"

lemma upsertCommand_Inr:
  "upsertCommand root batch event = Inr spec \<Longrightarrow>
     cmdName spec = ''rclone'' \<and> last (cmdArgs spec) = eventTarget root event"
  by (auto simp: upsertCommand_def BuildRcloneCopyToCommand_def rclone_def split: sum.splits)

lemma applyUpsert_log:
  assumes "properRoot root" "plainListings (envOs env)" "belowTree root (eventTarget root event)" "allowsAttrs root J"
    and exec: "\<And>spec. upsertCommand root batch event = Inr spec \<Longrightarrow> admits J (execEvent spec)"
  shows "io_inv (logIs J) (applyUpsert (tracedEnv env) root batch event)"
proof -
  have own: "io_inv (logIs J) (ApplyOwnershipPolicy (tracedOs (envOs env)) root (eventTarget root event) policy True)" for policy
    using assms(1-4) by (intro ApplyOwnershipPolicy_log) (auto simp: belowTree_inTree)
  show ?thesis
    unfolding applyUpsert_def Let_def tracedEnv_sel
    by (auto intro!: io_inv_intros io_inv_bind_lift own exec simp: upsertCommand_def split: sum.split)
qed

lemma EnsureVolumePath_bind:
  assumes "ResolveVolumePath v = Inr root"
  shows "io_bind (EnsureVolumePath os v perm) f = io_bind (osMkdirAll os root perm) (\<lambda>_. f root)"
  using assms by (auto simp: EnsureVolumePath_def io_defs fun_eq_iff split: prod.splits sum.splits)

lemma EnsureVolumePath_log:
  assumes "ResolveVolumePath v = Inr root" "admits J (OsMkdir root)" "io_inv (logIs J) (f root)"
  shows "io_inv (logIs J) (io_bind (EnsureVolumePath (tracedOs os) v perm) f)"
  unfolding EnsureVolumePath_bind [OF assms(1)] tracedOs_sel using assms by (auto intro!: io_inv_intros)

lemma ApplyEventBatch_log:
  assumes root: "ResolveVolumePath (volumeAt pool (ebNamespace batch) (ebVolume batch)) = Inr root"
    and os: "plainListings (envOs env)" and J: "\<And>e. batchEffect root batch e \<Longrightarrow> admits J e"
  shows "io_inv (logIs J) (ApplyEventBatch (tracedEnv env) pool batch)"
proof -
  note proper = volume_root [OF root]
  have attrs: "allowsAttrs root J" by (auto simp: allowsAttrs_def batchEffect_def intro!: J)
  have event: "io_inv (logIs J) (if evOp ev = EventOpDelete
       then applyDelete (tracedOs (envOs env)) root (ebDeletesAuthoritative batch) ev
       else applyUpsert (tracedEnv env) root batch ev)"
    if ev: "ev \<in> set (CoalesceEvents (ebEvents batch) noFilter)" for ev
  proof -
    note below = coalesced_target [OF proper ev]
    have "admits J (execEvent spec)"
      if "upsertCommand root batch ev = Inr spec" "evOp ev \<noteq> EventOpDelete" for spec
      using that ev upsertCommand_Inr [OF that(1)] below
      by (cases spec) (auto simp: batchEffect_def execEvent_def intro!: J bexI [of _ ev])
    then have "evOp ev \<noteq> EventOpDelete \<Longrightarrow> io_inv (logIs J) (applyUpsert (tracedEnv env) root batch ev)"
      using applyUpsert_log [OF proper os below attrs] by blast
    moreover have "io_inv (logIs J) (applyDelete (tracedOs (envOs env)) root (ebDeletesAuthoritative batch) ev)"
      unfolding applyDelete_def Let_def tracedOs_sel
      using below by (auto intro!: io_inv_intros J simp: batchEffect_def)
    ultimately show ?thesis by simp
  qed
  show ?thesis
    unfolding ApplyEventBatch_def tracedEnv_sel
    by (rule EnsureVolumePath_log [OF root]) (auto simp: batchEffect_def intro!: J io_inv_foreach event)
qed

text \<open>
  C4. A replica's files are touched only inside its volume: whatever a batch holds and
  however the source, the commands and the file system answer, the agent creates no directory
  but the volume's, removes only paths strictly below it, changes ownership only inside it,
  and runs no command but the copy of an upserted file to its own place below it.
\<close>

theorem ApplyEventBatch_contained:
  assumes "ResolveVolumePath (volumeAt pool (ebNamespace batch) (ebVolume batch)) = Inr root"
    and "plainListings (envOs env)"
    and "ApplyEventBatch (tracedEnv env) pool batch (w, []) = (r, (w', es))"
  shows "list_all (batchEffect root batch) es"
  using io_invD [OF ApplyEventBatch_log [OF assms(1,2), of "list_all (batchEffect root batch)"] _ assms(3)] by simp

text \<open>The paths a batch is meant to remove: none unless its deletes are authoritative.\<close>

definition batchRemovals :: "string \<Rightarrow> bool \<Rightarrow> FileEvent list \<Rightarrow> string list" where
  "batchRemovals root authoritative events =
     (if authoritative then map (eventTarget root) (filter (\<lambda>ev. evOp ev = EventOpDelete) events) else [])"

lemma applyDelete_removals:
  assumes "properRoot root" "belowTree root (eventTarget root ev)"
    and "applyDelete (tracedOs os) root auth ev (w, es) = (r, (w', es'))"
  shows "removals es' = removals es @ (if auth then [eventTarget root ev] else [])"
  using assms(3) ensurePathInside_inTree [OF assms(1) belowTree_inTree [OF assms(2)]]
  by (auto simp: applyDelete_def Let_def tracedOs_sel io_noisy_def io_defs split: prod.splits if_splits)

lemma applyUpsert_removals:
  assumes "properRoot root" "plainListings (envOs env)" "belowTree root (eventTarget root ev)"
    and "applyUpsert (tracedEnv env) root batch ev (w, es) = (r, (w', es'))"
  shows "removals es' = removals es"
proof -
  have "io_inv (logIs (\<lambda>fs. removals fs = removals es)) (applyUpsert (tracedEnv env) root batch ev)"
    using assms(1-3) by (intro applyUpsert_log) (auto simp: allowsAttrs_def execEvent_def intro!: admits_removals)
  from io_invD [OF this _ assms(4)] show ?thesis by simp
qed

lemma foreach_removals:
  assumes "properRoot root" "plainListings (envOs env)"
    and "\<And>ev. ev \<in> set evs \<Longrightarrow> belowTree root (eventTarget root ev)"
    and "io_foreach (\<lambda>ev. if evOp ev = EventOpDelete then applyDelete (tracedOs (envOs env)) root auth ev
       else applyUpsert (tracedEnv env) root batch ev) evs (w, es) = (r, (w', es'))"
  shows "\<exists>n. removals es' = removals es @ take n (batchRemovals root auth evs) \<and>
    (\<forall>x. r = Inr x \<longrightarrow> length (batchRemovals root auth evs) \<le> n)"
  using assms(3-)
proof (induction evs arbitrary: w es)
  case (Cons ev evs)
  let ?step = "if evOp ev = EventOpDelete then applyDelete (tracedOs (envOs env)) root auth ev
       else applyUpsert (tracedEnv env) root batch ev"
  obtain r1 w1 es1 where step: "?step (w, es) = (r1, (w1, es1))" by (metis prod.exhaust)
  have below: "belowTree root (eventTarget root ev)" using Cons.prems(1) by simp
  have first: "removals es1 = removals es @ batchRemovals root auth [ev]"
    using applyDelete_removals [OF assms(1) below, of "envOs env" auth w es]
      applyUpsert_removals [OF assms(1,2) below, of batch w es] step
    by (cases "evOp ev = EventOpDelete") (simp_all add: batchRemovals_def)
  have split: "batchRemovals root auth (ev # evs) = batchRemovals root auth [ev] @ batchRemovals root auth evs"
    by (simp add: batchRemovals_def)
  show ?case
  proof (cases r1)
    case (Inl e)
    then have "r = Inl e" "es' = es1" using Cons.prems(2) step by (auto simp: io_bind_def)
    then show ?thesis
      using first by (intro exI [of _ "length (batchRemovals root auth [ev])"]) (simp add: split)
  next
    case (Inr x)
    then have "io_foreach (\<lambda>ev. if evOp ev = EventOpDelete then applyDelete (tracedOs (envOs env)) root auth ev
       else applyUpsert (tracedEnv env) root batch ev) evs (w1, es1) = (r, (w', es'))"
      using Cons.prems(2) step by (simp add: io_bind_def)
    from Cons.IH [OF _ this] Cons.prems(1) obtain n where
      "removals es' = removals es1 @ take n (batchRemovals root auth evs)"
      "\<forall>x. r = Inr x \<longrightarrow> length (batchRemovals root auth evs) \<le> n" by auto
    then show ?thesis
      using first by (intro exI [of _ "length (batchRemovals root auth [ev]) + n"]) (auto simp: split)
  qed
qed (auto simp: batchRemovals_def)

text \<open>
  C20. Deletes are advisory unless declared authoritative: a batch whose deletes are not
  authoritative removes nothing. An authoritative batch that succeeds has removed exactly the
  targets of its coalesced deletes, in order; one that fails has removed the first of them.
\<close>

theorem ApplyEventBatch_removals:
  assumes "ResolveVolumePath (volumeAt pool (ebNamespace batch) (ebVolume batch)) = Inr root"
    and "plainListings (envOs env)"
    and "ApplyEventBatch (tracedEnv env) pool batch (w, []) = (r, (w', es))"
  shows "\<exists>n. removals es = take n (batchRemovals root (ebDeletesAuthoritative batch) (CoalesceEvents (ebEvents batch) noFilter)) \<and>
    (\<forall>x. r = Inr x \<longrightarrow>
       length (batchRemovals root (ebDeletesAuthoritative batch) (CoalesceEvents (ebEvents batch) noFilter)) \<le> n)"
proof -
  note proper = volume_root [OF assms(1)]
  obtain r1 w1 where mk: "osMkdirAll (envOs env) root 0x1ED w = (r1, w1)" by fastforce
  show ?thesis
  proof (cases r1)
    case (Inl e)
    then show ?thesis
      using assms(3) mk unfolding ApplyEventBatch_def tracedEnv_sel EnsureVolumePath_bind [OF assms(1)]
      by (intro exI [of _ 0]) (auto simp: tracedOs_sel io_noisy_def io_bind_def)
  next
    case (Inr x)
    then have "io_foreach (\<lambda>ev. if evOp ev = EventOpDelete
         then applyDelete (tracedOs (envOs env)) root (ebDeletesAuthoritative batch) ev
         else applyUpsert (tracedEnv env) root batch ev) (CoalesceEvents (ebEvents batch) noFilter)
         (w1, [OsMkdir root]) = (r, (w', es))"
      using assms(3) mk unfolding ApplyEventBatch_def tracedEnv_sel EnsureVolumePath_bind [OF assms(1)]
      by (auto simp: tracedOs_sel io_noisy_def io_bind_def)
    from foreach_removals [OF proper assms(2) coalesced_target [OF proper] this] show ?thesis by simp
  qed
qed

section \<open>What a full synchronisation does to the replica\<close>

definition backupDirectory :: "VolumePath \<Rightarrow> string" where
  "backupDirectory v = pathJoin [Clean (poolPath (vpPool v)), backupRootDir, safeSegment (vpNamespace v), safeSegment (vpName v)]"

definition syncEffect :: "string \<Rightarrow> os_event \<Rightarrow> bool" where
  "syncEffect root e = (case e of
     OsMkdir p \<Rightarrow> p = root
   | OsAttr p \<Rightarrow> inTree root p
   | OsExec name args \<Rightarrow> name = ''rclone'' \<and> inTree root (last args)
   | _ \<Rightarrow> False)"

definition backupEffect :: "VolumePath \<Rightarrow> string \<Rightarrow> os_event \<Rightarrow> bool" where
  "backupEffect v root e = (case e of
     OsMkdir p \<Rightarrow> p = backupDirectory v
   | OsRename p q \<Rightarrow> p = root \<and> (\<exists>t. q = pathJoin [backupDirectory v, FormatStamp t])
   | _ \<Rightarrow> False)"

lemma IsEmptyDir_log [io_inv_intros]: "io_inv (logIs J) (IsEmptyDir (tracedOs os) p)"
  unfolding IsEmptyDir_def tracedOs_sel by (auto intro!: io_inv_intros split: sum.split)

lemma BackupVolumePath_log:
  assumes "ResolveVolumePath v = Inr root" "\<And>e. backupEffect v root e \<Longrightarrow> admits J e"
  shows "io_inv (logIs J) (BackupVolumePath (tracedOs os) v now)"
proof -
  have "admits J (OsMkdir (backupDirectory v))"
    "admits J (OsRename root (pathJoin [backupDirectory v, FormatStamp now]))"
    by (auto intro!: assms(2) simp: backupEffect_def)
  then show ?thesis
    unfolding BackupVolumePath_def assms(1) PoolClean_def Pool.select_convs backupDirectory_def Let_def tracedOs_sel
    by (auto intro!: io_inv_intros io_inv_bind_lift split: sum.split)
qed

lemma command_targets [simp]:
  "cmdName (BuildRcloneFullSyncCommand source sv t filt) = ''rclone''"
  "last (cmdArgs (BuildRcloneFullSyncCommand source sv t filt)) = t"
  "cmdName (BuildRclonePathSyncCommand source p t) = ''rclone''"
  "last (cmdArgs (BuildRclonePathSyncCommand source p t)) = t"
  "cmdName (BuildRcloneCheckCommand source p t) = ''rclone''"
  "last (cmdArgs (BuildRcloneCheckCommand source p t)) = t"
  by (simp_all add: BuildRcloneFullSyncCommand_def BuildRclonePathSyncCommand_def BuildRcloneCheckCommand_def rclone_def)

lemma copyto_target:
  "BuildRcloneCopyToCommand source p t = Inr spec \<Longrightarrow> cmdName spec = ''rclone'' \<and> last (cmdArgs spec) = t"
  by (auto simp: BuildRcloneCopyToCommand_def rclone_def split: sum.splits)

definition allowsCommands :: "string \<Rightarrow> (os_event list \<Rightarrow> bool) \<Rightarrow> bool" where
  "allowsCommands root J \<longleftrightarrow>
     (\<forall>spec. cmdName spec = ''rclone'' \<and> inTree root (last (cmdArgs spec)) \<longrightarrow> admits J (execEvent spec))"

lemma allowsCommandsD:
  "allowsCommands root J \<Longrightarrow> cmdName spec = ''rclone'' \<Longrightarrow> inTree root (last (cmdArgs spec)) \<Longrightarrow> admits J (execEvent spec)"
  by (simp add: allowsCommands_def)

lemma validateFullSyncRequiredPaths_log [io_inv_intros]:
  "io_inv (logIs J) (validateFullSyncRequiredPaths (quietHttp http) source sv required)"
  unfolding validateFullSyncRequiredPaths_def by (auto intro!: io_inv_intros split: sum.split)

lemma forceSyncIncludedFiles_log:
  assumes "properRoot root" "allowsCommands root J"
  shows "io_inv (logIs J) (forceSyncIncludedFiles (tracedEnv env) source sv root includes)"
  unfolding forceSyncIncludedFiles_def
proof (intro io_inv_foreach io_inv_bind_lift)
  fix inc exact
  assume "exactIncludePath inc = Inr exact"
  then have "exact = Some c \<Longrightarrow> inTree root (pathJoin [root, c])" for c
    using normal_target_inTree [OF _ assms(1), of inc] by (auto simp: exactIncludePath_def split: sum.splits if_splits)
  then have "exact = Some c \<Longrightarrow> BuildRcloneCopyToCommand source p (pathJoin [root, c]) = Inr spec \<Longrightarrow>
      admits J (execEvent spec)" for c p spec
    using copyto_target allowsCommandsD [OF assms(2)] by metis
  then show "io_inv (logIs J) (case exact of
         None \<Rightarrow> io_return ()
       | Some clean \<Rightarrow>
           let sourcePath = pathJoin [Trim sv ''/'', clean] in
           io_try (sourcePathExists (envHttp (tracedEnv env)) source sourcePath) (\<lambda>r. case r of
             Inl e \<Rightarrow> io_fail (Wrapf (''check included source path '' @ clean @ '': '') e)
           | Inr exists \<Rightarrow>
               if exists = sourceExistsNo then io_return ()
               else io_bind (io_lift (BuildRcloneCopyToCommand source sourcePath (pathJoin [root, clean]))) (\<lambda>spec.
                 io_try (runFullSyncCommand (envRunner (tracedEnv env)) spec) (\<lambda>r. case r of
                   Inl e \<Rightarrow> if isMissingSourceCopyError e then io_return ()
                     else io_fail (Wrapf (''force sync included file '' @ clean @ '': '') e)
                 | Inr _ \<Rightarrow> io_return ()))))"
    by (auto simp: Let_def intro!: io_inv_intros io_inv_bind_lift split: option.split sum.split)
qed

lemma repairRequiredPath_log:
  assumes "inTree root t" "allowsCommands root J"
  shows "io_inv (logIs J) (repairRequiredPath n (tracedEnv env) source clean p t lastErr)"
  using allowsCommandsD [OF assms(2), of "BuildRclonePathSyncCommand source p t"]
    allowsCommandsD [OF assms(2), of "BuildRcloneCheckCommand source p t"] assms(1)
  by (induction n arbitrary: lastErr)
    (auto simp: Let_def tracedOs_sel intro!: io_inv_intros split: sum.split)

lemma validateFullSyncTargetRequiredPaths_log:
  assumes "properRoot root" "allowsCommands root J"
  shows "io_inv (logIs J) (validateFullSyncTargetRequiredPaths (tracedEnv env) source sv root required)"
  unfolding validateFullSyncTargetRequiredPaths_def validateTargetPath_def
  by (auto intro!: io_inv_intros repairRequiredPath_log [OF _ assms(2)] split: sum.split option.split
      dest: normal_target_inTree [OF _ assms(1)])

text \<open>A log that continues \<open>bk\<close> with changes that satisfy a condition.\<close>

definition continues :: "os_event list \<Rightarrow> (os_event \<Rightarrow> bool) \<Rightarrow> os_event list \<Rightarrow> bool" where
  "continues bk P es \<longleftrightarrow> (\<exists>rest. es = bk @ rest \<and> list_all P rest)"

lemma admits_continues: "P e \<Longrightarrow> admits (continues bk P) e"
  by (force simp: admits_def continues_def)

definition syncAfterBackup :: "'w agent_env \<Rightarrow> Pool \<Rightarrow> FullSyncRequest \<Rightarrow> ('w, unit) io" where
  "syncAfterBackup env pool req =
     io_bind (EnsureVolumePath (envOs env) (volumeAt pool (fsNamespace req) (fsVolume req)) 0x1ED) (\<lambda>targetRoot.
     let sourceVolume = sourceBasePath (fsNamespace req) (fsVolume req) (fsSourceBasePath req) in
     io_bind (validateFullSyncRequiredPaths (envHttp env) (fsSource req) sourceVolume (fsRequiredPaths req)) (\<lambda>_.
     io_bind (runFullSyncCommand (envRunner env)
       (BuildRcloneFullSyncCommand (fsSource req) sourceVolume targetRoot (fullSyncFilter req))) (\<lambda>_.
     io_bind (forceSyncIncludedFiles env (fsSource req) sourceVolume targetRoot (fsIncludePaths req)) (\<lambda>_.
     io_bind (validateFullSyncTargetRequiredPaths env (fsSource req) sourceVolume targetRoot (fsRequiredPaths req)) (\<lambda>_.
     ApplyOwnershipPolicyForFilter (envOs env) targetRoot (fullSyncFilter req) (fsOwnership req))))))"

lemma ApplyFullSync_split:
  assumes "fsVolume req \<noteq> ''''" "srcWebDAVURL (fsSource req) \<noteq> ''''"
  shows "ApplyFullSyncWithToken env pool req token =
    io_bind (if fsBackupExisting req
      then io_bind (timeNow (envOs env)) (\<lambda>now. BackupVolumePath (envOs env) (volumeAt pool (fsNamespace req) (fsVolume req)) now)
      else io_return '''') (\<lambda>_. syncAfterBackup env pool req)"
  using assms by (simp add: ApplyFullSyncWithToken_def syncAfterBackup_def Let_def)

lemma syncAfterBackup_log:
  assumes root: "ResolveVolumePath (volumeAt pool (fsNamespace req) (fsVolume req)) = Inr root"
    and os: "plainListings (envOs env)" "isDirectory (envOs env) root"
    and J: "\<And>e. syncEffect root e \<Longrightarrow> admits J e"
  shows "io_inv (logIs J) (syncAfterBackup (tracedEnv env) pool req)"
proof -
  note proper = volume_root [OF root]
  have cmds: "allowsCommands root J"
    by (auto simp: allowsCommands_def execEvent_def syncEffect_def intro!: J)
  have attrs: "allowsAttrs root J" by (auto simp: allowsAttrs_def syncEffect_def intro!: J)
  have mk: "admits J (OsMkdir root)" by (auto simp: syncEffect_def intro!: J)
  show ?thesis
    unfolding syncAfterBackup_def tracedEnv_sel
    by (rule EnsureVolumePath_log [OF root mk])
      (auto simp: Let_def intro!: io_inv_intros forceSyncIncludedFiles_log [OF proper cmds]
        validateFullSyncTargetRequiredPaths_log [OF proper cmds] allowsCommandsD [OF cmds]
        ApplyOwnershipPolicyForFilter_log [OF proper os attrs])
qed

lemma syncAfterBackup_contained:
  assumes "ResolveVolumePath (volumeAt pool (fsNamespace req) (fsVolume req)) = Inr root"
    and "plainListings (envOs env)" "isDirectory (envOs env) root"
    and "syncAfterBackup (tracedEnv env) pool req (w1, bk) = (r', (w2, es))"
  shows "\<exists>rest. es = bk @ rest \<and> list_all (syncEffect root) rest"
  using io_invD [OF syncAfterBackup_log [OF assms(1-3) admits_continues [of "syncEffect root" _ bk]] _ assms(4)]
  by (simp add: continues_def)

lemma BackupVolumePath_contained:
  assumes "ResolveVolumePath v = Inr root" "BackupVolumePath (tracedOs os) v now (w0, []) = (r, (w1, bk))"
  shows "list_all (backupEffect v root) bk"
  using io_invD [OF BackupVolumePath_log [OF assms(1), of "list_all (backupEffect v root)"] _ assms(2)] by simp

text \<open>A request for a backup either fails in it, or goes on after it.\<close>

lemma ApplyFullSync_backup_cases:
  assumes "\<not> (fsVolume req = '''' \<or> srcWebDAVURL (fsSource req) = '''')" "fsBackupExisting req"
    and "ApplyFullSyncWithToken (tracedEnv env) pool req token (w, []) = (r, (w', es))"
  obtains "es = []"
  | now w0 e bk where "timeNow (envOs env) w = (Inr now, w0)" "es = bk"
      "BackupVolumePath (tracedOs (envOs env)) (volumeAt pool (fsNamespace req) (fsVolume req)) now (w0, []) = (Inl e, (w', bk))"
  | now w0 p w1 bk where "timeNow (envOs env) w = (Inr now, w0)"
      "BackupVolumePath (tracedOs (envOs env)) (volumeAt pool (fsNamespace req) (fsVolume req)) now (w0, []) = (Inr p, (w1, bk))"
      "syncAfterBackup (tracedEnv env) pool req (w1, bk) = (r, (w', es))"
proof -
  obtain t w0 where time: "timeNow (envOs env) w = (t, w0)" by fastforce
  show thesis
  proof (cases t)
    case (Inl e)
    then show thesis
      using assms time that(1) by (auto simp: ApplyFullSync_split tracedOs_sel io_quiet_def io_bind_def)
  next
    case (Inr now)
    obtain b w1 bk where bk: "BackupVolumePath (tracedOs (envOs env)) (volumeAt pool (fsNamespace req) (fsVolume req)) now (w0, []) = (b, (w1, bk))"
      by (metis prod.exhaust)
    with assms time Inr have "(case b of Inl e \<Rightarrow> (Inl e, (w1, bk))
        | Inr _ \<Rightarrow> syncAfterBackup (tracedEnv env) pool req (w1, bk)) = (r, (w', es))"
      by (auto simp: ApplyFullSync_split tracedOs_sel io_quiet_def io_bind_def split: sum.splits)
    then show thesis using that(2,3) time Inr bk by (cases b) auto
  qed
qed


section \<open>Required paths\<close>

text \<open>
  C23. A full synchronisation never starts from a source that lacks a required path: if the
  source does not confirm some required path, or the path is not one the agent accepts, the
  request fails and no command is run.
\<close>

theorem ApplyFullSync_requires_source_paths:
  assumes "required \<in> set (fsRequiredPaths req)"
    and "\<And>c. NormalizeEventPath required = Inr c \<Longrightarrow> io_result (\<lambda>x. x \<noteq> Inr sourceExistsYes)
      (sourcePathExists (envHttp env) (fsSource req)
        (pathJoin [Trim (sourceBasePath (fsNamespace req) (fsVolume req) (fsSourceBasePath req)) ''/'', c]))"
    and "ApplyFullSyncWithToken (tracedEnv env) pool req token (w, []) = (r, (w', es))"
  shows "(\<exists>e. r = Inl e) \<and> (\<forall>name args. OsExec name args \<notin> set es)"
proof (cases "fsVolume req = '''' \<or> srcWebDAVURL (fsSource req) = ''''")
  case True
  then show ?thesis using assms(3) by (auto simp: ApplyFullSyncWithToken_def split: if_splits)
next
  case False
  let ?v = "volumeAt pool (fsNamespace req) (fsVolume req)"
  let ?J = "list_all (\<lambda>e. \<forall>name args. e \<noteq> OsExec name args)"
  let ?check = "validateFullSyncRequiredPaths (quietHttp (envHttp env)) (fsSource req)
      (sourceBasePath (fsNamespace req) (fsVolume req) (fsSourceBasePath req)) (fsRequiredPaths req)"
  have check: "io_fails ?check"
    unfolding validateFullSyncRequiredPaths_def sourcePathExists_quiet
    using assms(2) by (intro io_foreach_fails [OF assms(1)])
      (auto simp: io_result_def io_quiet_def io_defs split: sum.splits prod.splits; metis prod.exhaust fst_conv)

  have mk: "io_inv (logIs ?J) (EnsureVolumePath (tracedOs (envOs env)) ?v 0x1ED)"
    "io_inv (logIs ?J) (BackupVolumePath (tracedOs (envOs env)) ?v now)" for now
    unfolding EnsureVolumePath_def BackupVolumePath_def Let_def tracedOs_sel
    by (auto intro!: io_inv_intros split: sum.split)
  have "io_inv (logIs ?J) (syncAfterBackup (tracedEnv env) pool req)"
    unfolding syncAfterBackup_def tracedEnv_sel Let_def
    by (intro io_inv_bind mk io_inv_bind_failing [OF check]) (rule io_inv_intros)
  then have "io_inv (logIs ?J) (ApplyFullSyncWithToken (tracedEnv env) pool req token)"
    using False mk by (auto simp: ApplyFullSync_split tracedOs_sel intro!: io_inv_intros)
  from io_invD [OF this _ assms(3)] have "?J es" by simp
  moreover have fails: "io_fails (ApplyFullSyncWithToken (tracedEnv env) pool req token)"
  proof -
    have "io_fails (syncAfterBackup (tracedEnv env) pool req)"
      unfolding syncAfterBackup_def tracedEnv_sel Let_def by (rule io_fails_bind(2), rule io_fails_bind(1) [OF check])
    then show ?thesis using False by (auto simp: ApplyFullSync_split intro: io_fails_bind(2))
  qed
  from io_resultD [OF fails assms(3)] calculation show ?thesis by (auto simp: list_all_iff)
qed

text \<open>The attempts at one required path.\<close>

lemma repairRequiredPath_trace:
  assumes "repairRequiredPath n (tracedEnv env) source clean p t lastErr (w, es) = (r, (w', es'))"
  shows "\<exists>fs. es' = es @ fs \<and> length fs \<le> 2 * n \<and> (r = Inr None \<longrightarrow> n = 0 \<and> lastErr = None \<or>
    suffix [execEvent (BuildRclonePathSyncCommand source p t), execEvent (BuildRcloneCheckCommand source p t)] fs)"
  using assms
proof (induction n arbitrary: lastErr w es)
  case (Suc n)
  let ?sync = "BuildRclonePathSyncCommand source p t" and ?check = "BuildRcloneCheckCommand source p t"
  have again: "\<exists>fs. es' = es @ fs \<and> length fs \<le> 2 * Suc n \<and> (r = Inr None \<longrightarrow> Suc n = 0 \<and> lastErr = None \<or>
      suffix [execEvent ?sync, execEvent ?check] fs)"
    if "repairRequiredPath n (tracedEnv env) source clean p t (Some e) (w1, es @ gs) = (r, (w', es'))" "length gs \<le> 2"
    for e w1 gs
  proof -
    from Suc.IH [OF that(1)] obtain fs where "es' = (es @ gs) @ fs" "length fs \<le> 2 * n"
      "r = Inr None \<longrightarrow> suffix [execEvent ?sync, execEvent ?check] fs" by auto
    then show ?thesis using that(2) by (intro exI [of _ "gs @ fs"]) (auto intro: suffix_appendI)
  qed
  obtain r1 w1 where s1: "runFullSyncCommand (envRunner env) ?sync w = (r1, w1)" by fastforce
  show ?case
  proof (cases r1)
    case (Inl e)
    then show ?thesis
      using Suc.prems s1 again [of _ w1 "[execEvent ?sync]"]
      by (auto simp: runFullSyncCommand_traced io_noisy_def io_try_def Let_def)
  next
    case (Inr x)
    obtain r2 w2 where s2: "osStat (envOs env) t w1 = (r2, w2)" by fastforce
    show ?thesis
    proof (cases r2)
      case (Inl e)
      then show ?thesis
        using Suc.prems s1 s2 \<open>r1 = Inr x\<close> again [of _ w2 "[execEvent ?sync]"]
        by (auto simp: runFullSyncCommand_traced tracedOs_sel io_noisy_def io_quiet_def io_try_def Let_def split: if_splits)
    next
      case (Inr i)
      obtain r3 w3 where s3: "runFullSyncCommand (envRunner env) ?check w2 = (r3, w3)" by fastforce
      show ?thesis
        using Suc.prems s1 s2 s3 \<open>r1 = Inr x\<close> Inr again [of _ w3 "[execEvent ?sync, execEvent ?check]"]
        by (cases r3) (auto simp: runFullSyncCommand_traced tracedOs_sel io_noisy_def io_quiet_def io_try_def Let_def)
    qed
  qed
qed simp

text \<open>A path was synchronised and then checked.\<close>

definition syncedAndChecked :: "SourceRef \<Rightarrow> string \<Rightarrow> string \<Rightarrow> string \<Rightarrow> os_event list \<Rightarrow> bool" where
  "syncedAndChecked source sv root p es \<longleftrightarrow> (\<exists>c. NormalizeEventPath p = Inr c \<and>
     sublist [execEvent (BuildRclonePathSyncCommand source (pathJoin [Trim sv ''/'', c]) (pathJoin [root, c])),
       execEvent (BuildRcloneCheckCommand source (pathJoin [Trim sv ''/'', c]) (pathJoin [root, c]))] es)"

lemma syncedAndChecked_append: "syncedAndChecked source sv root p gs \<Longrightarrow> syncedAndChecked source sv root p (fs @ gs @ hs)"
  unfolding syncedAndChecked_def by (meson sublist_appendI sublist_order.order_trans)


section \<open>A concrete replica\<close>

text \<open>
  A file system in memory on which every path is a directory, a source that answers each
  request with the same status, and commands that succeed.
\<close>

definition demoEnv :: "int \<Rightarrow> mworld agent_env" where
  "demoEnv status = \<lparr>
     envOs = memOs\<lparr>osLstat := (\<lambda>_. io_return (mInfo MDir))\<rparr>,
     envHttp = \<lparr>urlError = (\<lambda>_. None), requestError = (\<lambda>_ _. None), headStatus = (\<lambda>_ _ _. io_return status)\<rparr>,
     envRunner = \<lparr>runnerRun = (\<lambda>_. io_return ()), runnerOutput = None\<rparr>\<rparr>"

definition demoSource :: SourceRef where
  "demoSource = \<lparr>srcWebDAVURL = ''http://active:8081'', srcUser = '''', srcPassword = ''''\<rparr>"

definition demoBatch :: EventBatch where
  "demoBatch = \<lparr>ebNamespace = vpNamespace demoVolume, ebVolume = vpName demoVolume, ebGeneration = '''', ebSource = demoSource,
     ebSourceBasePath = '''', ebOwnership = noOwnership\<lparr>owUID := Some 1000\<rparr>, ebDeletesAuthoritative = True, ebEvents = demoEvents\<rparr>"

definition demoSync :: FullSyncRequest where
  "demoSync = \<lparr>fsNamespace = vpNamespace demoVolume, fsVolume = vpName demoVolume, fsSource = demoSource, fsSourceBasePath = '''',
     fsIncludePaths = [], fsExcludePaths = [], fsPruneExcluded = False, fsRequiredPaths = [''a''],
     fsOwnership = noOwnership, fsBackupExisting = True\<rparr>"

lemma plainListings_demo: "plainListings (envOs (demoEnv status))"
  by (auto simp: plainListings_def demoEnv_def memOs_def mReadDir_def io_result_def list_all_iff mPlain_def plainComp_def)

lemma isDirectory_demo: "isDirectory (envOs (demoEnv status)) p"
proof -
  have "IsDir (mInfo MDir)"
    by (simp add: IsDir_def mInfo_def ModeDir_def bit.conj_disj_distrib2 and.commute)
  then show ?thesis by (simp add: isDirectory_def demoEnv_def io_result_def io_return_def)
qed

lemma demoVolume_at: "ResolveVolumePath (volumeAt (vpPool demoVolume) (vpNamespace demoVolume) (vpName demoVolume)) = Inr demoRoot"
  using demoVolume_root by (simp add: demoVolume_def)

lemma demo_missing: "io_result (\<lambda>x. x \<noteq> Inr sourceExistsYes) (sourcePathExists (envHttp (demoEnv 404)) source p)"
  by (auto simp: sourcePathExists_def demoEnv_def Let_def io_result_def io_defs)

lemma demoBatch_root: "ResolveVolumePath (volumeAt (vpPool demoVolume) (ebNamespace demoBatch) (ebVolume demoBatch)) = Inr demoRoot"
  by (simp add: demoBatch_def demoVolume_at)

lemma demoSync_root: "ResolveVolumePath (volumeAt (vpPool demoVolume) (fsNamespace demoSync) (fsVolume demoSync)) = Inr demoRoot"
  by (simp add: demoSync_def demoVolume_at)

theorem ApplyEventBatch_contained_witness:
  "list_all (batchEffect demoRoot demoBatch)
     (snd (snd (ApplyEventBatch (tracedEnv (demoEnv 200)) (vpPool demoVolume) demoBatch (memWorld [], []))))"
  by (rule ApplyEventBatch_contained [OF demoBatch_root plainListings_demo io_run_eta])

theorem ApplyEventBatch_removals_witness:
  "\<exists>n. removals (snd (snd (ApplyEventBatch (tracedEnv (demoEnv 200)) (vpPool demoVolume) demoBatch (memWorld [], [])))) =
    take n [pathJoin [demoRoot, ''a'']]"
  using ApplyEventBatch_removals [OF demoBatch_root plainListings_demo io_run_eta, of 200 "memWorld []"]
  by (auto simp: batchRemovals_def demoBatch_def demoEvents_coalesced EventOpDelete_def)


theorem ApplyFullSync_requires_source_paths_witness:
  "\<exists>e. fst (ApplyFullSyncWithToken (tracedEnv (demoEnv 404)) (vpPool demoVolume) demoSync ''t'' (memWorld [], [])) = Inl e"
  using ApplyFullSync_requires_source_paths [of "''a''" demoSync "demoEnv 404", OF _ demo_missing io_run_eta,
      of "vpPool demoVolume" "''t''" "memWorld []"]
  by (simp add: demoSync_def)


end
