(* ===== verification/Shadow.thy ===== *)
theory Shadow
  imports BatchApply
begin

text \<open>
  Shadow copies, from \<^verbatim>\<open>internal/agent/replication.go\<close>: the local copy of a volume that the
  active node publishes to its replicas, its manifest, and the events that keep it in step
  with the live volume.
\<close>

section \<open>JSON strings\<close>

text \<open>
  \<^verbatim>\<open>encoding/json\<close> quotes a string: quotes, backslashes, control characters and the HTML
  characters are escaped, a byte that is not UTF-8 becomes the replacement character, and the
  two line separators of Unicode are escaped.
\<close>

definition hexDigit :: "nat \<Rightarrow> char" where
  "hexDigit n = ''0123456789abcdef'' ! (n mod 16)"

definition jsonAscii :: "char \<Rightarrow> string" where
  "jsonAscii c =
     (if c = CHR 0x22 \<or> c = CHR 0x5C then [CHR 0x5C, c]
      else if c = CHR 0x08 then [CHR 0x5C, CHR ''b'']
      else if c = CHR 0x0C then [CHR 0x5C, CHR ''f'']
      else if c = CHR 0x0A then [CHR 0x5C, CHR ''n'']
      else if c = CHR 0x0D then [CHR 0x5C, CHR ''r'']
      else if c = CHR 0x09 then [CHR 0x5C, CHR ''t'']
      else if byte c < 32 \<or> c = CHR ''<'' \<or> c = CHR ''>'' \<or> c = CHR ''&''
        then [CHR 0x5C] @ ''u00'' @ [hexDigit (byte c div 16), hexDigit (byte c)]
      else [c])"

function jsonChars :: "string \<Rightarrow> string" where
  "jsonChars [] = []"
| "jsonChars (c # s) =
     (if byte c < 128 then jsonAscii c @ jsonChars s
      else let (r, n) = DecodeRune (c # s) in
        (if r = 65533 \<and> n = 1 then [CHR 0x5C] @ ''ufffd''
         else if r = 8232 \<or> r = 8233 then [CHR 0x5C] @ ''u202'' @ [hexDigit r]
         else take n (c # s)) @ jsonChars (drop n (c # s)))"
  by pat_completeness auto
termination
proof (relation "measure length")
  fix c :: char and s x y z
  assume "x = DecodeRune (c # s)" "(y, z) = x"
  then show "(drop z (c # s), c # s) \<in> measure length"
    using DecodeRune_width [of "c # s"] by (metis drop_eq_Nil2 in_measure length_drop diff_less length_greater_0_conv
        less_eq_Suc_le list.discI One_nat_def snd_conv)
qed simp_all

definition jsonQuote :: "string \<Rightarrow> string" where
  "jsonQuote s = [CHR 0x22] @ jsonChars s @ [CHR 0x22]"

text \<open>\<^verbatim>\<open>json.MarshalIndent\<close> of a map of strings: its keys in order, two spaces of indentation.\<close>

definition jsonField :: "string \<times> string \<Rightarrow> string" where
  "jsonField kv = ''  '' @ jsonQuote (fst kv) @ '': '' @ jsonQuote (snd kv)"

definition jsonObject :: "(string \<times> string) list \<Rightarrow> string" where
  "jsonObject kvs = [CHR ''{'', CHR 0x0A] @ Join ([CHR '','', CHR 0x0A]) (map jsonField kvs) @ [CHR 0x0A, CHR ''}'']"

section \<open>Preparing a shadow\<close>

record ShadowPrepareRequest =
  spNamespace :: string
  spVolume :: string
  spIncludePaths :: "string list"
  spExcludePaths :: "string list"
  spPruneExcluded :: bool
  spRequiredPaths :: "string list"

record ShadowPrepareResponse =
  srNamespace :: string
  srVolume :: string
  srSourceBasePath :: string
  srGeneration :: string
  srOK :: bool

definition ConsistencyModeLive :: string where "ConsistencyModeLive = ''live''"
definition ConsistencyModeShadow :: string where "ConsistencyModeShadow = ''shadow''"

definition validateRequiredLocalPaths :: "'w os_api \<Rightarrow> string \<Rightarrow> string list \<Rightarrow> ('w, unit) io" where
  "validateRequiredLocalPaths os root requiredPaths =
     io_foreach (\<lambda>required. case NormalizeEventPath required of
       Inl e \<Rightarrow> io_fail (Wrapf (''required path '' @ required @ '': '') e)
     | Inr clean \<Rightarrow> io_try (osStat os (pathJoin [root, clean])) (\<lambda>r. case r of
         Inl e \<Rightarrow> if IsNotExist e then io_fail (Errorf (''required shadow path missing: '' @ clean)) else io_fail e
       | Inr _ \<Rightarrow> io_return ())) requiredPaths"

definition manifestPayload :: "string \<Rightarrow> string \<Rightarrow> string \<Rightarrow> string" where
  "manifestPayload namespace volume generation = jsonObject
     [(''createdAt'', generation), (''generation'', generation), (''mode'', ConsistencyModeShadow),
      (''namespace'', namespace), (''volume'', volume)] @ [CHR 0x0A]"

definition manifestPath :: "string \<Rightarrow> string" where
  "manifestPath shadowRoot = pathJoin [pathDir shadowRoot, shadowManifestName]"

definition PrepareShadow :: "'w agent_env \<Rightarrow> Pool \<Rightarrow> ShadowPrepareRequest \<Rightarrow> ('w, ShadowPrepareResponse) io" where
  "PrepareShadow env pool req =
     (if spVolume req = '''' then io_fail (Errorf ''volume is required'')
      else
        io_bind (io_lift (ResolveVolumePath (volumeAt pool (spNamespace req) (spVolume req)))) (\<lambda>liveRoot.
        io_bind (osStat (envOs env) liveRoot) (\<lambda>_.
        io_bind (validateRequiredLocalPaths (envOs env) liveRoot (spRequiredPaths req)) (\<lambda>_.
        io_bind (EnsureShadowPath (envOs env) pool (spNamespace req) (spVolume req)) (\<lambda>shadowRoot.
        let manifest = manifestPath shadowRoot;
            filt = \<lparr>IncludePaths = spIncludePaths req, ExcludePaths = spExcludePaths req, PruneExcluded = spPruneExcluded req\<rparr> in
        io_try (osRemove (envOs env) manifest) (\<lambda>_.
        io_bind (runFullSyncCommand (envRunner env) (BuildRcloneLocalSyncCommand liveRoot shadowRoot filt)) (\<lambda>_.
        io_bind (validateRequiredLocalPaths (envOs env) shadowRoot (spRequiredPaths req)) (\<lambda>_.
        io_bind (timeNow (envOs env)) (\<lambda>now.
        let generation = FormatRFC3339Nano now in
        io_bind (osWriteFile (envOs env) manifest (manifestPayload (spNamespace req) (spVolume req) generation) 0x1A4) (\<lambda>_.
        io_return \<lparr>srNamespace = spNamespace req, srVolume = spVolume req,
          srSourceBasePath = ShadowSourceBasePath (spNamespace req) (spVolume req),
          srGeneration = generation, srOK = True\<rparr>))))))))))"

section \<open>Keeping a shadow in step\<close>

text \<open>One event: what it does to the shadow, and the event passed on to the replicas, if any.\<close>

definition shadowEvent :: "'w agent_env \<Rightarrow> string \<Rightarrow> string \<Rightarrow> FileEvent \<Rightarrow> ('w, FileEvent option) io" where
  "shadowEvent env liveRoot shadowRoot event =
     (let os = envOs env; sourcePath = pathJoin [liveRoot, evPath event]; shadowPath = pathJoin [shadowRoot, evPath event];
          gone = io_bind (osRemoveAll os shadowPath) (\<lambda>_.
            io_return (Some \<lparr>evPath = evPath event, evOp = EventOpDelete\<rparr>))
      in
      io_bind (io_lift (ensurePathInside liveRoot sourcePath)) (\<lambda>_.
      io_bind (io_lift (ensurePathInside shadowRoot shadowPath)) (\<lambda>_.
      if evOp event = EventOpDelete then io_bind (osRemoveAll os shadowPath) (\<lambda>_. io_return (Some event))
      else
        io_try (osLstat os sourcePath) (\<lambda>r. case r of
          Inl e \<Rightarrow> if IsNotExist e then gone else io_fail e
        | Inr info \<Rightarrow>
            if IsDir info \<and> \<not> IsSymlink info then io_return None
            else
              io_bind (osMkdirAll os (pathDir shadowPath) 0x1ED) (\<lambda>_.
              io_try (runFullSyncCommand (envRunner env) (BuildRcloneLocalCopyToCommand sourcePath shadowPath)) (\<lambda>c. case c of
                Inl e \<Rightarrow> io_try (osLstat os sourcePath) (\<lambda>st.
                  if (case st of Inl statErr \<Rightarrow> IsNotExist statErr | Inr _ \<Rightarrow> False) \<or> isMissingSourceCopyError e
                  then gone else io_fail e)
              | Inr _ \<Rightarrow> io_return (Some \<lparr>evPath = evPath event, evOp = EventOpUpsert\<rparr>)))))))"

fun shadowLoop :: "'w agent_env \<Rightarrow> string \<Rightarrow> string \<Rightarrow> FileEvent list \<Rightarrow> FileEvent list \<Rightarrow> ('w, FileEvent list) io" where
  "shadowLoop env liveRoot shadowRoot outEvents [] = io_return outEvents"
| "shadowLoop env liveRoot shadowRoot outEvents (event # events) =
     io_bind (shadowEvent env liveRoot shadowRoot event) (\<lambda>res.
     shadowLoop env liveRoot shadowRoot (case res of None \<Rightarrow> outEvents | Some ev \<Rightarrow> outEvents @ [ev]) events)"

definition ApplyShadowEventBatch :: "'w agent_env \<Rightarrow> Pool \<Rightarrow> EventBatch \<Rightarrow> PathFilter \<Rightarrow> ('w, EventBatch) io" where
  "ApplyShadowEventBatch env pool batch filt =
     io_bind (io_lift (ResolveVolumePath (volumeAt pool (ebNamespace batch) (ebVolume batch)))) (\<lambda>liveRoot.
     io_bind (EnsureShadowPath (envOs env) pool (ebNamespace batch) (ebVolume batch)) (\<lambda>shadowRoot.
     io_bind (shadowLoop env liveRoot shadowRoot [] (CoalesceEvents (ebEvents batch) filt)) (\<lambda>outEvents.
     io_bind (if ebGeneration batch = '''' then io_bind (timeNow (envOs env)) (\<lambda>now. io_return (FormatRFC3339Nano now))
              else io_return (ebGeneration batch)) (\<lambda>generation.
     io_return (batch\<lparr>ebGeneration := generation,
       ebSourceBasePath := ShadowSourceBasePath (ebNamespace batch) (ebVolume batch),
       ebDeletesAuthoritative := True, ebEvents := outEvents\<rparr>)))))"

section \<open>Publishing is the last step\<close>

lemma validateRequiredLocalPaths_quiet:
  "validateRequiredLocalPaths (tracedOs os) root required = io_quiet (validateRequiredLocalPaths os root required)"
  unfolding validateRequiredLocalPaths_def io_quiet_foreach tracedOs_sel
  by (rule arg_cong [where f = "\<lambda>f. io_foreach f required"])
    (auto simp: fun_eq_iff io_quiet_try intro!: arg_cong2 [where f = io_try] fun_cong [where f = "io_try _ _"] split: sum.split)

definition shadowTrace :: "string \<Rightarrow> string \<Rightarrow> ShadowPrepareRequest \<Rightarrow> string \<Rightarrow> os_event list" where
  "shadowTrace liveRoot shadowRoot req generation =
     [OsMkdir shadowRoot, OsRemove (manifestPath shadowRoot),
      execEvent (BuildRcloneLocalSyncCommand liveRoot shadowRoot
        \<lparr>IncludePaths = spIncludePaths req, ExcludePaths = spExcludePaths req, PruneExcluded = spPruneExcluded req\<rparr>),
      OsWrite (manifestPath shadowRoot) (manifestPayload (spNamespace req) (spVolume req) generation)]"

lemma EnsureShadowPath_bind:
  assumes "ResolveShadowPath pool ns v = Inr root"
  shows "io_bind (EnsureShadowPath os pool ns v) f = io_bind (osMkdirAll os root 0x1ED) (\<lambda>_. f root)"
  using assms by (auto simp: EnsureShadowPath_def io_defs fun_eq_iff split: prod.splits sum.splits)


section \<open>The shadow and the replicas stay in step\<close>

definition shadowEffect :: "string \<Rightarrow> string \<Rightarrow> os_event \<Rightarrow> bool" where
  "shadowEffect liveRoot shadowRoot e = (case e of
     OsMkdir p \<Rightarrow> inTree shadowRoot p
   | OsRemoveAll p \<Rightarrow> belowTree shadowRoot p
   | OsExec name args \<Rightarrow> (\<exists>p. belowTree liveRoot (pathJoin [liveRoot, p]) \<and> belowTree shadowRoot (pathJoin [shadowRoot, p]) \<and>
       OsExec name args = execEvent (BuildRcloneLocalCopyToCommand (pathJoin [liveRoot, p]) (pathJoin [shadowRoot, p])))
   | _ \<Rightarrow> False)"

text \<open>What a replica is told about an event, against what was done to the shadow.\<close>

definition shadowReport :: "string \<Rightarrow> string \<Rightarrow> FileEvent \<Rightarrow> FileEvent option \<Rightarrow> os_event list \<Rightarrow> bool" where
  "shadowReport liveRoot shadowRoot event res fs = (case res of
     None \<Rightarrow> removals fs = []
   | Some ev \<Rightarrow> evPath ev = evPath event \<and>
       (if evOp ev = EventOpDelete then removals fs = [eventTarget shadowRoot event]
        else removals fs = [] \<and> evOp ev = EventOpUpsert \<and>
          execEvent (BuildRcloneLocalCopyToCommand (eventTarget liveRoot event) (eventTarget shadowRoot event)) \<in> set fs))"

lemma removals_Cons: "removals (e # es) = removals [e] @ removals es"
  using removals_append [of "[e]" es] by simp

lemma pathDir_inTree:
  assumes "properRoot root" "belowTree root p"
  shows "inTree root (pathDir p)"
proof -
  obtain ws where ws: "list_all plainComp ws" "ws \<noteq> []" "p = treePath root ws" using assms(2) by (rule belowTreeE)
  then show ?thesis by (simp add: pathDir_treePath [OF assms(1) ws(1,2)] inTreeI list_all_butlast)
qed

lemma shadowEvent_trace:
  assumes live: "properRoot liveRoot" "belowTree liveRoot (eventTarget liveRoot event)"
    and shadow: "properRoot shadowRoot" "belowTree shadowRoot (eventTarget shadowRoot event)"
    and run: "shadowEvent (tracedEnv env) liveRoot shadowRoot event (w, es) = (r, (w', es'))"
  shows "\<exists>fs. es' = es @ fs \<and> list_all (shadowEffect liveRoot shadowRoot) fs \<and>
    (\<forall>res. r = Inr res \<longrightarrow> shadowReport liveRoot shadowRoot event res fs)"
proof -
  have effects: "shadowEffect liveRoot shadowRoot (OsRemoveAll (eventTarget shadowRoot event))"
    "shadowEffect liveRoot shadowRoot (OsMkdir (pathDir (eventTarget shadowRoot event)))"
    "shadowEffect liveRoot shadowRoot
       (execEvent (BuildRcloneLocalCopyToCommand (eventTarget liveRoot event) (eventTarget shadowRoot event)))"
    using live shadow pathDir_inTree [OF shadow] by (auto simp: shadowEffect_def execEvent_def)
  have distinct: "EventOpUpsert \<noteq> EventOpDelete" by (simp add: EventOpUpsert_def EventOpDelete_def)
  have exec: "(case execEvent spec of OsRemoveAll p \<Rightarrow> [p] | _ \<Rightarrow> []) = []" for spec by (simp add: execEvent_def)
  have inside: "ensurePathInside liveRoot (eventTarget liveRoot event) = Inr ()"
    "ensurePathInside shadowRoot (eventTarget shadowRoot event) = Inr ()"
    using live shadow by (auto simp: ensurePathInside_inTree belowTree_inTree)
  show ?thesis
    using run
    unfolding shadowEvent_def Let_def inside tracedEnv_sel tracedOs_sel runFullSyncCommand_traced
    by (auto simp: io_quiet_def io_noisy_def io_defs shadowReport_def effects distinct exec removals_Cons [of _ "_ # _"]
        split: if_splits prod.splits sum.splits)
qed

text \<open>The events reported so far against the changes made to the shadow.\<close>

definition inStep :: "string \<Rightarrow> string \<Rightarrow> FileEvent list \<Rightarrow> os_event list \<Rightarrow> bool" where
  "inStep liveRoot shadowRoot news fs \<longleftrightarrow>
     removals fs = map (eventTarget shadowRoot) (filter (\<lambda>ev. evOp ev = EventOpDelete) news) \<and>
     (\<forall>ev \<in> set news. evOp ev \<noteq> EventOpDelete \<longrightarrow> evOp ev = EventOpUpsert \<and>
        execEvent (BuildRcloneLocalCopyToCommand (eventTarget liveRoot ev) (eventTarget shadowRoot ev)) \<in> set fs)"

lemma inStep_append:
  "inStep liveRoot shadowRoot xs fs \<Longrightarrow> inStep liveRoot shadowRoot ys gs \<Longrightarrow> inStep liveRoot shadowRoot (xs @ ys) (fs @ gs)"
  unfolding inStep_def by auto

lemma shadowReport_inStep:
  "shadowReport liveRoot shadowRoot event res fs \<Longrightarrow>
     inStep liveRoot shadowRoot (case res of None \<Rightarrow> [] | Some ev \<Rightarrow> [ev]) fs \<and>
     subseq (map evPath (case res of None \<Rightarrow> [] | Some ev \<Rightarrow> [ev])) [evPath event]"
  by (auto simp: shadowReport_def inStep_def split: option.splits if_splits)

lemma shadowLoop_trace:
  assumes roots: "properRoot liveRoot" "properRoot shadowRoot"
    and below: "\<And>ev. ev \<in> set events \<Longrightarrow> belowTree liveRoot (eventTarget liveRoot ev) \<and> belowTree shadowRoot (eventTarget shadowRoot ev)"
    and run: "shadowLoop (tracedEnv env) liveRoot shadowRoot out events (w, es) = (r, (w', es'))"
  shows "\<exists>fs. es' = es @ fs \<and> list_all (shadowEffect liveRoot shadowRoot) fs \<and>
    (\<forall>res. r = Inr res \<longrightarrow> (\<exists>news. res = out @ news \<and> subseq (map evPath news) (map evPath events) \<and>
       inStep liveRoot shadowRoot news fs))"
  using below run
proof (induction events arbitrary: out w es)
  case Nil
  then show ?case by (auto simp: inStep_def)
next
  case (Cons event events)
  obtain x w1 es1 where step: "shadowEvent (tracedEnv env) liveRoot shadowRoot event (w, es) = (x, (w1, es1))"
    by (metis prod.exhaust)
  have b: "belowTree liveRoot (eventTarget liveRoot event)" "belowTree shadowRoot (eventTarget shadowRoot event)"
    using Cons.prems(1) by auto
  obtain fs where fs: "es1 = es @ fs" "list_all (shadowEffect liveRoot shadowRoot) fs"
    "\<forall>res. x = Inr res \<longrightarrow> shadowReport liveRoot shadowRoot event res fs"
    using shadowEvent_trace [OF roots(1) b(1) roots(2) b(2) step] by blast
  show ?case
  proof (cases x)
    case (Inl e)
    with Cons.prems(2) step fs show ?thesis by (auto simp: io_bind_def)
  next
    case (Inr res)
    let ?new = "case res of None \<Rightarrow> [] | Some ev \<Rightarrow> [ev]"
    have out: "(case res of None \<Rightarrow> out | Some ev \<Rightarrow> out @ [ev]) = out @ ?new" by (cases res) auto
    from Cons.prems(2) step Inr have "shadowLoop (tracedEnv env) liveRoot shadowRoot (out @ ?new) events (w1, es1) = (r, (w', es'))"
      by (simp add: io_bind_def out)
    from Cons.IH [OF _ this] Cons.prems(1) obtain gs where gs: "es' = es1 @ gs" "list_all (shadowEffect liveRoot shadowRoot) gs"
      "\<forall>res. r = Inr res \<longrightarrow> (\<exists>news. res = (out @ ?new) @ news \<and> subseq (map evPath news) (map evPath events) \<and>
         inStep liveRoot shadowRoot news gs)" by auto
    have rep: "inStep liveRoot shadowRoot ?new fs" "subseq (map evPath ?new) [evPath event]"
      using shadowReport_inStep fs(3) Inr by blast+
    have "\<exists>news. y = out @ news \<and> subseq (map evPath news) (map evPath (event # events)) \<and>
        inStep liveRoot shadowRoot news (fs @ gs)" if "r = Inr y" for y
    proof -
      from gs(3) that obtain news where n: "y = out @ ?new @ news" "subseq (map evPath news) (map evPath events)"
        "inStep liveRoot shadowRoot news gs" by auto
      have "subseq (map evPath ?new @ map evPath news) ([evPath event] @ map evPath events)"
        by (rule list_emb_append_mono [OF rep(2) n(2)])
      then show ?thesis
        using n inStep_append [OF rep(1) n(3)] by (intro exI [of _ "?new @ news"]) simp
    qed
    then show ?thesis using fs gs by (intro exI [of _ "fs @ gs"]) auto
  qed
qed


definition demoShadow :: string where
  "demoShadow = Clean ''/pool'' @ ''/'' @ Join ''/'' (shadowComps ''games'' ''../etc'')"

definition demoPrepare :: ShadowPrepareRequest where
  "demoPrepare = \<lparr>spNamespace = ''games'', spVolume = ''../etc'', spIncludePaths = [], spExcludePaths = [],
     spPruneExcluded = False, spRequiredPaths = [''a'']\<rparr>"

lemma demoShadow_root: "ResolveShadowPath (vpPool demoVolume) ''games'' ''../etc'' = Inr demoShadow"
  using demoPool_valid by (subst ResolveShadowPath_Inr) (simp add: demoVolume_def demoShadow_def)

lemma demo_names: "vpNamespace demoVolume = ''games''" "vpName demoVolume = ''../etc''"
  by (simp_all add: demoVolume_def)



end
