(* ===== verification/WatchManager.thy ===== *)
theory WatchManager
  imports Shadow GoDuration
begin

text \<open>
  \<^verbatim>\<open>internal/agent/watch_manager.go\<close>: the watches of a node, their status, and the delivery
  of batches to the replicas. Watches are heap objects that the manager's map and the
  watching goroutines share; the heap is a list and a watch its index. Where the code stores
  the text of an error, the model stores the error. Counters are 64-bit words.
\<close>

section \<open>Requests and status\<close>

record TargetRef =
  trURL :: string
  trToken :: string

record WatchStartRequest =
  wsNamespace :: string
  wsVolume :: string
  wsSource :: SourceRef
  wsTargets :: "TargetRef list"
  wsIncludePaths :: "string list"
  wsExcludePaths :: "string list"
  wsOwnership :: OwnershipPolicy
  wsDebounce :: string
  wsConsistencyMode :: string
  wsConfirmedReplicas :: "int option"

record WatchStopRequest =
  wpNamespace :: string
  wpVolume :: string

record TargetStatus =
  tsURL :: string
  tsLastSuccessfulSync :: "time option"
  tsLastObservedGeneration :: string
  tsLastError :: "go_error option"
  tsDeliveredBatchCount :: "64 word"
  tsDeliveredEventCount :: "64 word"
  tsDeliveryFailureCount :: "64 word"

record WatchStatus =
  stNamespace :: string
  stVolume :: string
  stSource :: SourceRef
  stTargets :: "TargetRef list"
  stTargetStatuses :: "TargetStatus list"
  stIncludePaths :: "string list"
  stExcludePaths :: "string list"
  stOwnership :: OwnershipPolicy
  stConsistencyMode :: string
  stConfirmedReplicas :: int
  stRunning :: bool
  stStartedAt :: time
  stStoppedAt :: "time option"
  stLastBatchAt :: "time option"
  stLastBatchEventCount :: nat
  stLastBatchGeneration :: string
  stLastDeliveryError :: "go_error option"
  stLastWatchError :: "go_error option"
  stDeliveredBatchCount :: "64 word"
  stDeliveredEventCount :: "64 word"
  stDeliveryFailureCount :: "64 word"

record WatchConfig =
  wcPool :: Pool
  wcNamespace :: string
  wcVolume :: string
  wcIncludePaths :: "string list"
  wcExcludePaths :: "string list"
  wcDebounce :: duration
  wcRescan :: duration

section \<open>Helpers\<close>

definition watchKey :: "string \<Rightarrow> string \<Rightarrow> string" where
  "watchKey namespace volume = namespace @ ''/'' @ volume"

definition parseOptionalDuration :: "string \<Rightarrow> duration \<Rightarrow> duration option" where
  "parseOptionalDuration value fallback =
     (let v = TrimSpace value in if v = '''' then Some fallback else ParseDuration v)"

definition normalizeConsistencyMode :: "string \<Rightarrow> string" where
  "normalizeConsistencyMode value =
     (let v = ToLower (TrimSpace value) in
      if v = '''' \<or> v = ConsistencyModeShadow then ConsistencyModeShadow
      else if v = ConsistencyModeLive then ConsistencyModeLive
      else ConsistencyModeShadow)"

definition confirmationThreshold :: "int \<Rightarrow> int \<Rightarrow> int" where
  "confirmationThreshold value targets =
     (if value \<le> 0 then 0 else if targets > 0 \<and> value > targets then targets else value)"

definition defaultConfirmedReplicas :: "int option \<Rightarrow> int \<Rightarrow> int" where
  "defaultConfirmedReplicas value targets = (case value of
     None \<Rightarrow> confirmationThreshold 1 targets
   | Some v \<Rightarrow> confirmationThreshold v targets)"

definition newTargetStatus :: "string \<Rightarrow> TargetStatus" where
  "newTargetStatus url = \<lparr>tsURL = url, tsLastSuccessfulSync = None, tsLastObservedGeneration = '''', tsLastError = None,
     tsDeliveredBatchCount = 0, tsDeliveredEventCount = 0, tsDeliveryFailureCount = 0\<rparr>"

definition initialTargetStatuses :: "TargetRef list \<Rightarrow> TargetStatus list" where
  "initialTargetStatuses targets = map (\<lambda>target. newTargetStatus (trURL target)) targets"

text \<open>
  \<^verbatim>\<open>ensureTargetStatus\<close> returns a pointer to the first status of the URL, appending one if
  there is none; here the change made through the pointer is an argument.
\<close>

fun updateTargetStatus :: "string \<Rightarrow> (TargetStatus \<Rightarrow> TargetStatus) \<Rightarrow> TargetStatus list \<Rightarrow> TargetStatus list" where
  "updateTargetStatus url f [] = [f (newTargetStatus url)]"
| "updateTargetStatus url f (t # ts) = (if tsURL t = url then f t # ts else t # updateTargetStatus url f ts)"

section \<open>The manager\<close>

text \<open>A watch, with the arguments its goroutine was started with.\<close>

record watchRun =
  wrKey :: string
  wrConfig :: WatchConfig
  wrSource :: SourceRef
  wrTargets :: "TargetRef list"
  wrOwnership :: OwnershipPolicy
  wrConsistencyMode :: string
  wrConfirmedReplicas :: int

record managedWatch =
  mwCancelled :: bool
  mwStatus :: WatchStatus
  mwRun :: watchRun

record watchManager =
  wmHeap :: "managedWatch list"
  wmWatches :: "(string, nat) gomap"

definition NewWatchManager :: watchManager where
  "NewWatchManager = \<lparr>wmHeap = [], wmWatches = []\<rparr>"

definition updWatch :: "nat \<Rightarrow> (managedWatch \<Rightarrow> managedWatch) \<Rightarrow> watchManager \<Rightarrow> watchManager" where
  "updWatch i f m = m\<lparr>wmHeap := (wmHeap m)[i := f (wmHeap m ! i)]\<rparr>"

definition updStatus :: "nat \<Rightarrow> (WatchStatus \<Rightarrow> WatchStatus) \<Rightarrow> watchManager \<Rightarrow> watchManager" where
  "updStatus i f = updWatch i (\<lambda>w. w\<lparr>mwStatus := f (mwStatus w)\<rparr>)"

definition cancelWatch :: "managedWatch \<Rightarrow> managedWatch" where
  "cancelWatch w = w\<lparr>mwCancelled := True\<rparr>"

text \<open>\<^verbatim>\<open>Start\<close>: the checks, and the critical section that replaces the watch of the volume.\<close>

definition initialStatus :: "WatchStartRequest \<Rightarrow> time \<Rightarrow> WatchStatus" where
  "initialStatus req now = \<lparr>stNamespace = wsNamespace req, stVolume = wsVolume req, stSource = wsSource req,
     stTargets = wsTargets req, stTargetStatuses = initialTargetStatuses (wsTargets req),
     stIncludePaths = wsIncludePaths req, stExcludePaths = wsExcludePaths req, stOwnership = wsOwnership req,
     stConsistencyMode = normalizeConsistencyMode (wsConsistencyMode req),
     stConfirmedReplicas = defaultConfirmedReplicas (wsConfirmedReplicas req) (int (length (wsTargets req))),
     stRunning = True, stStartedAt = now, stStoppedAt = None, stLastBatchAt = None, stLastBatchEventCount = 0,
     stLastBatchGeneration = '''', stLastDeliveryError = None, stLastWatchError = None,
     stDeliveredBatchCount = 0, stDeliveredEventCount = 0, stDeliveryFailureCount = 0\<rparr>"

definition startRun :: "Pool \<Rightarrow> WatchStartRequest \<Rightarrow> duration \<Rightarrow> watchRun" where
  "startRun pool req debounce = \<lparr>wrKey = watchKey (wsNamespace req) (wsVolume req),
     wrConfig = \<lparr>wcPool = pool, wcNamespace = wsNamespace req, wcVolume = wsVolume req,
       wcIncludePaths = wsIncludePaths req, wcExcludePaths = wsExcludePaths req, wcDebounce = debounce, wcRescan = 0\<rparr>,
     wrSource = wsSource req, wrTargets = wsTargets req, wrOwnership = wsOwnership req,
     wrConsistencyMode = normalizeConsistencyMode (wsConsistencyMode req),
     wrConfirmedReplicas = defaultConfirmedReplicas (wsConfirmedReplicas req) (int (length (wsTargets req)))\<rparr>"

definition checkStart :: "WatchStartRequest \<Rightarrow> go_error + duration" where
  "checkStart req =
     (if wsVolume req = '''' then Inl (Errorf ''volume is required'')
      else if srcWebDAVURL (wsSource req) = '''' then Inl (Errorf ''source.webdavUrl is required'')
      else if wsTargets req = [] then Inl (Errorf ''at least one target is required'')
      else case find (\<lambda>i. TrimSpace (trURL (wsTargets req ! i)) = '''') [0..<length (wsTargets req)] of
        Some i \<Rightarrow> Inl (Errorf (''targets['' @ FormatInt (int i) @ ''].url is required''))
      | None \<Rightarrow> (case parseOptionalDuration (wsDebounce req) (5 * second) of
          None \<Rightarrow> Inl (Wrapf ''debounce: '' (Errorf (''time: invalid duration '' @ wsDebounce req)))
        | Some d \<Rightarrow> Inr d))"

definition installWatch :: "Pool \<Rightarrow> WatchStartRequest \<Rightarrow> duration \<Rightarrow> time \<Rightarrow> watchManager \<Rightarrow> watchManager" where
  "installWatch pool req debounce now m =
     (let key = watchKey (wsNamespace req) (wsVolume req);
          m1 = (case map_of (wmWatches m) key of None \<Rightarrow> m | Some i \<Rightarrow> updWatch i cancelWatch m);
          watch = \<lparr>mwCancelled = False, mwStatus = initialStatus req now, mwRun = startRun pool req debounce\<rparr>
      in m1\<lparr>wmHeap := wmHeap m1 @ [watch], wmWatches := AList.update key (length (wmHeap m1)) (wmWatches m1)\<rparr>)"

definition StartWatch :: "'w os_api \<Rightarrow> Pool \<Rightarrow> WatchStartRequest \<Rightarrow> (watchManager \<times> 'w, WatchStatus) io" where
  "StartWatch os pool req =
     io_bind (io_lift (checkStart req)) (\<lambda>debounce.
     io_bind (io_outside (timeNow os)) (\<lambda>now.
     io_bind (io_modify (installWatch pool req debounce now)) (\<lambda>_.
     io_return (initialStatus req now))))"

text \<open>\<^verbatim>\<open>Stop\<close>, \<^verbatim>\<open>Status\<close> and \<^verbatim>\<open>Statuses\<close>, each one critical section.\<close>

definition stoppedStatus :: "time \<Rightarrow> WatchStatus \<Rightarrow> WatchStatus" where
  "stoppedStatus now st = st\<lparr>stRunning := False, stStoppedAt := Some now\<rparr>"

definition StopWatch :: "string \<Rightarrow> string \<Rightarrow> time \<Rightarrow> watchManager \<Rightarrow> WatchStatus option \<times> watchManager" where
  "StopWatch namespace volume now m = (case map_of (wmWatches m) (watchKey namespace volume) of
     None \<Rightarrow> (None, m)
   | Some i \<Rightarrow>
       let m' = updStatus i (stoppedStatus now) (updWatch i cancelWatch m)
       in (Some (mwStatus (wmHeap m' ! i)), m'))"

definition watchStatusOf :: "string \<Rightarrow> string \<Rightarrow> watchManager \<Rightarrow> WatchStatus option" where
  "watchStatusOf namespace volume m =
     map_option (\<lambda>i. mwStatus (wmHeap m ! i)) (map_of (wmWatches m) (watchKey namespace volume))"

definition watchStatuses :: "watchManager \<Rightarrow> WatchStatus list" where
  "watchStatuses m = map (\<lambda>(key, i). mwStatus (wmHeap m ! i)) (wmWatches m)"

section \<open>Delivery\<close>

text \<open>A goroutine changes the status of its watch only while the manager's map holds it.\<close>

definition ifCurrent :: "string \<Rightarrow> nat \<Rightarrow> (WatchStatus \<Rightarrow> WatchStatus) \<Rightarrow> watchManager \<Rightarrow> watchManager" where
  "ifCurrent key i f m = (if map_of (wmWatches m) key \<noteq> Some i then m else updStatus i f m)"

definition targetDelivered :: "time \<Rightarrow> EventBatch \<Rightarrow> TargetStatus \<Rightarrow> TargetStatus" where
  "targetDelivered now batch t = t\<lparr>tsLastSuccessfulSync := Some now, tsLastObservedGeneration := ebGeneration batch,
     tsDeliveredBatchCount := tsDeliveredBatchCount t + 1,
     tsDeliveredEventCount := tsDeliveredEventCount t + of_nat (length (ebEvents batch)), tsLastError := None\<rparr>"

definition batchDelivered :: "time \<Rightarrow> TargetRef \<Rightarrow> EventBatch \<Rightarrow> WatchStatus \<Rightarrow> WatchStatus" where
  "batchDelivered now target batch st = st\<lparr>stLastBatchAt := Some now, stLastBatchEventCount := length (ebEvents batch),
     stLastBatchGeneration := ebGeneration batch, stDeliveredBatchCount := stDeliveredBatchCount st + 1,
     stDeliveredEventCount := stDeliveredEventCount st + of_nat (length (ebEvents batch)), stLastDeliveryError := None,
     stTargetStatuses := updateTargetStatus (trURL target) (targetDelivered now batch) (stTargetStatuses st)\<rparr>"

definition recordDeliverySuccess :: "string \<Rightarrow> nat \<Rightarrow> time \<Rightarrow> TargetRef \<Rightarrow> EventBatch \<Rightarrow> watchManager \<Rightarrow> watchManager" where
  "recordDeliverySuccess key i now target batch = ifCurrent key i (batchDelivered now target batch)"

definition targetFailed :: "go_error \<Rightarrow> TargetStatus \<Rightarrow> TargetStatus" where
  "targetFailed e t = t\<lparr>tsDeliveryFailureCount := tsDeliveryFailureCount t + 1, tsLastError := Some e\<rparr>"

definition deliveryFailed :: "TargetRef \<Rightarrow> go_error \<Rightarrow> WatchStatus \<Rightarrow> WatchStatus" where
  "deliveryFailed target e st = st\<lparr>stDeliveryFailureCount := stDeliveryFailureCount st + 1, stLastDeliveryError := Some e,
     stTargetStatuses := updateTargetStatus (trURL target) (targetFailed e) (stTargetStatuses st)\<rparr>"

definition recordDeliveryError :: "string \<Rightarrow> nat \<Rightarrow> TargetRef \<Rightarrow> go_error \<Rightarrow> watchManager \<Rightarrow> watchManager" where
  "recordDeliveryError key i target e = ifCurrent key i (deliveryFailed target e)"

definition deliveryUnconfirmed :: "EventBatch \<Rightarrow> int \<Rightarrow> int \<Rightarrow> WatchStatus \<Rightarrow> WatchStatus" where
  "deliveryUnconfirmed batch got want st = st\<lparr>stLastBatchAt := None, stLastBatchEventCount := length (ebEvents batch),
     stLastBatchGeneration := ebGeneration batch, stLastDeliveryError := Some (Errorf
       (''generation '' @ ebGeneration batch @ '' only confirmed on '' @ FormatInt got @ ''/'' @ FormatInt want @ '' required replicas''))\<rparr>"

definition recordUnconfirmedDelivery :: "string \<Rightarrow> nat \<Rightarrow> EventBatch \<Rightarrow> int \<Rightarrow> int \<Rightarrow> watchManager \<Rightarrow> watchManager" where
  "recordUnconfirmedDelivery key i batch got want = ifCurrent key i (deliveryUnconfirmed batch got want)"

definition watchEnded :: "time \<Rightarrow> go_error option \<Rightarrow> WatchStatus \<Rightarrow> WatchStatus" where
  "watchEnded now err st = (let st' = stoppedStatus now st in
     case err of None \<Rightarrow> st' | Some e \<Rightarrow> if e \<noteq> ErrCanceled then st'\<lparr>stLastWatchError := Some e\<rparr> else st')"

definition recordStopped :: "string \<Rightarrow> nat \<Rightarrow> time \<Rightarrow> go_error option \<Rightarrow> watchManager \<Rightarrow> watchManager" where
  "recordStopped key i now err = ifCurrent key i (watchEnded now err)"

text \<open>The reply of an HTTP peer: status code, status text, body.\<close>

record http_reply =
  hrStatus :: int
  hrText :: string
  hrBody :: string

definition okStatus :: "int \<Rightarrow> bool" where
  "okStatus code \<longleftrightarrow> \<not> (code < 200 \<or> code \<ge> 300)"

text \<open>\<^verbatim>\<open>HTTPBatchSender.SendBatch\<close>; \<open>post\<close> sends a request with the value of its \<^verbatim>\<open>Authorization\<close> header, if any.\<close>

definition SendBatch ::
    "(string \<Rightarrow> string option \<Rightarrow> EventBatch \<Rightarrow> ('w, http_reply) io) \<Rightarrow> TargetRef \<Rightarrow> EventBatch \<Rightarrow> ('w, unit) io" where
  "SendBatch post target batch =
     (if TrimSpace (trURL target) = '''' then io_fail (Errorf ''target url is required'')
      else io_bind (post (TrimRight (trURL target) ''/'' @ ''/replication/sync-batch'')
          (if trToken target \<noteq> '''' then Some (''Bearer '' @ trToken target) else None) batch) (\<lambda>reply.
        if \<not> okStatus (hrStatus reply)
        then io_fail (Errorf (''target '' @ trURL target @ '' returned '' @ hrText reply @ '': '' @ TrimSpace (take 512 (hrBody reply))))
        else io_return ()))"

text \<open>The loop over the targets; the result are the targets that accepted the batch.\<close>

fun sendToTargets ::
    "(TargetRef \<Rightarrow> EventBatch \<Rightarrow> ('w, unit) io) \<Rightarrow> string \<Rightarrow> nat \<Rightarrow> EventBatch \<Rightarrow> TargetRef list \<Rightarrow>
     (watchManager \<times> 'w, TargetRef list) io" where
  "sendToTargets sender key i batch [] = io_return []"
| "sendToTargets sender key i batch (target # targets) =
     io_try (io_outside (sender target batch)) (\<lambda>r. case r of
       Inl e \<Rightarrow> io_bind (io_modify (recordDeliveryError key i target e)) (\<lambda>_. sendToTargets sender key i batch targets)
     | Inr _ \<Rightarrow> io_bind (sendToTargets sender key i batch targets) (\<lambda>successes. io_return (target # successes)))"

text \<open>The sink of \<^verbatim>\<open>WatchManager.run\<close>: what is done with a batch of events of the watched volume.\<close>

definition deliverBatch ::
    "'w agent_env \<Rightarrow> (TargetRef \<Rightarrow> EventBatch \<Rightarrow> ('w, unit) io) \<Rightarrow> Pool \<Rightarrow> nat \<Rightarrow> watchRun \<Rightarrow> EventBatch \<Rightarrow>
     (watchManager \<times> 'w, unit) io" where
  "deliverBatch env sender pool i run batch0 =
     (let batch1 = batch0\<lparr>ebSource := wrSource run, ebOwnership := wrOwnership run\<rparr>; key = wrKey run in
      io_bind (if wrConsistencyMode run = ConsistencyModeShadow
          then io_outside (ApplyShadowEventBatch env pool batch1 \<lparr>IncludePaths = wcIncludePaths (wrConfig run),
            ExcludePaths = wcExcludePaths (wrConfig run), PruneExcluded = False\<rparr>)
          else io_return batch1) (\<lambda>batch.
      io_bind (sendToTargets sender key i batch (wrTargets run)) (\<lambda>successes.
      let required = confirmationThreshold (wrConfirmedReplicas run) (int (length (wrTargets run))) in
      if int (length successes) < required
      then io_modify (recordUnconfirmedDelivery key i batch (int (length successes)) required)
      else io_foreach (\<lambda>target. io_bind (io_outside (timeNow (envOs env))) (\<lambda>now.
        io_modify (recordDeliverySuccess key i now target batch))) successes)))"

section \<open>The manager under interleaving\<close>

text \<open>
  The critical sections of the manager, in any order: requests start and stop watches, and
  the goroutine of any watch ever started reports at any time, under the key it was started
  with.
\<close>

abbreviation watchAt :: "watchManager \<Rightarrow> nat \<Rightarrow> managedWatch" where
  "watchAt m i \<equiv> wmHeap m ! i"

abbreviation ownKey :: "watchManager \<Rightarrow> nat \<Rightarrow> string" where
  "ownKey m i \<equiv> wrKey (mwRun (watchAt m i))"

inductive wm_step :: "watchManager \<Rightarrow> watchManager \<Rightarrow> bool" where
  start: "checkStart req = Inr debounce \<Longrightarrow> wm_step m (installWatch pool req debounce now m)"
| stop: "wm_step m (snd (StopWatch namespace volume now m))"
| delivered: "i < length (wmHeap m) \<Longrightarrow> wm_step m (recordDeliverySuccess (ownKey m i) i now target batch m)"
| failed: "i < length (wmHeap m) \<Longrightarrow> wm_step m (recordDeliveryError (ownKey m i) i target e m)"
| unconfirmed: "i < length (wmHeap m) \<Longrightarrow> wm_step m (recordUnconfirmedDelivery (ownKey m i) i batch got want m)"
| ended: "i < length (wmHeap m) \<Longrightarrow> wm_step m (recordStopped (ownKey m i) i now err m)"

text \<open>Watch \<open>i\<close> is the one the manager's map holds for its volume.\<close>

definition currentWatch :: "watchManager \<Rightarrow> nat \<Rightarrow> bool" where
  "currentWatch m i \<longleftrightarrow> i < length (wmHeap m) \<and> map_of (wmWatches m) (ownKey m i) = Some i"

text \<open>The counters of a watch are the sums of those of its targets.\<close>

definition balanced :: "WatchStatus \<Rightarrow> bool" where
  "balanced st \<longleftrightarrow>
     stDeliveredBatchCount st = sum_list (map tsDeliveredBatchCount (stTargetStatuses st)) \<and>
     stDeliveredEventCount st = sum_list (map tsDeliveredEventCount (stTargetStatuses st)) \<and>
     stDeliveryFailureCount st = sum_list (map tsDeliveryFailureCount (stTargetStatuses st))"

definition wm_inv :: "watchManager \<Rightarrow> bool" where
  "wm_inv m \<longleftrightarrow>
     (\<forall>key i. map_of (wmWatches m) key = Some i \<longrightarrow> i < length (wmHeap m) \<and> ownKey m i = key) \<and>
     (\<forall>i < length (wmHeap m). balanced (mwStatus (watchAt m i)) \<and>
        (mwCancelled (watchAt m i) \<or> currentWatch m i) \<and>
        (currentWatch m i \<and> stRunning (mwStatus (watchAt m i)) \<longrightarrow> \<not> mwCancelled (watchAt m i)))"

lemma sum_updateTargetStatus:
  fixes g :: "TargetStatus \<Rightarrow> 64 word"
  assumes "\<And>t. g (f t) = g t + d" "g (newTargetStatus url) = 0"
  shows "sum_list (map g (updateTargetStatus url f ts)) = sum_list (map g ts) + d"
  by (induction ts) (use assms in \<open>auto simp: algebra_simps\<close>)

lemma balanced_steps:
  assumes "balanced st"
  shows "balanced (batchDelivered now target batch st)" "balanced (deliveryFailed target e st)"
    "balanced (deliveryUnconfirmed batch got want st)" "balanced (watchEnded now err st)" "balanced (stoppedStatus now st)"
  using assms
    sum_updateTargetStatus [of tsDeliveredBatchCount "targetDelivered now batch" 1 "trURL target"]
    sum_updateTargetStatus [of tsDeliveredEventCount "targetDelivered now batch" "of_nat (length (ebEvents batch))" "trURL target"]
    sum_updateTargetStatus [of tsDeliveryFailureCount "targetDelivered now batch" 0 "trURL target"]
    sum_updateTargetStatus [of tsDeliveredBatchCount "targetFailed e" 0 "trURL target"]
    sum_updateTargetStatus [of tsDeliveredEventCount "targetFailed e" 0 "trURL target"]
    sum_updateTargetStatus [of tsDeliveryFailureCount "targetFailed e" 1 "trURL target"]
  by (auto simp: balanced_def batchDelivered_def deliveryFailed_def deliveryUnconfirmed_def watchEnded_def stoppedStatus_def
      targetDelivered_def targetFailed_def newTargetStatus_def Let_def split: option.split)

lemma running_steps:
  "stRunning (batchDelivered now target batch st) = stRunning st" "stRunning (deliveryFailed target e st) = stRunning st"
  "stRunning (deliveryUnconfirmed batch got want st) = stRunning st" "\<not> stRunning (watchEnded now err st)"
  by (auto simp: batchDelivered_def deliveryFailed_def deliveryUnconfirmed_def watchEnded_def stoppedStatus_def Let_def
      split: option.split)

lemma ownKey_upd [simp]:
  "wmWatches (updStatus i f m) = wmWatches m" "length (wmHeap (updStatus i f m)) = length (wmHeap m)"
  "wmWatches (updWatch i cancelWatch m) = wmWatches m" "length (wmHeap (updWatch i cancelWatch m)) = length (wmHeap m)"
  by (simp_all add: updStatus_def updWatch_def)

lemma watchAt_upd:
  "j < length (wmHeap m) \<Longrightarrow> watchAt (updStatus i f m) j =
     (if j = i then (watchAt m i)\<lparr>mwStatus := f (mwStatus (watchAt m i))\<rparr> else watchAt m j)"
  "j < length (wmHeap m) \<Longrightarrow> watchAt (updWatch i cancelWatch m) j =
     (if j = i then (watchAt m i)\<lparr>mwCancelled := True\<rparr> else watchAt m j)"
  by (auto simp: updStatus_def updWatch_def cancelWatch_def)

lemma wm_inv_status:
  assumes "wm_inv m" "balanced (mwStatus (watchAt m i)) \<Longrightarrow> balanced (f (mwStatus (watchAt m i)))"
    and "stRunning (f (mwStatus (watchAt m i))) \<Longrightarrow> stRunning (mwStatus (watchAt m i))"
  shows "wm_inv (ifCurrent key i f m)"
  using assms by (auto simp: wm_inv_def ifCurrent_def currentWatch_def watchAt_upd)

lemma wm_inv_stop:
  assumes "wm_inv m"
  shows "wm_inv (snd (StopWatch namespace volume now m))"
proof (cases "map_of (wmWatches m) (watchKey namespace volume)")
  case (Some i)
  then have "i < length (wmHeap m)" using assms by (auto simp: wm_inv_def)
  moreover have "\<not> stRunning (stoppedStatus now st)" for st by (simp add: stoppedStatus_def)
  ultimately show ?thesis
    using assms Some balanced_steps(5)
    by (auto simp: wm_inv_def StopWatch_def Let_def currentWatch_def watchAt_upd)
qed (use assms in \<open>simp add: StopWatch_def\<close>)

lemma wm_inv_start:
  assumes "wm_inv m"
  shows "wm_inv (installWatch pool req debounce now m)"
proof -
  let ?key = "watchKey (wsNamespace req) (wsVolume req)"
  define m1 where "m1 = (case map_of (wmWatches m) ?key of None \<Rightarrow> m | Some i \<Rightarrow> updWatch i cancelWatch m)"
  have same: "wmWatches m1 = wmWatches m" "length (wmHeap m1) = length (wmHeap m)"
    "\<And>j. j < length (wmHeap m) \<Longrightarrow> mwStatus (watchAt m1 j) = mwStatus (watchAt m j) \<and> mwRun (watchAt m1 j) = mwRun (watchAt m j) \<and>
       mwCancelled (watchAt m1 j) = (mwCancelled (watchAt m j) \<or> map_of (wmWatches m) ?key = Some j)"
    by (auto simp: m1_def watchAt_upd split: option.split)
  have bal: "balanced (initialStatus req now)"
    by (auto simp: balanced_def initialStatus_def initialTargetStatuses_def newTargetStatus_def comp_def)
  have new: "installWatch pool req debounce now m = m1\<lparr>wmHeap := wmHeap m1 @ [\<lparr>mwCancelled = False,
      mwStatus = initialStatus req now, mwRun = startRun pool req debounce\<rparr>],
      wmWatches := AList.update ?key (length (wmHeap m)) (wmWatches m)\<rparr>"
    by (simp add: installWatch_def Let_def m1_def [symmetric] same(1,2))
  have key: "wrKey (startRun pool req debounce) = ?key" by (simp add: startRun_def)
  let ?m = "installWatch pool req debounce now m" and ?n = "length (wmHeap m)"
  have heap: "length (wmHeap ?m) = Suc ?n" "ownKey ?m ?n = ?key" "mwStatus (watchAt ?m ?n) = initialStatus req now"
    "\<not> mwCancelled (watchAt ?m ?n)" "map_of (wmWatches ?m) = (map_of (wmWatches m))(?key \<mapsto> ?n)"
    unfolding new by (simp_all add: nth_append same key update_conv')
  have old: "mwStatus (watchAt ?m j) = mwStatus (watchAt m j)" "ownKey ?m j = ownKey m j"
    "mwCancelled (watchAt ?m j) = (mwCancelled (watchAt m j) \<or> map_of (wmWatches m) ?key = Some j)"
    "currentWatch ?m j \<longleftrightarrow> currentWatch m j \<and> ownKey m j \<noteq> ?key" if "j < ?n" for j
    using that same(3) [OF that] heap(1,5) unfolding new currentWatch_def by (auto simp: nth_append same(2))
  have cur: "currentWatch ?m ?n" by (simp add: currentWatch_def heap)
  have keys: "i < ?n \<and> ownKey m i = k" if "map_of (wmWatches m) k = Some i" for k i
    using assms that by (simp add: wm_inv_def)
  have "balanced (mwStatus (watchAt ?m j)) \<and> (mwCancelled (watchAt ?m j) \<or> currentWatch ?m j) \<and>
      (currentWatch ?m j \<and> stRunning (mwStatus (watchAt ?m j)) \<longrightarrow> \<not> mwCancelled (watchAt ?m j))" if "j < Suc ?n" for j
  proof (cases "j = ?n")
    case False
    with that have "j < ?n" by simp
    have inv: "balanced (mwStatus (watchAt m j)) \<and> (mwCancelled (watchAt m j) \<or> currentWatch m j) \<and>
        (currentWatch m j \<and> stRunning (mwStatus (watchAt m j)) \<longrightarrow> \<not> mwCancelled (watchAt m j))"
      using assms \<open>j < ?n\<close> by (simp add: wm_inv_def)
    have "map_of (wmWatches m) ?key = Some j \<longleftrightarrow> currentWatch m j \<and> ownKey m j = ?key"
      using keys [of ?key j] \<open>j < ?n\<close> by (auto simp: currentWatch_def)
    with inv show ?thesis unfolding old [OF \<open>j < ?n\<close>] by blast
  qed (simp add: heap bal cur)
  then show ?thesis
    using keys old(2) heap by (auto simp: wm_inv_def less_Suc_eq split: if_splits)
qed

lemma wm_inv_step:
  assumes "wm_step m m'" "wm_inv m"
  shows "wm_inv m'"
  using assms
  by cases (auto simp: recordDeliverySuccess_def recordDeliveryError_def recordUnconfirmedDelivery_def recordStopped_def
      running_steps intro!: wm_inv_status wm_inv_start wm_inv_stop balanced_steps)

lemma wm_inv_reachable: "wm_step\<^sup>*\<^sup>* NewWatchManager m \<Longrightarrow> wm_inv m"
proof (induction rule: rtranclp_induct)
  case base
  show ?case by (simp add: wm_inv_def NewWatchManager_def)
qed (rule wm_inv_step)


lemma ifCurrent_other:
  "j < length (wmHeap m) \<Longrightarrow> \<not> currentWatch m j \<Longrightarrow> key = ownKey m i \<Longrightarrow> i < length (wmHeap m) \<Longrightarrow>
   j < length (wmHeap (ifCurrent key i f m)) \<and> watchAt (ifCurrent key i f m) j = watchAt m j \<and> \<not> currentWatch (ifCurrent key i f m) j"
  by (auto simp: ifCurrent_def currentWatch_def watchAt_upd)

lemma superseded_step:
  assumes "wm_step m m'" "wm_inv m" "i < length (wmHeap m)" "\<not> currentWatch m i"
  shows "i < length (wmHeap m') \<and> watchAt m' i = watchAt m i \<and> \<not> currentWatch m' i"
proof -
  have keys: "map_of (wmWatches m) key \<noteq> Some i" for key
    using assms(2-4) by (auto simp: wm_inv_def currentWatch_def)
  have cancel: "watchAt (case map_of (wmWatches m) key of None \<Rightarrow> m | Some j \<Rightarrow> updWatch j cancelWatch m) i = watchAt m i" for key
    using keys [of key] assms(3) by (auto simp: watchAt_upd split: option.split)
  have len: "wmWatches (case map_of (wmWatches m) key of None \<Rightarrow> m | Some j \<Rightarrow> updWatch j cancelWatch m) = wmWatches m"
    "length (wmHeap (case map_of (wmWatches m) key of None \<Rightarrow> m | Some j \<Rightarrow> updWatch j cancelWatch m)) = length (wmHeap m)" for key
    by (auto split: option.split)
  from assms(1) show ?thesis
  proof cases
    case (start req debounce pool now)
    then show ?thesis
      using assms(3) keys by (simp add: installWatch_def Let_def nth_append cancel len currentWatch_def update_conv')
  next
    case (stop namespace volume now)
    then show ?thesis
      using assms(3) keys [of "watchKey namespace volume"] keys
      by (auto simp: StopWatch_def Let_def watchAt_upd currentWatch_def split: option.split)
  qed (use ifCurrent_other [OF assms(3,4)] in
      \<open>auto simp: recordDeliverySuccess_def recordDeliveryError_def recordUnconfirmedDelivery_def recordStopped_def\<close>)
qed


definition demoStart :: WatchStartRequest where
  "demoStart = \<lparr>wsNamespace = ''games'', wsVolume = ''world'', wsSource = demoSource, wsTargets = [\<lparr>trURL = ''r1'', trToken = ''''\<rparr>],
     wsIncludePaths = [], wsExcludePaths = [], wsOwnership = noOwnership, wsDebounce = '''', wsConsistencyMode = ''live'',
     wsConfirmedReplicas = None\<rparr>"

lemma demoStart_ok: "checkStart demoStart = Inr (5 * second)"
proof -
  have "TrimSpace ''r1'' = ''r1''" by (rule TrimSpace_id) (simp_all add: spaceByte_def)
  then show ?thesis by (simp add: checkStart_def demoStart_def demoSource_def parseOptionalDuration_def)
qed



section \<open>Confirmed delivery\<close>

abbreviation statusAt :: "watchManager \<Rightarrow> nat \<Rightarrow> WatchStatus" where
  "statusAt m i \<equiv> mwStatus (watchAt m i)"

definition targetStatus :: "WatchStatus \<Rightarrow> string \<Rightarrow> TargetStatus" where
  "targetStatus st url = (case find (\<lambda>t. tsURL t = url) (stTargetStatuses st) of
     None \<Rightarrow> newTargetStatus url | Some t \<Rightarrow> t)"

lemma find_updateTargetStatus:
  assumes "\<And>t. tsURL (f t) = tsURL t"
  shows "find (\<lambda>t. tsURL t = u) (updateTargetStatus url f ts) =
    (if u = url then Some (f (case find (\<lambda>t. tsURL t = url) ts of None \<Rightarrow> newTargetStatus url | Some t \<Rightarrow> t))
     else find (\<lambda>t. tsURL t = u) ts)"
  by (induction ts) (auto simp: assms newTargetStatus_def)

lemma targetStatus_delivered:
  "targetStatus (batchDelivered now target batch st) u =
     (if u = trURL target then targetDelivered now batch (targetStatus st u) else targetStatus st u)"
  using find_updateTargetStatus [of "targetDelivered now batch" u "trURL target" "stTargetStatuses st"]
  by (simp add: targetStatus_def batchDelivered_def targetDelivered_def)

lemma targetStatus_failed:
  "targetStatus (deliveryFailed target e st) u =
     (if u = trURL target then targetFailed e (targetStatus st u) else targetStatus st u)"
  using find_updateTargetStatus [of "targetFailed e" u "trURL target" "stTargetStatuses st"]
  by (simp add: targetStatus_def deliveryFailed_def targetFailed_def)

lemma status_counts:
  "stDeliveryFailureCount (deliveryFailed target e st) = stDeliveryFailureCount st + 1"
  "stDeliveredBatchCount (deliveryFailed target e st) = stDeliveredBatchCount st"
  "stDeliveryFailureCount (batchDelivered now target batch st) = stDeliveryFailureCount st"
  "stDeliveredBatchCount (batchDelivered now target batch st) = stDeliveredBatchCount st + 1"
  by (simp_all add: deliveryFailed_def batchDelivered_def)

lemma ifCurrent_current:
  assumes "currentWatch m i" "key = ownKey m i"
  shows "statusAt (ifCurrent key i f m) i = f (statusAt m i)" "currentWatch (ifCurrent key i f m) i"
    "ownKey (ifCurrent key i f m) i = key"
  using assms by (auto simp: ifCurrent_def currentWatch_def watchAt_upd)

text \<open>Sending reports every failure and nothing else.\<close>

lemma sendToTargets_status:
  assumes "currentWatch m i" "key = ownKey m i"
    and "sendToTargets sender key i batch targets (m, w) = (r, (m', w'))"
  shows "\<exists>ss. r = Inr ss \<and> subseq ss targets \<and> currentWatch m' i \<and> ownKey m' i = key \<and>
    stDeliveryFailureCount (statusAt m' i) = stDeliveryFailureCount (statusAt m i) + of_nat (length targets - length ss) \<and>
    stDeliveredBatchCount (statusAt m' i) = stDeliveredBatchCount (statusAt m i) \<and>
    (\<forall>u. tsLastSuccessfulSync (targetStatus (statusAt m' i) u) = tsLastSuccessfulSync (targetStatus (statusAt m i) u))"
  using assms
proof (induction targets arbitrary: m w r m' w')
  case Nil
  then show ?case by auto
next
  case (Cons target targets)
  obtain x w1 where send: "sender target batch w = (x, w1)" by fastforce
  show ?case
  proof (cases x)
    case (Inl e)
    let ?m1 = "ifCurrent key i (deliveryFailed target e) m"
    note cur = ifCurrent_current [OF Cons.prems(1,2), of "deliveryFailed target e"]
    have run: "sendToTargets sender key i batch targets (?m1, w1) = (r, (m', w'))"
      using Cons.prems(3) send Inl by (simp add: io_defs recordDeliveryError_def)
    from Cons.IH [OF cur(2) cur(3) [symmetric] run] obtain ss where ss: "r = Inr ss" "subseq ss targets"
      "currentWatch m' i" "ownKey m' i = key"
      "stDeliveryFailureCount (statusAt m' i) = stDeliveryFailureCount (statusAt ?m1 i) + of_nat (length targets - length ss)"
      "stDeliveredBatchCount (statusAt m' i) = stDeliveredBatchCount (statusAt ?m1 i)"
      "\<forall>u. tsLastSuccessfulSync (targetStatus (statusAt m' i) u) = tsLastSuccessfulSync (targetStatus (statusAt ?m1 i) u)"
      by blast
    have "length ss \<le> length targets" using ss(2) by (rule list_emb_length)
    then show ?thesis
      using ss by (intro exI [of _ ss]) (auto simp: cur(1) targetStatus_failed targetFailed_def status_counts
          Suc_diff_le algebra_simps)
  next
    case (Inr u)
    obtain y m1 w2 where run: "sendToTargets sender key i batch targets (m, w1) = (y, (m1, w2))" by (metis prod.exhaust)
    from Cons.IH [OF Cons.prems(1,2) run] obtain ss where "y = Inr ss" "subseq ss targets" by blast
    with Cons.IH [OF Cons.prems(1,2) run] Cons.prems(3) send Inr run show ?thesis
      by (intro exI [of _ "target # ss"]) (auto simp: io_defs)
  qed
qed

text \<open>A target is confirmed: its last delivery is this batch's, without an error.\<close>

definition confirmed :: "EventBatch \<Rightarrow> TargetStatus \<Rightarrow> bool" where
  "confirmed batch t \<longleftrightarrow> tsLastSuccessfulSync t \<noteq> None \<and> tsLastError t = None \<and>
     tsLastObservedGeneration t = ebGeneration batch"

lemma confirmed_delivered [simp]: "confirmed batch (targetDelivered now batch t)"
  by (simp add: confirmed_def targetDelivered_def)

lemma recordSuccesses_status:
  assumes "currentWatch m i" "key = ownKey m i"
    and "io_foreach (\<lambda>target. io_bind (io_outside (timeNow os)) (\<lambda>now.
      io_modify (recordDeliverySuccess key i now target batch))) ss (m, w) = (Inr (), (m', w'))"
  shows "stDeliveryFailureCount (statusAt m' i) = stDeliveryFailureCount (statusAt m i) \<and>
    stDeliveredBatchCount (statusAt m' i) = stDeliveredBatchCount (statusAt m i) + of_nat (length ss) \<and>
    (\<forall>u. if u \<in> trURL ` set ss then confirmed batch (targetStatus (statusAt m' i) u)
         else targetStatus (statusAt m' i) u = targetStatus (statusAt m i) u)"
  using assms
proof (induction ss arbitrary: m w)
  case (Cons target ss)
  obtain now w1 where t: "timeNow os w = (Inr now, w1)"
    and run: "io_foreach (\<lambda>target. io_bind (io_outside (timeNow os)) (\<lambda>now.
      io_modify (recordDeliverySuccess key i now target batch))) ss
      (ifCurrent key i (batchDelivered now target batch) m, w1) = (Inr (), (m', w'))"
    using Cons.prems(3) by (auto simp: io_bind_Inr recordDeliverySuccess_def)
  note cur = ifCurrent_current [OF Cons.prems(1,2), of "batchDelivered now target batch"]
  note IH = Cons.IH [OF cur(2) cur(3) [symmetric] run, unfolded cur(1) status_counts]
  have "if u \<in> trURL ` set (target # ss) then confirmed batch (targetStatus (statusAt m' i) u)
      else targetStatus (statusAt m' i) u = targetStatus (statusAt m i) u" for u
    using IH [THEN conjunct2, THEN conjunct2, THEN spec, of u]
    by (cases "u \<in> trURL ` set ss"; cases "u = trURL target") (auto simp: targetStatus_delivered)
  then show ?case using IH by (simp add: algebra_simps)
qed auto


text \<open>
  A replica that missed a batch is reported healthy again by the next batch it accepts,
  although the missed one is not sent again.
\<close>

lemma missed_batch_forgotten:
  "confirmed later (targetStatus (batchDelivered now target later (deliveryFailed target e st)) (trURL target))"
  by (simp add: targetStatus_delivered)

definition demoManager :: watchManager where
  "demoManager = installWatch demoPool demoStart (5 * second) 1 NewWatchManager"

lemma demoManager_current: "currentWatch demoManager 0"
  by (simp add: demoManager_def installWatch_def Let_def NewWatchManager_def currentWatch_def startRun_def demoStart_def)

lemma demoManager_run: "mwRun (watchAt demoManager 0) = startRun demoPool demoStart (5 * second)"
  by (simp add: demoManager_def installWatch_def Let_def NewWatchManager_def)

lemma live_mode: "normalizeConsistencyMode ''live'' = ''live''"
proof -
  have "TrimSpace ''live'' = ''live''" by (rule TrimSpace_id) (simp_all add: spaceByte_def)
  moreover have "ToLower ''live'' = ''live''" by (simp add: lowerByte_def)
  ultimately show ?thesis
    by (simp add: normalizeConsistencyMode_def ConsistencyModeLive_def ConsistencyModeShadow_def)
qed

lemma demo_delivery:
  "\<exists>m' w'. deliverBatch (demoEnv 200) (\<lambda>_ _. io_return ()) demoPool 0 (startRun demoPool demoStart (5 * second)) demoBatch
     (demoManager, memWorld []) = (Inr (), (m', w'))"
  by (simp add: deliverBatch_def Let_def startRun_def demoStart_def live_mode ConsistencyModeShadow_def
      defaultConfirmedReplicas_def confirmationThreshold_def demoEnv_def memOs_def io_defs)


end
