(* ===== verification/Desired.thy ===== *)
theory Desired
  imports WatchManager Failover
begin

text \<open>
  The part of \<^verbatim>\<open>internal/controller/replication_controller.go\<close> that works out what should be
  replicated where: annotations, ownership, addresses, schedules, and the list of desired
  replications. \<^verbatim>\<open>sort.Slice\<close> is not stable; where the keys of the elements can be equal,
  the sort is an argument.
\<close>

section \<open>Annotations\<close>

definition AnnotationIncludePaths :: string where "AnnotationIncludePaths = LabelPrefix @ ''/replication-include-paths''"
definition AnnotationExcludePaths :: string where "AnnotationExcludePaths = LabelPrefix @ ''/replication-exclude-paths''"
definition AnnotationPruneExcluded :: string where "AnnotationPruneExcluded = LabelPrefix @ ''/replication-prune-excluded''"
definition AnnotationDebounce :: string where "AnnotationDebounce = LabelPrefix @ ''/replication-debounce''"
definition AnnotationFullSyncOnStart :: string where "AnnotationFullSyncOnStart = LabelPrefix @ ''/replication-full-sync-on-start''"
definition AnnotationFullSyncSchedule :: string where "AnnotationFullSyncSchedule = LabelPrefix @ ''/replication-full-sync-schedule''"
definition AnnotationRequiredPaths :: string where "AnnotationRequiredPaths = LabelPrefix @ ''/replication-required-paths''"
definition AnnotationConsistencyMode :: string where "AnnotationConsistencyMode = LabelPrefix @ ''/replication-consistency-mode''"
definition AnnotationConfirmedReplicas :: string where "AnnotationConfirmedReplicas = LabelPrefix @ ''/replication-confirmed-replicas''"
definition AnnotationReplicationOwnerUID :: string where "AnnotationReplicationOwnerUID = LabelPrefix @ ''/replication-owner-uid''"
definition AnnotationReplicationOwnerGID :: string where "AnnotationReplicationOwnerGID = LabelPrefix @ ''/replication-owner-gid''"
definition AnnotationReplicationFileMode :: string where "AnnotationReplicationFileMode = LabelPrefix @ ''/replication-file-mode''"
definition AnnotationReplicationDirMode :: string where "AnnotationReplicationDirMode = LabelPrefix @ ''/replication-dir-mode''"

definition replicationConsistencyMode :: "(string, string) gomap \<Rightarrow> string" where
  "replicationConsistencyMode annotations =
     (let v = ToLower (TrimSpace (gostr annotations AnnotationConsistencyMode)) in
      if v = '''' \<or> v = ConsistencyModeShadow then ConsistencyModeShadow
      else if v = ConsistencyModeLive then ConsistencyModeLive
      else ConsistencyModeShadow)"

definition confirmedReplicas :: "(string, string) gomap \<Rightarrow> int" where
  "confirmedReplicas annotations =
     (let value = TrimSpace (gostr annotations AnnotationConfirmedReplicas) in
      if value = '''' then 1
      else case Atoi value of None \<Rightarrow> 1 | Some parsed \<Rightarrow> if parsed < 0 then 1 else parsed)"

section \<open>Ownership\<close>

definition parseOptionalInt64Annotation :: "(string, string) gomap \<Rightarrow> string \<Rightarrow> go_error + int option" where
  "parseOptionalInt64Annotation annotations key =
     (let value = TrimSpace (gostr annotations key) in
      if value = '''' then Inr None
      else case ParseInt64 value of
        None \<Rightarrow> Inl (Errorf (key @ '' must be a non-negative integer''))
      | Some parsed \<Rightarrow> if parsed < 0 then Inl (Errorf (key @ '' must be a non-negative integer'')) else Inr (Some parsed))"

definition parseOptionalModeAnnotation :: "(string, string) gomap \<Rightarrow> string \<Rightarrow> go_error + filemode option" where
  "parseOptionalModeAnnotation annotations key =
     (let value = TrimSpace (gostr annotations key) in
      if value = '''' then Inr None
      else case ParseUint value 8 32 of
        None \<Rightarrow> Inl (Errorf (key @ '' must be an octal mode such as 0664''))
      | Some parsed \<Rightarrow> if parsed > 0xFFF then Inl (Errorf (key @ '' must be an octal mode such as 0664''))
          else Inr (Some (of_nat parsed)))"

definition ownershipPolicyFromAnnotations :: "(string, string) gomap \<Rightarrow> go_error + OwnershipPolicy" where
  "ownershipPolicyFromAnnotations annotations =
     (case parseOptionalInt64Annotation annotations AnnotationReplicationOwnerUID of Inl e \<Rightarrow> Inl e | Inr uid \<Rightarrow>
      (case parseOptionalInt64Annotation annotations AnnotationReplicationOwnerGID of Inl e \<Rightarrow> Inl e | Inr gid \<Rightarrow>
       (case parseOptionalModeAnnotation annotations AnnotationReplicationFileMode of Inl e \<Rightarrow> Inl e | Inr fileMode \<Rightarrow>
        (case parseOptionalModeAnnotation annotations AnnotationReplicationDirMode of Inl e \<Rightarrow> Inl e | Inr dirMode \<Rightarrow>
          Inr \<lparr>owUID = uid, owGID = gid, owFileMode = fileMode, owDirMode = dirMode\<rparr>))))"

definition mergeOwnershipPolicy :: "OwnershipPolicy \<Rightarrow> OwnershipPolicy \<Rightarrow> OwnershipPolicy" where
  "mergeOwnershipPolicy base override =
     (let b1 = (if owUID override \<noteq> None then base\<lparr>owUID := owUID override\<rparr> else base);
          b2 = (if owGID override \<noteq> None then b1\<lparr>owGID := owGID override\<rparr> else b1);
          b3 = (if owFileMode override \<noteq> None then b2\<lparr>owFileMode := owFileMode override\<rparr> else b2)
      in if owDirMode override \<noteq> None then b3\<lparr>owDirMode := owDirMode override\<rparr> else b3)"

definition claimVolumeNames :: "Pod \<Rightarrow> string \<Rightarrow> string list" where
  "claimVolumeNames pod claim = map volName (filter (\<lambda>v. volClaim v = Some claim) (spVolumes (podSpec pod)))"

definition containerMountsAnyVolume :: "Container \<Rightarrow> string list \<Rightarrow> bool" where
  "containerMountsAnyVolume container volumeNames = list_ex (\<lambda>mnt. mnt \<in> set volumeNames) (conVolumeMounts container)"

fun inferFromContainers :: "string list \<Rightarrow> OwnershipPolicy \<Rightarrow> Container list \<Rightarrow> OwnershipPolicy" where
  "inferFromContainers claimVolumes policy [] = policy"
| "inferFromContainers claimVolumes policy (container # containers) =
     (case conSecurity container of
        None \<Rightarrow> inferFromContainers claimVolumes policy containers
      | Some sc \<Rightarrow>
          if \<not> containerMountsAnyVolume container claimVolumes then inferFromContainers claimVolumes policy containers
          else
            let p1 = (if owUID policy = None \<and> scRunAsUser sc \<noteq> None then policy\<lparr>owUID := scRunAsUser sc\<rparr> else policy);
                p2 = (if owGID p1 = None \<and> scRunAsGroup sc \<noteq> None then p1\<lparr>owGID := scRunAsGroup sc\<rparr> else p1)
            in if owUID p2 \<noteq> None \<and> owGID p2 \<noteq> None then p2 else inferFromContainers claimVolumes p2 containers)"

definition inferOwnershipFromPod :: "Pod \<Rightarrow> string \<Rightarrow> OwnershipPolicy" where
  "inferOwnershipFromPod pod claim =
     (let claimVolumes = claimVolumeNames pod claim in
      if claimVolumes = [] then noOwnership
      else
        let policy = (case spSecurity (podSpec pod) of
              None \<Rightarrow> noOwnership
            | Some sc \<Rightarrow>
                let p1 = (if scRunAsUser sc \<noteq> None then noOwnership\<lparr>owUID := scRunAsUser sc\<rparr> else noOwnership)
                in if scRunAsGroup sc \<noteq> None then p1\<lparr>owGID := scRunAsGroup sc\<rparr>
                   else if scFSGroup sc \<noteq> None then p1\<lparr>owGID := scFSGroup sc\<rparr> else p1)
        in if owUID policy \<noteq> None \<and> owGID policy \<noteq> None then policy
           else inferFromContainers claimVolumes policy (spInitContainers (podSpec pod) @ spContainers (podSpec pod)))"

definition optionalInt64String :: "int option \<Rightarrow> string" where
  "optionalInt64String value = (case value of None \<Rightarrow> '''' | Some v \<Rightarrow> FormatInt v)"

definition optionalModeString :: "filemode option \<Rightarrow> string" where
  "optionalModeString value = (case value of None \<Rightarrow> '''' | Some v \<Rightarrow> FormatUint 8 (unat v))"

definition ownershipSignature :: "OwnershipPolicy \<Rightarrow> string" where
  "ownershipSignature policy = Join '','' [''uid='' @ optionalInt64String (owUID policy), ''gid='' @ optionalInt64String (owGID policy),
     ''fileMode='' @ optionalModeString (owFileMode policy), ''dirMode='' @ optionalModeString (owDirMode policy)]"

section \<open>Addresses and schedules\<close>

definition agentHTTPURL :: "string \<Rightarrow> string" where
  "agentHTTPURL ip = ''http://'' @ ip @ '':8080''"

definition agentWebDAVURL :: "string \<Rightarrow> string" where
  "agentWebDAVURL ip = ''http://'' @ ip @ '':8081''"

definition agentHTTPURLFromWebDAV :: "string \<Rightarrow> string" where
  "agentHTTPURLFromWebDAV webdavURL = ReplaceFirst webdavURL '':8081'' '':8080''"

definition parseSingleCronNumber :: "string \<Rightarrow> int \<Rightarrow> int \<Rightarrow> int option" where
  "parseSingleCronNumber field lo hi = (case Atoi field of
     None \<Rightarrow> None
   | Some value \<Rightarrow> if value < lo \<or> value > hi then None else Some value)"

text \<open>\<open>now\<close> is the wall-clock reading of the local time zone.\<close>

definition shouldRunScheduledFullSync :: "string \<Rightarrow> time \<Rightarrow> bool" where
  "shouldRunScheduledFullSync schedule now =
     (let fields = Fields schedule in
      if length fields \<noteq> 5 then False
      else case parseSingleCronNumber (fields ! 0) 0 59 of
        None \<Rightarrow> False
      | Some mi \<Rightarrow> (case parseSingleCronNumber (fields ! 1) 0 23 of
          None \<Rightarrow> False
        | Some ho \<Rightarrow> Minute now = mi \<and> Hour now = ho))"

section \<open>Desired replications\<close>

record DesiredTarget =
  dtNode :: string
  dtRef :: TargetRef

record DesiredReplication =
  drNamespace :: string
  drClaimName :: string
  drVolume :: string
  drActiveNode :: string
  drSourceURL :: string
  drTargets :: "DesiredTarget list"
  drIncludePaths :: "string list"
  drExcludePaths :: "string list"
  drPruneExcluded :: bool
  drRequiredPaths :: "string list"
  drOwnership :: OwnershipPolicy
  drDebounce :: string
  drFullSync :: bool
  drFullSchedule :: string
  drConsistencyMode :: string
  drConfirmedReplicas :: int

definition targetRefs :: "DesiredTarget list \<Rightarrow> TargetRef list" where
  "targetRefs targets = map dtRef targets"

definition signature :: "DesiredReplication \<Rightarrow> string" where
  "signature d = drSourceURL d @ ''|'' @
     concat (map (\<lambda>t. dtNode t @ ''='' @ trURL (dtRef t) @ '':'' @ trToken (dtRef t) @ '','') (drTargets d)) @ ''|'' @
     Join '','' (drIncludePaths d) @ ''|'' @ Join '','' (drExcludePaths d) @ ''|'' @ FormatBool (drPruneExcluded d) @ ''|'' @
     ownershipSignature (drOwnership d) @ ''|'' @ drDebounce d @ ''|'' @ drConsistencyMode d @ ''|'' @
     FormatInt (drConfirmedReplicas d)"

definition secretToken :: "'k kube \<Rightarrow> string \<Rightarrow> string \<Rightarrow> string \<Rightarrow> string \<Rightarrow> ('k, string) io" where
  "secretToken kube namespace name key label =
     io_try (kGetSecret kube namespace name) (\<lambda>r. case r of
       Inl e \<Rightarrow> if e = ErrNotFound then io_fail (Errorf (label @ '' secret '' @ namespace @ ''/'' @ name @ '' not found''))
         else io_fail e
     | Inr secret \<Rightarrow>
         let token = TrimSpace (gostr secret key) in
         if token = '''' then io_fail (Errorf (label @ '' secret '' @ namespace @ ''/'' @ name @ '' key '' @ key @ '' is empty''))
         else io_return token)"

definition syncToken :: "'k kube \<Rightarrow> ReplicationControllerConfig \<Rightarrow> ('k, string) io" where
  "syncToken kube cfg = secretToken kube (cfgNamespace cfg) (cfgTokenSecretName cfg) (cfgTokenSecretKey cfg) ''sync token''"

definition activeCandidate :: "string \<Rightarrow> Pod \<Rightarrow> bool" where
  "activeCandidate claim pod \<longleftrightarrow> podPhase pod = PodRunning \<and> podNode pod \<noteq> '''' \<and> podUsesClaim pod claim"

definition activePodForPVC ::
    "'k kube \<Rightarrow> (Pod list \<Rightarrow> Pod list) \<Rightarrow> string \<Rightarrow> string \<Rightarrow> ('k, Pod option) io" where
  "activePodForPVC kube sortByAge namespace claim =
     io_bind (kListPods kube namespace '''') (\<lambda>pods.
     let candidates = filter (activeCandidate claim) pods in
     if candidates = [] then io_return None else io_return (Some (hd (sortByAge candidates))))"

definition desiredTargets :: "(string, Pod) gomap \<Rightarrow> string \<Rightarrow> string \<Rightarrow> DesiredTarget list" where
  "desiredTargets agents activeNode token = SliceStable (\<lambda>a b. dtNode a < dtNode b)
     (map (\<lambda>(node, pod). \<lparr>dtNode = node, dtRef = \<lparr>trURL = agentHTTPURL (podIP pod), trToken = token\<rparr>\<rparr>)
       (filter (\<lambda>(node, pod). node \<noteq> activeNode) agents))"

definition desiredFor ::
    "PVC \<Rightarrow> (string, Pod) gomap \<Rightarrow> string \<Rightarrow> Pod option \<Rightarrow> OwnershipPolicy \<Rightarrow> DesiredReplication option" where
  "desiredFor pvc agents token activePod annotationOwnership =
     (let ann = pvcAnnotations pvc;
          activeNode = (case activePod of None \<Rightarrow> TrimSpace (gostr ann AnnotationActiveNode) | Some pod \<Rightarrow> podNode pod);
          inferred = (case activePod of None \<Rightarrow> noOwnership | Some pod \<Rightarrow> inferOwnershipFromPod pod (pvcName pvc));
          ownership = mergeOwnershipPolicy inferred annotationOwnership
      in if activeNode = '''' then None
      else case map_of agents activeNode of
        None \<Rightarrow> None
      | Some source \<Rightarrow>
          let targets = desiredTargets agents activeNode token in
          if targets = [] then None
          else Some \<lparr>drNamespace = pvcNamespace pvc, drClaimName = pvcName pvc, drVolume = pvcVolumeName pvc,
            drActiveNode = activeNode, drSourceURL = agentWebDAVURL (podIP source), drTargets = targets,
            drIncludePaths = csvAnnotation (gostr ann AnnotationIncludePaths),
            drExcludePaths = csvAnnotation (gostr ann AnnotationExcludePaths),
            drPruneExcluded = truthy (gostr ann AnnotationPruneExcluded),
            drRequiredPaths = csvAnnotation (gostr ann AnnotationRequiredPaths),
            drOwnership = ownership,
            drDebounce = TrimSpace (gostr ann AnnotationDebounce),
            drFullSync = truthy (gostr ann AnnotationFullSyncOnStart),
            drFullSchedule = TrimSpace (gostr ann AnnotationFullSyncSchedule),
            drConsistencyMode = replicationConsistencyMode ann,
            drConfirmedReplicas = confirmedReplicas ann\<rparr>)"

fun desiredLoop ::
    "'k kube \<Rightarrow> (Pod list \<Rightarrow> Pod list) \<Rightarrow> string \<Rightarrow> (string, Pod) gomap \<Rightarrow> string \<Rightarrow> PVC list \<Rightarrow> ('k, DesiredReplication list) io" where
  "desiredLoop kube sortByAge storageClass agents token [] = io_return []"
| "desiredLoop kube sortByAge storageClass agents token (pvc # pvcs) =
     (if \<not> replicationEnabled pvc storageClass \<or> pvcVolumeName pvc = ''''
      then desiredLoop kube sortByAge storageClass agents token pvcs
      else
        io_bind (activePodForPVC kube sortByAge (pvcNamespace pvc) (pvcName pvc)) (\<lambda>activePod.
        case ownershipPolicyFromAnnotations (pvcAnnotations pvc) of
          Inl e \<Rightarrow> io_fail (Wrapf (''pvc '' @ pvcNamespace pvc @ ''/'' @ pvcName pvc @ '' ownership annotations: '') e)
        | Inr annotationOwnership \<Rightarrow>
            io_bind (desiredLoop kube sortByAge storageClass agents token pvcs) (\<lambda>out.
            io_return (case desiredFor pvc agents token activePod annotationOwnership of None \<Rightarrow> out | Some d \<Rightarrow> d # out))))"

definition desiredBefore :: "DesiredReplication \<Rightarrow> DesiredReplication \<Rightarrow> bool" where
  "desiredBefore a b \<longleftrightarrow> (if drNamespace a = drNamespace b then drClaimName a < drClaimName b else drNamespace a < drNamespace b)"

definition DesiredReplications ::
    "'k kube \<Rightarrow> (Pod list \<Rightarrow> Pod list) \<Rightarrow> ReplicationControllerConfig \<Rightarrow> string \<Rightarrow> ('k, DesiredReplication list) io" where
  "DesiredReplications kube sortByAge cfg token =
     io_bind (kListPVCs kube) (\<lambda>pvcs.
     io_bind (kListPods kube (cfgNamespace cfg) (cfgAgentLabelSelector cfg)) (\<lambda>agentPods.
     io_bind (desiredLoop kube sortByAge (cfgStorageClassName cfg) (readyAgentPods agentPods) token pvcs) (\<lambda>out.
     io_return (SliceStable desiredBefore out))))"

section \<open>Who replicates to whom\<close>

interpretation targetOrder: go_less_keyed "\<lambda>a b. dtNode a < dtNode b" dtNode
  by unfold_locales auto

interpretation desiredOrder: go_less_keyed desiredBefore "\<lambda>d. (drNamespace d, drClaimName d)"
  by unfold_locales (auto simp: desiredBefore_def split: if_splits)

definition agentTarget :: "string \<Rightarrow> string \<times> Pod \<Rightarrow> DesiredTarget" where
  "agentTarget token = (\<lambda>(node, pod). \<lparr>dtNode = node, dtRef = \<lparr>trURL = agentHTTPURL (podIP pod), trToken = token\<rparr>\<rparr>)"

lemma desiredTargets_eq:
  "desiredTargets agents activeNode token =
     SliceStable (\<lambda>a b. dtNode a < dtNode b) (map (agentTarget token) (filter (\<lambda>(node, pod). node \<noteq> activeNode) agents))"
  by (simp add: desiredTargets_def agentTarget_def)

lemma agentTarget_nodes: "map dtNode (map (agentTarget token) xs) = map fst xs"
  by (auto simp: agentTarget_def)

lemma desiredTargets_sorted:
  assumes "distinct (map fst agents)"
  shows "sorted_wrt (<) (map dtNode (desiredTargets agents activeNode token))"
proof -
  let ?ts = "desiredTargets agents activeNode token"
  have "distinct (map fst (filter (\<lambda>(node, pod). node \<noteq> activeNode) agents))"
    using assms by (rule distinct_map_filter)
  then have "distinct (map dtNode (map (agentTarget token) (filter (\<lambda>(node, pod). node \<noteq> activeNode) agents)))"
    by (subst agentTarget_nodes)
  then have "distinct (map dtNode ?ts)"
    unfolding desiredTargets_eq by (metis mset_SliceStable mset_eq_imp_distinct_iff mset_map)
  moreover have "sorted_wrt (\<lambda>a b. \<not> dtNode b < dtNode a) ?ts"
    unfolding desiredTargets_eq by (rule targetOrder.sorted_SliceStable)
  then have "sorted (map dtNode ?ts)" by (simp add: sorted_wrt_map not_less)
  ultimately show ?thesis by (subst strict_sorted_iff) simp
qed

text \<open>
  The desired state of a volume does not depend on the order in which the agents' map is
  iterated.
\<close>

theorem desiredFor_map_order:
  assumes "mset agents = mset agents'" "distinct (map fst agents)"
  shows "desiredFor pvc agents token activePod own = desiredFor pvc agents' token activePod own"
proof -
  have "mset (map (agentTarget token) (filter P agents)) = mset (map (agentTarget token) (filter P agents'))" for P
    using assms(1) by simp
  moreover have "distinct (map dtNode (map (agentTarget token) (filter P agents)))" for P
    using assms(2) by (simp only: agentTarget_nodes distinct_map_filter)
  ultimately have targets: "desiredTargets agents node token = desiredTargets agents' node token" for node
    unfolding desiredTargets_eq by (rule targetOrder.SliceStable_perm)
  have lookup: "map_of agents = map_of agents'" using assms by (rule map_of_perm)
  show ?thesis unfolding desiredFor_def targets lookup ..
qed

text \<open>What a desired replication has to satisfy, against the ready agents.\<close>

definition wellPlaced :: "(string, Pod) gomap \<Rightarrow> string \<Rightarrow> DesiredReplication \<Rightarrow> bool" where
  "wellPlaced agents token d \<longleftrightarrow>
     (\<exists>source. (drActiveNode d, source) \<in> set agents \<and> readyAgent source \<and> drSourceURL d = agentWebDAVURL (podIP source)) \<and>
     drTargets d \<noteq> [] \<and> sorted_wrt (<) (map dtNode (drTargets d)) \<and>
     dtNode ` set (drTargets d) = fst ` set agents - {drActiveNode d} \<and>
     (\<forall>t \<in> set (drTargets d). \<exists>pod. (dtNode t, pod) \<in> set agents \<and> readyAgent pod \<and>
        dtRef t = \<lparr>trURL = agentHTTPURL (podIP pod), trToken = token\<rparr>)"

lemma desiredFor_wellPlaced:
  assumes "desiredFor pvc (readyAgentPods pods) token activePod own = Some d"
  shows "wellPlaced (readyAgentPods pods) token d \<and> drNamespace d = pvcNamespace pvc \<and> drClaimName d = pvcName pvc \<and>
    drVolume d = pvcVolumeName pvc \<and> drFullSync d = truthy (gostr (pvcAnnotations pvc) AnnotationFullSyncOnStart)"
proof -
  let ?agents = "readyAgentPods pods"
  obtain source where d: "map_of ?agents (drActiveNode d) = Some source" "drSourceURL d = agentWebDAVURL (podIP source)"
    "drTargets d = desiredTargets ?agents (drActiveNode d) token" "drTargets d \<noteq> []"
    "drNamespace d = pvcNamespace pvc" "drClaimName d = pvcName pvc" "drVolume d = pvcVolumeName pvc"
    "drFullSync d = truthy (gostr (pvcAnnotations pvc) AnnotationFullSyncOnStart)"
    using assms by (auto simp: desiredFor_def Let_def split: if_splits option.splits)
  have targets: "set (drTargets d) = agentTarget token ` {(node, pod) \<in> set ?agents. node \<noteq> drActiveNode d}"
    unfolding d(3) desiredTargets_eq by auto
  have "sorted_wrt (<) (map dtNode (drTargets d))"
    unfolding d(3) by (rule desiredTargets_sorted [OF readyAgentPods_distinct])
  moreover have "dtNode ` set (drTargets d) = fst ` set ?agents - {drActiveNode d}"
    unfolding targets by (force simp: agentTarget_def image_iff)
  moreover have "\<forall>t \<in> set (drTargets d). \<exists>pod. (dtNode t, pod) \<in> set ?agents \<and> readyAgent pod \<and>
      dtRef t = \<lparr>trURL = agentHTTPURL (podIP pod), trToken = token\<rparr>"
    unfolding targets using readyAgentPods_ready by (auto simp: agentTarget_def)
  moreover have "(drActiveNode d, source) \<in> set ?agents" using d(1) by (rule map_of_SomeD)
  ultimately show ?thesis using d readyAgentPods_ready [of _ source pods] by (auto simp: wellPlaced_def)
qed

lemma desiredLoop_result:
  assumes "desiredLoop kube sortByAge sc (readyAgentPods pods) token pvcs k = (Inr out, k')" "d \<in> set out"
  shows "wellPlaced (readyAgentPods pods) token d \<and>
    (\<exists>pvc \<in> set pvcs. replicationEnabled pvc sc \<and> pvcVolumeName pvc \<noteq> '''' \<and> drNamespace d = pvcNamespace pvc \<and>
      drClaimName d = pvcName pvc \<and> drVolume d = pvcVolumeName pvc \<and>
      drFullSync d = truthy (gostr (pvcAnnotations pvc) AnnotationFullSyncOnStart))"
  using assms
proof (induction pvcs arbitrary: k out)
  case (Cons pvc pvcs)
  show ?case
  proof (cases "\<not> replicationEnabled pvc sc \<or> pvcVolumeName pvc = ''''")
    case True
    then show ?thesis using Cons by auto
  next
    case False
    with Cons.prems(1) obtain active own k1 out' where run: "desiredLoop kube sortByAge sc (readyAgentPods pods) token pvcs k1 = (Inr out', k')"
      and out: "out = (case desiredFor pvc (readyAgentPods pods) token active own of None \<Rightarrow> out' | Some d \<Rightarrow> d # out')"
      by (cases "ownershipPolicyFromAnnotations (pvcAnnotations pvc)") (auto simp: io_bind_Inr)
    show ?thesis
    proof (cases "d \<in> set out'")
      case True
      then show ?thesis using Cons.IH [OF run] by auto
    next
      case no: False
      with out Cons.prems(2) have "desiredFor pvc (readyAgentPods pods) token active own = Some d"
        by (auto split: option.splits)
      from desiredFor_wellPlaced [OF this] False show ?thesis by auto
    qed
  qed
qed simp

text \<open>
  C28. Every desired replication is well placed: it belongs to a claim that asks for
  replication and has a volume, its source is the ready agent of the active node, and its
  targets are the ready agents of all other nodes, at least one, once each and in order of
  their names. The list is ordered by namespace and claim.
\<close>

theorem DesiredReplications_wellPlaced:
  assumes "DesiredReplications kube sortByAge cfg token k = (Inr out, k')"
  shows "\<exists>pvcs pods k1 k2. kListPVCs kube k = (Inr pvcs, k1) \<and>
    kListPods kube (cfgNamespace cfg) (cfgAgentLabelSelector cfg) k1 = (Inr pods, k2) \<and>
    sorted_wrt (\<lambda>a b. \<not> desiredBefore b a) out \<and>
    (\<forall>d \<in> set out. wellPlaced (readyAgentPods pods) token d \<and>
      (\<exists>pvc \<in> set pvcs. replicationEnabled pvc (cfgStorageClassName cfg) \<and> pvcVolumeName pvc \<noteq> '''' \<and>
        drNamespace d = pvcNamespace pvc \<and> drClaimName d = pvcName pvc \<and> drVolume d = pvcVolumeName pvc))"
proof -
  obtain pvcs pods k1 k2 out' where l: "kListPVCs kube k = (Inr pvcs, k1)"
    "kListPods kube (cfgNamespace cfg) (cfgAgentLabelSelector cfg) k1 = (Inr pods, k2)"
    and run: "desiredLoop kube sortByAge (cfgStorageClassName cfg) (readyAgentPods pods) token pvcs k2 = (Inr out', k')"
    and out: "out = SliceStable desiredBefore out'"
    using assms by (auto simp: DesiredReplications_def io_bind_Inr)
  have "sorted_wrt (\<lambda>a b. \<not> desiredBefore b a) out" unfolding out by (rule desiredOrder.sorted_SliceStable)
  moreover have "wellPlaced (readyAgentPods pods) token d \<and>
      (\<exists>pvc \<in> set pvcs. replicationEnabled pvc (cfgStorageClassName cfg) \<and> pvcVolumeName pvc \<noteq> '''' \<and>
        drNamespace d = pvcNamespace pvc \<and> drClaimName d = pvcName pvc \<and> drVolume d = pvcVolumeName pvc)" if "d \<in> set out" for d
    using desiredLoop_result [OF run, of d] that by (auto simp: out)
  ultimately show ?thesis using l by blast
qed

text \<open>One claim with a malformed ownership annotation stops the replication of every claim.\<close>

lemma malformed_annotation_blocks_all:
  assumes "pvc \<in> set pvcs" "replicationEnabled pvc sc" "pvcVolumeName pvc \<noteq> ''''"
    and "ownershipPolicyFromAnnotations (pvcAnnotations pvc) = Inl e"
  shows "io_fails (desiredLoop kube sortByAge sc agents token pvcs)"
  using assms(1)
proof (induction pvcs)
  case (Cons p pvcs)
  have fail: "io_fails (io_fail e' :: ('a, 'b) io)" for e' by (simp add: io_result_def io_fail_def)
  show ?case
  proof (cases "p = pvc")
    case True
    have "io_fails (io_bind (activePodForPVC kube sortByAge (pvcNamespace pvc) (pvcName pvc)) (\<lambda>_. io_fail e'))" for e'
      by (rule io_fails_bind(2) [OF fail])
    then show ?thesis using True assms(2-) by simp
  next
    case False
    then have rest: "io_fails (desiredLoop kube sortByAge sc agents token pvcs)" using Cons by simp
    then have "io_fails (case ownershipPolicyFromAnnotations (pvcAnnotations p) of
          Inl e \<Rightarrow> io_fail (Wrapf (''pvc '' @ pvcNamespace p @ ''/'' @ pvcName p @ '' ownership annotations: '') e)
        | Inr own \<Rightarrow> io_bind (desiredLoop kube sortByAge sc agents token pvcs) (\<lambda>out.
            io_return (case desiredFor p agents token active own of None \<Rightarrow> out | Some d \<Rightarrow> d # out)))" for active
      by (auto intro: io_fails_bind(1) fail split: sum.split)
    then show ?thesis using rest by (auto intro: io_fails_bind(2))
  qed
qed simp

section \<open>Ownership annotations\<close>

text \<open>The annotations that spell a policy out, and the policies annotations can express.\<close>

definition policyAnnotations :: "OwnershipPolicy \<Rightarrow> (string, string) gomap" where
  "policyAnnotations p = [(AnnotationReplicationOwnerUID, optionalInt64String (owUID p)),
     (AnnotationReplicationOwnerGID, optionalInt64String (owGID p)),
     (AnnotationReplicationFileMode, optionalModeString (owFileMode p)),
     (AnnotationReplicationDirMode, optionalModeString (owDirMode p))]"

definition expressible :: "OwnershipPolicy \<Rightarrow> bool" where
  "expressible p \<longleftrightarrow> (\<forall>v. owUID p = Some v \<or> owGID p = Some v \<longrightarrow> 0 \<le> v \<and> v < 2 ^ 63) \<and>
     (\<forall>m. owFileMode p = Some m \<or> owDirMode p = Some m \<longrightarrow> unat m \<le> 0xFFF)"

lemma TrimSpace_digits: "s \<noteq> [] \<Longrightarrow> list_all (isDigit 10) s \<Longrightarrow> TrimSpace s = s"
proof -
  assume s: "s \<noteq> []" "list_all (isDigit 10) s"
  have "\<not> spaceByte c" if "isDigit 10 c" for c using that by (auto simp: isDigit_def spaceByte_def)
  then show ?thesis using s by (intro TrimSpace_id) (auto simp: list_all_iff)
qed

lemma parse_optional_int:
  assumes "\<And>v. opt = Some v \<Longrightarrow> 0 \<le> v \<and> v < 2 ^ 63" "gostr annotations key = optionalInt64String opt"
  shows "parseOptionalInt64Annotation annotations key = Inr opt"
proof (cases opt)
  case (Some v)
  then have v: "0 \<le> v" "v < 2 ^ 63" using assms(1) by auto
  have f: "FormatInt v \<noteq> []" "list_all (isDigit 10) (FormatInt v)" "FormatInt v = FormatUint 10 (nat v)"
    using v FormatUint_digits [of 10 "nat v"] by (auto simp: FormatInt_def)
  have "ParseInt64 (FormatInt v) = Some v" by (rule ParseInt64_FormatInt) (use v in auto)
  with f v Some assms(2) show ?thesis
    by (simp add: parseOptionalInt64Annotation_def optionalInt64String_def TrimSpace_digits)
qed (use assms(2) in \<open>simp add: parseOptionalInt64Annotation_def optionalInt64String_def\<close>)

lemma parse_optional_mode:
  assumes "\<And>m. opt = Some m \<Longrightarrow> unat m \<le> 0xFFF" "gostr annotations key = optionalModeString opt"
  shows "parseOptionalModeAnnotation annotations key = Inr opt"
proof (cases opt)
  case (Some m)
  then have m: "unat m \<le> 0xFFF" using assms(1) by auto
  have f: "FormatUint 8 (unat m) \<noteq> []" "list_all (isDigit 8) (FormatUint 8 (unat m))"
    using FormatUint_digits [of 8 "unat m"] by auto
  then have "list_all (isDigit 10) (FormatUint 8 (unat m))" by (auto simp: list_all_iff isDigit_def)
  moreover have "ParseUint (FormatUint 8 (unat m)) 8 32 = Some (unat m)"
    by (rule ParseUint_FormatUint) (use m in auto)
  ultimately show ?thesis
    using f m Some assms(2) by (simp add: parseOptionalModeAnnotation_def optionalModeString_def TrimSpace_digits)
qed (use assms(2) in \<open>simp add: parseOptionalModeAnnotation_def optionalModeString_def\<close>)

lemma annotation_keys_distinct:
  "distinct [AnnotationReplicationOwnerUID, AnnotationReplicationOwnerGID, AnnotationReplicationFileMode, AnnotationReplicationDirMode]"
  by (simp add: AnnotationReplicationOwnerUID_def AnnotationReplicationOwnerGID_def AnnotationReplicationFileMode_def
      AnnotationReplicationDirMode_def)

text \<open>
  C29. Ownership annotations round trip: a policy with non-negative identifiers and modes up
  to \<^verbatim>\<open>07777\<close>, written in the notation the controller itself uses, is read back as the same
  policy, and it overrides exactly the fields it sets.
\<close>

theorem ownership_annotations_roundtrip:
  assumes "expressible p"
  shows "ownershipPolicyFromAnnotations (policyAnnotations p) = Inr p \<and>
    mergeOwnershipPolicy base p = \<lparr>owUID = (if owUID p = None then owUID base else owUID p),
      owGID = (if owGID p = None then owGID base else owGID p),
      owFileMode = (if owFileMode p = None then owFileMode base else owFileMode p),
      owDirMode = (if owDirMode p = None then owDirMode base else owDirMode p)\<rparr>"
proof -
  have keys: "gostr (policyAnnotations p) AnnotationReplicationOwnerUID = optionalInt64String (owUID p)"
    "gostr (policyAnnotations p) AnnotationReplicationOwnerGID = optionalInt64String (owGID p)"
    "gostr (policyAnnotations p) AnnotationReplicationFileMode = optionalModeString (owFileMode p)"
    "gostr (policyAnnotations p) AnnotationReplicationDirMode = optionalModeString (owDirMode p)"
    using annotation_keys_distinct by (auto simp: policyAnnotations_def goget_def)
  have "parseOptionalInt64Annotation (policyAnnotations p) AnnotationReplicationOwnerUID = Inr (owUID p)"
    "parseOptionalInt64Annotation (policyAnnotations p) AnnotationReplicationOwnerGID = Inr (owGID p)"
    "parseOptionalModeAnnotation (policyAnnotations p) AnnotationReplicationFileMode = Inr (owFileMode p)"
    "parseOptionalModeAnnotation (policyAnnotations p) AnnotationReplicationDirMode = Inr (owDirMode p)"
    using assms keys by (auto simp: expressible_def intro!: parse_optional_int parse_optional_mode)
  then show ?thesis by (simp add: ownershipPolicyFromAnnotations_def mergeOwnershipPolicy_def Let_def)
qed

section \<open>A concrete cluster\<close>

definition demoAgent :: "string \<Rightarrow> string \<Rightarrow> Pod" where
  "demoAgent node ip = \<lparr>podNamespace = ''sys'', podName = node, podCreated = 0,
     podSpec = \<lparr>spVolumes = [], spNodeName = node, spContainers = [], spInitContainers = [], spSecurity = None\<rparr>,
     podPhase = PodRunning, podIP = ip, podConditions = [(ReadyCondition, ConditionTrue)]\<rparr>"

definition demoClaim :: PVC where
  "demoClaim = \<lparr>pvcNamespace = ''games'', pvcName = ''world'', pvcAnnotations = [(AnnotationReplicationEnabled, ''1''), (AnnotationActiveNode, ''n1'')],
     pvcStorageClass = Some ''simple-volume'', pvcVolumeName = ''pv1''\<rparr>"

definition demoConfig :: ReplicationControllerConfig where
  "demoConfig = \<lparr>cfgNamespace = ''sys'', cfgStorageClassName = ''simple-volume'', cfgTokenSecretName = ''s'', cfgTokenSecretKey = ''token'',
     cfgReconcileInterval = 30 * second, cfgFailoverTimeout = 10 * second, cfgHTTPTimeout = 3600 * second, cfgAgentLabelSelector = ''agent''\<rparr>"

definition demoKubeApi :: "unit kube" where
  "demoKubeApi = \<lparr>kListPVCs = io_return [demoClaim],
     kListPods = (\<lambda>ns sel. io_return (if sel = ''agent'' then [demoAgent ''n1'' ''1'', demoAgent ''n2'' ''2''] else [])),
     kListNodes = io_return [], kGetPV = (\<lambda>_. io_fail ErrNotFound), kUpdatePV = (\<lambda>_. io_return ()),
     kGetPVC = (\<lambda>_ _. io_fail ErrNotFound), kUpdatePVC = (\<lambda>_. io_return ()), kPatchNode = (\<lambda>_ _. io_return ()),
     kDeletePod = (\<lambda>_ _. io_return ()), kListDeployments = (\<lambda>_. io_return []), kListStatefulSets = (\<lambda>_. io_return []),
     kListReplicaSets = (\<lambda>_. io_return []), kListDaemonSets = (\<lambda>_. io_return []), kGetSecret = (\<lambda>_ _. io_return [(''token'', ''t'')])\<rparr>"

theorem desiredFor_map_order_witness:
  "desiredFor demoClaim [(''n1'', demoAgent ''n1'' ''1''), (''n2'', demoAgent ''n2'' ''2'')] ''t'' None noOwnership =
   desiredFor demoClaim [(''n2'', demoAgent ''n2'' ''2''), (''n1'', demoAgent ''n1'' ''1'')] ''t'' None noOwnership"
  by (rule desiredFor_map_order) simp_all

lemma demoClaim_ownership: "ownershipPolicyFromAnnotations (pvcAnnotations demoClaim) = Inr noOwnership"
proof -
  have "gostr (pvcAnnotations demoClaim) key = ''''"
    if "key \<in> {AnnotationReplicationOwnerUID, AnnotationReplicationOwnerGID, AnnotationReplicationFileMode, AnnotationReplicationDirMode}" for key
    using that by (auto simp: demoClaim_def goget_def AnnotationReplicationEnabled_def AnnotationActiveNode_def
        AnnotationReplicationOwnerUID_def AnnotationReplicationOwnerGID_def AnnotationReplicationFileMode_def AnnotationReplicationDirMode_def)
  then show ?thesis
    by (simp add: ownershipPolicyFromAnnotations_def parseOptionalInt64Annotation_def parseOptionalModeAnnotation_def noOwnership_def)
qed

lemma demoDesired_run: "\<exists>out. DesiredReplications demoKubeApi id demoConfig ''t'' () = (Inr out, ())"
  by (simp add: DesiredReplications_def demoKubeApi_def demoConfig_def activePodForPVC_def demoClaim_ownership io_defs)

theorem DesiredReplications_wellPlaced_witness:
  "\<exists>out. DesiredReplications demoKubeApi id demoConfig ''t'' () = (Inr out, ()) \<and> sorted_wrt (\<lambda>a b. \<not> desiredBefore b a) out"
proof -
  obtain out where run: "DesiredReplications demoKubeApi id demoConfig ''t'' () = (Inr out, ())" using demoDesired_run by blast
  from DesiredReplications_wellPlaced [OF run] run show ?thesis by blast
qed

theorem ownership_annotations_roundtrip_witness:
  "ownershipPolicyFromAnnotations (policyAnnotations \<lparr>owUID = Some 1000, owGID = None, owFileMode = Some 0x1A4, owDirMode = None\<rparr>) =
     Inr \<lparr>owUID = Some 1000, owGID = None, owFileMode = Some 0x1A4, owDirMode = None\<rparr>"
proof -
  have "expressible \<lparr>owUID = Some 1000, owGID = None, owFileMode = Some 0x1A4, owDirMode = None\<rparr>"
    by (simp add: expressible_def)
  from ownership_annotations_roundtrip [OF this] show ?thesis by blast
qed

end
