(* ===== verification/GoUrl.thy ===== *)
theory GoUrl
  imports GoStrings
begin

text \<open>
  Query strings, \<^verbatim>\<open>net/url\<close>: escaping, reading and writing the values of a query, the query of
  a URL, and \<^verbatim>\<open>net.JoinHostPort\<close>. What one side of the program puts into a query is what the
  other side reads out of it.
\<close>

section \<open>Escaping\<close>

definition upperHex :: "nat \<Rightarrow> char" where
  "upperHex n = ''0123456789ABCDEF'' ! (n mod 16)"

definition unreserved :: "char \<Rightarrow> bool" where
  "unreserved c \<longleftrightarrow> c \<in> set ''-_.~'' \<or> list_ex (\<lambda>r. hd r \<le> c \<and> c \<le> last r) [''az'', ''AZ'', ''09'']"

definition queryChar :: "char \<Rightarrow> string" where
  "queryChar c =
     (if unreserved c then [c]
      else if c = CHR '' '' then ''+'' else [CHR ''%'', upperHex (byte c div 16), upperHex (byte c)])"

definition QueryEscape :: "string \<Rightarrow> string" where
  "QueryEscape s = concat (map queryChar s)"

definition unhex :: "char \<Rightarrow> nat option" where
  "unhex c =
     (if CHR ''0'' \<le> c \<and> c \<le> CHR ''9'' then Some (byte c - 48)
      else if CHR ''a'' \<le> c \<and> c \<le> CHR ''f'' then Some (byte c - 87)
      else if CHR ''A'' \<le> c \<and> c \<le> CHR ''F'' then Some (byte c - 55)
      else None)"

fun QueryUnescape :: "string \<Rightarrow> string option" where
  "QueryUnescape [] = Some []"
| "QueryUnescape (c # s) =
     (if c = CHR ''%'' then
        (case s of
           a # b # t \<Rightarrow>
             (case (unhex a, unhex b) of
                (Some x, Some y) \<Rightarrow> map_option ((#) (char_of (16 * x + y))) (QueryUnescape t)
              | _ \<Rightarrow> None)
         | _ \<Rightarrow> None)
      else map_option ((#) (if c = CHR ''+'' then CHR '' '' else c)) (QueryUnescape s))"

lemma unhex_upperHex: "unhex (upperHex n) = Some (n mod 16)"
proof -
  have "\<forall>k \<in> set [0..<16]. unhex (''0123456789ABCDEF'' ! k) = Some k" by code_simp
  then show ?thesis by (simp add: upperHex_def)
qed

lemma unreserved_plain: "unreserved c \<Longrightarrow> c \<noteq> CHR ''%'' \<and> c \<noteq> CHR ''+''"
  by (auto simp: unreserved_def less_eq_char_def)

lemma QueryUnescape_queryChar: "QueryUnescape (queryChar c @ s) = map_option ((#) c) (QueryUnescape s)"
proof -
  have "byte c div 16 < 16" using nat_of_char_less_256 [of c] by (simp add: less_mult_imp_div_less)
  then have "16 * (byte c div 16 mod 16) + byte c mod 16 = byte c" by simp
  then have "char_of (16 * (byte c div 16 mod 16) + byte c mod 16) = c" by (simp only: char_of_char)
  then show ?thesis
    using unreserved_plain [of c] by (simp add: queryChar_def unhex_upperHex)
qed

lemma QueryUnescape_QueryEscape [simp]: "QueryUnescape (QueryEscape s) = Some s"
  by (induction s) (simp_all add: QueryEscape_def QueryUnescape_queryChar)

text \<open>Escaped text has none of the characters that structure a URL.\<close>

lemma QueryEscape_plain: "c \<in> set (QueryEscape s) \<Longrightarrow> c \<notin> set ''&=;?#''"
proof -
  have hex: "upperHex n \<notin> set ''&=;?#''" for n
  proof -
    have "\<forall>k \<in> set [0..<16]. ''0123456789ABCDEF'' ! k \<notin> set ''&=;?#''" by code_simp
    then show ?thesis by (simp add: upperHex_def del: set_simps)
  qed
  have "c \<in> set (queryChar d) \<Longrightarrow> c \<notin> set ''&=;?#''" for d
    using hex by (auto simp: queryChar_def unreserved_def less_eq_char_def split: if_splits)
  then show "c \<in> set (QueryEscape s) \<Longrightarrow> c \<notin> set ''&=;?#''" by (auto simp: QueryEscape_def)
qed


section \<open>Queries\<close>

type_synonym url_values = "(string, string list) gomap"

definition Cut :: "char \<Rightarrow> string \<Rightarrow> string \<times> string" where
  "Cut sep s = (takeWhile (\<lambda>c. c \<noteq> sep) s, tl (dropWhile (\<lambda>c. c \<noteq> sep) s))"

definition valuesAdd :: "string \<Rightarrow> string \<Rightarrow> url_values \<Rightarrow> url_values" where
  "valuesAdd key v m = AList.update key (goget m key [] @ [v]) m"

definition parsePair :: "string \<Rightarrow> (string \<times> string) option" where
  "parsePair item =
     (if CHR '';'' \<in> set item \<or> item = '''' then None
      else case Cut (CHR ''='') item of
        (key, v) \<Rightarrow>
          (case (QueryUnescape key, QueryUnescape v) of
             (Some k, Some w) \<Rightarrow> Some (k, w)
           | _ \<Rightarrow> None))"

text \<open>\<^verbatim>\<open>URL.Query\<close> drops the pairs that are malformed.\<close>

definition ParseQuery :: "string \<Rightarrow> url_values" where
  "ParseQuery query = foldl (\<lambda>m item. case parsePair item of None \<Rightarrow> m | Some (k, v) \<Rightarrow> valuesAdd k v m) []
     (Split (CHR ''&'') query)"

definition queryPair :: "string \<times> string \<Rightarrow> string" where
  "queryPair kv = QueryEscape (fst kv) @ ''='' @ QueryEscape (snd kv)"

definition valuePairs :: "url_values \<Rightarrow> (string \<times> string) list" where
  "valuePairs m = concat (map (\<lambda>k. map (Pair k) (goget m k [])) (sort (remdups (gokeys m))))"

definition Encode :: "url_values \<Rightarrow> string" where
  "Encode m = Join ''&'' (map queryPair (valuePairs m))"

text \<open>The query of a URL: what follows the first question mark, up to the fragment.\<close>

definition RawQuery :: "string \<Rightarrow> string" where
  "RawQuery url = snd (Cut (CHR ''?'') (fst (Cut (CHR ''#'') url)))"

definition JoinHostPort :: "string \<Rightarrow> string \<Rightarrow> string" where
  "JoinHostPort host port = (if CHR '':'' \<in> set host then ''['' @ host @ '']:'' @ port else host @ '':'' @ port)"

lemma Cut_append: "sep \<notin> set a \<Longrightarrow> Cut sep (a @ sep # b) = (a, b)"
  by (induction a) (auto simp: Cut_def)

lemma Cut_none: "sep \<notin> set a \<Longrightarrow> Cut sep a = (a, [])"
  by (induction a) (auto simp: Cut_def)

lemma parsePair_queryPair: "parsePair (queryPair kv) = Some kv"
proof -
  have "CHR '';'' \<notin> set (queryPair kv)" "CHR ''='' \<notin> set (QueryEscape (fst kv))"
    using QueryEscape_plain by (fastforce simp: queryPair_def)+
  then show ?thesis
    using Cut_append [of "CHR ''=''" "QueryEscape (fst kv)" "QueryEscape (snd kv)"]
    by (simp add: parsePair_def queryPair_def)
qed

lemma ParseQuery_pairs: "ParseQuery (Join ''&'' (map queryPair kvs)) = foldl (\<lambda>m (k, v). valuesAdd k v m) [] kvs"
proof (cases "kvs = []")
  case True
  then show ?thesis by (simp add: ParseQuery_def parsePair_def)
next
  case False
  have "CHR ''&'' \<notin> set (queryPair kv)" for kv
    using QueryEscape_plain by (fastforce simp: queryPair_def)
  then have "Split (CHR ''&'') (Join ''&'' (map queryPair kvs)) = map queryPair kvs"
    using False by (intro Split_Join) auto
  then show ?thesis
    by (simp add: ParseQuery_def foldl_map parsePair_queryPair case_prod_unfold)
qed

lemma goget_valuesAdd: "goget (valuesAdd k v m) k' [] = goget m k' [] @ (if k' = k then [v] else [])"
  by (simp add: valuesAdd_def)

lemma goget_pairs:
  "goget (foldl (\<lambda>m (k, v). valuesAdd k v m) m kvs) k [] = goget m k [] @ map snd (filter (\<lambda>kv. fst kv = k) kvs)"
  by (induction kvs arbitrary: m) (auto simp: goget_valuesAdd)

text \<open>Values that are written as a query are read back.\<close>

lemma ParseQuery_Encode: "goget (ParseQuery (Encode m)) k [] = goget m k []"
proof -
  have "map snd (filter (\<lambda>kv. fst kv = k) (concat (map (\<lambda>k. map (Pair k) (goget m k [])) ks))) =
      (if k \<in> set ks then goget m k [] else [])" if "distinct ks" for ks
    using that by (induction ks) (auto simp: filter_map comp_def filter_empty_conv)
  moreover have "k \<notin> set (gokeys m) \<Longrightarrow> goget m k [] = []"
    by (simp add: gokeys_def goget_def map_of_eq_None_iff [THEN iffD2])
  ultimately show ?thesis
    by (simp add: Encode_def ParseQuery_pairs goget_pairs valuePairs_def goget_def [of "[]"])
qed

lemma RawQuery_append:
  assumes "CHR ''?'' \<notin> set base" "CHR ''#'' \<notin> set base" "CHR ''#'' \<notin> set q"
  shows "RawQuery (base @ ''?'' @ q) = q"
  using assms Cut_append [of "CHR ''?''" base q] Cut_none [of "CHR ''#''" "base @ ''?'' @ q"] by (simp add: RawQuery_def)

end
