(* ===== verification/Controller.thy ===== *)
theory Controller
  imports Desired GoUrl
begin

text \<open>
  \<^verbatim>\<open>internal/controller/replication_controller.go\<close>: the replication controller. Its maps and the
  failover controller it owns are the record \<open>ControllerState\<close>; each access under its mutex is
  one function on that state. A goroutine the code starts is a \<open>syncTask\<close> added to the state,
  and \<open>runFullSync\<close> is what it does.
\<close>

section \<open>The agents\<close>

datatype agentPayload = PWatchStart WatchStartRequest | PWatchStop WatchStopRequest
  | PFullSync FullSyncRequest | PShadowPrepare ShadowPrepareRequest

text \<open>
  The agents as HTTP peers: a request carries the value of its \<^verbatim>\<open>Authorization\<close> header, if
  any; replies are decoded from JSON by the given functions. The clock belongs here too.
\<close>

record 'k peers =
  peerPost :: "string \<Rightarrow> string option \<Rightarrow> agentPayload \<Rightarrow> ('k, http_reply) io"
  peerGet :: "string \<Rightarrow> string option \<Rightarrow> ('k, http_reply) io"
  decodeShadow :: "string \<Rightarrow> go_error + ShadowPrepareResponse"
  decodeStatus :: "string \<Rightarrow> go_error + WatchStatus"
  peerNow :: "('k, time) io"

definition returnedError :: "string \<Rightarrow> http_reply \<Rightarrow> go_error" where
  "returnedError url reply = Errorf (url @ '' returned '' @ hrText reply @ '': '' @ TrimSpace (take 512 (hrBody reply)))"

text \<open>\<^verbatim>\<open>postJSONDecode\<close> up to the decoding: the body of a successful reply.\<close>

definition postForBody :: "'k peers \<Rightarrow> string \<Rightarrow> string \<Rightarrow> agentPayload \<Rightarrow> ('k, string) io" where
  "postForBody peers url token payload =
     io_bind (peerPost peers url (Some (''Bearer '' @ token)) payload) (\<lambda>reply.
     if \<not> okStatus (hrStatus reply) then io_fail (returnedError url reply) else io_return (hrBody reply))"

definition postJSON :: "'k peers \<Rightarrow> string \<Rightarrow> string \<Rightarrow> agentPayload \<Rightarrow> ('k, unit) io" where
  "postJSON peers url token payload = io_bind (postForBody peers url token payload) (\<lambda>_. io_return ())"

definition postJSONDecode ::
    "'k peers \<Rightarrow> (string \<Rightarrow> go_error + 'a) \<Rightarrow> string \<Rightarrow> string \<Rightarrow> agentPayload \<Rightarrow> ('k, 'a) io" where
  "postJSONDecode peers decode url token payload =
     io_bind (postForBody peers url token payload) (\<lambda>body. io_lift (decode body))"

definition startWatchRequest :: "DesiredReplication \<Rightarrow> WatchStartRequest" where
  "startWatchRequest d = \<lparr>wsNamespace = drNamespace d, wsVolume = drVolume d,
     wsSource = \<lparr>srcWebDAVURL = drSourceURL d, srcUser = '''', srcPassword = ''''\<rparr>, wsTargets = targetRefs (drTargets d),
     wsIncludePaths = drIncludePaths d, wsExcludePaths = drExcludePaths d, wsOwnership = drOwnership d,
     wsDebounce = drDebounce d, wsConsistencyMode = drConsistencyMode d, wsConfirmedReplicas = Some (drConfirmedReplicas d)\<rparr>"

definition startWatch :: "'k peers \<Rightarrow> DesiredReplication \<Rightarrow> string \<Rightarrow> ('k, unit) io" where
  "startWatch peers d token = postJSON peers (TrimRight (agentHTTPURLFromWebDAV (drSourceURL d)) ''/'' @ ''/replication/watch/start'')
     token (PWatchStart (startWatchRequest d))"

definition stopWatch :: "'k peers \<Rightarrow> string \<Rightarrow> string \<Rightarrow> string \<Rightarrow> string \<Rightarrow> ('k, unit) io" where
  "stopWatch peers agentURL token namespace volume =
     (let url = TrimRight agentURL ''/'' @ ''/replication/watch/stop'' in
      io_bind (peerPost peers url (if token \<noteq> '''' then Some (''Bearer '' @ token) else None)
        (PWatchStop \<lparr>wpNamespace = namespace, wpVolume = volume\<rparr>)) (\<lambda>reply.
      if hrStatus reply = 404 then io_return ()
      else if \<not> okStatus (hrStatus reply) then io_fail (returnedError url reply)
      else io_return ()))"

definition emptyWatchStatus :: WatchStatus where
  "emptyWatchStatus = \<lparr>stNamespace = '''', stVolume = '''', stSource = \<lparr>srcWebDAVURL = '''', srcUser = '''', srcPassword = ''''\<rparr>,
     stTargets = [], stTargetStatuses = [], stIncludePaths = [], stExcludePaths = [], stOwnership = noOwnership,
     stConsistencyMode = '''', stConfirmedReplicas = 0, stRunning = False, stStartedAt = 0, stStoppedAt = None,
     stLastBatchAt = None, stLastBatchEventCount = 0, stLastBatchGeneration = '''', stLastDeliveryError = None,
     stLastWatchError = None, stDeliveredBatchCount = 0, stDeliveredEventCount = 0, stDeliveryFailureCount = 0\<rparr>"

definition statusURL :: "DesiredReplication \<Rightarrow> string" where
  "statusURL d = TrimRight (agentHTTPURLFromWebDAV (drSourceURL d)) ''/'' @ ''/replication/watch/status?namespace='' @
     QueryEscape (drNamespace d) @ ''&volume='' @ QueryEscape (drVolume d)"

definition watchStatus :: "'k peers \<Rightarrow> DesiredReplication \<Rightarrow> string \<Rightarrow> ('k, WatchStatus) io" where
  "watchStatus peers d token =
     (let url = statusURL d in
      io_bind (peerGet peers url (Some (''Bearer '' @ token))) (\<lambda>reply.
      if hrStatus reply = 404 then io_return emptyWatchStatus
      else if \<not> okStatus (hrStatus reply) then io_fail (returnedError url reply)
      else io_lift (decodeStatus peers (hrBody reply))))"

definition prepareShadow :: "'k peers \<Rightarrow> DesiredReplication \<Rightarrow> string \<Rightarrow> ('k, ShadowPrepareResponse) io" where
  "prepareShadow peers d token =
     io_bind (postJSONDecode peers (decodeShadow peers)
       (TrimRight (agentHTTPURLFromWebDAV (drSourceURL d)) ''/'' @ ''/replication/shadow/prepare'') token
       (PShadowPrepare \<lparr>spNamespace = drNamespace d, spVolume = drVolume d, spIncludePaths = drIncludePaths d,
         spExcludePaths = drExcludePaths d, spPruneExcluded = drPruneExcluded d, spRequiredPaths = drRequiredPaths d\<rparr>)) (\<lambda>out.
     if TrimSpace (srSourceBasePath out) = '''' then io_fail (Errorf ''shadow prepare returned empty sourceBasePath'')
     else io_return out)"

section \<open>The state of the controller\<close>

datatype syncKind = StartupSync | ScheduledSync | ManualSync

record syncTask =
  tkKind :: syncKind
  tkVolumeKey :: string
  tkSyncKey :: string
  tkDesired :: DesiredReplication
  tkToken :: string
  tkEpoch :: int
  tkSignature :: string
  tkScheduleKey :: string
  tkToday :: string

text \<open>The maps to booleans hold only \<^verbatim>\<open>true\<close>: they are lists of keys.\<close>

record ControllerState =
  rcStartedWatches :: "string \<rightharpoonup> string"
  rcCompletedSyncs :: "string list"
  rcRunningSyncs :: "string list"
  rcLastScheduledOn :: "string \<rightharpoonup> string"
  rcLastActiveNode :: "string \<rightharpoonup> string"
  rcActiveEpoch :: "string \<Rightarrow> int"
  rcFailover :: FailoverState
  rcTasks :: "syncTask list"

definition NewReplicationController :: ControllerState where
  "NewReplicationController = \<lparr>rcStartedWatches = Map.empty, rcCompletedSyncs = [], rcRunningSyncs = [],
     rcLastScheduledOn = Map.empty, rcLastActiveNode = Map.empty, rcActiveEpoch = (\<lambda>_. 0),
     rcFailover = NewFailoverController, rcTasks = []\<rparr>"

definition defaultConfig :: "ReplicationControllerConfig \<Rightarrow> ReplicationControllerConfig" where
  "defaultConfig cfg = \<lparr>
     cfgNamespace = (if cfgNamespace cfg = '''' then ''simple-volume-system'' else cfgNamespace cfg),
     cfgStorageClassName = (if cfgStorageClassName cfg = '''' then ''simple-volume'' else cfgStorageClassName cfg),
     cfgTokenSecretName = (if cfgTokenSecretName cfg = '''' then ''simple-volume-sync-token'' else cfgTokenSecretName cfg),
     cfgTokenSecretKey = (if cfgTokenSecretKey cfg = '''' then ''token'' else cfgTokenSecretKey cfg),
     cfgReconcileInterval = (if cfgReconcileInterval cfg \<le> 0 then 30 * second else cfgReconcileInterval cfg),
     cfgFailoverTimeout = (if cfgFailoverTimeout cfg \<le> 0 then 10 * second else cfgFailoverTimeout cfg),
     cfgHTTPTimeout = (if cfgHTTPTimeout cfg \<le> 0 then 3600 * second else cfgHTTPTimeout cfg),
     cfgAgentLabelSelector = (if cfgAgentLabelSelector cfg = '''' then ''app.kubernetes.io/component=node'' else cfgAgentLabelSelector cfg)\<rparr>"

text \<open>\<open>load\<close> and \<open>newClient\<close> are the cluster library's; the state is that of \<^const>\<open>NewReplicationController\<close>.\<close>

definition NewInClusterReplicationController ::
    "(go_error + 'r) \<Rightarrow> ('r \<Rightarrow> go_error + 'k kube) \<Rightarrow> ReplicationControllerConfig \<Rightarrow> go_error + 'k kube \<times> ReplicationControllerConfig" where
  "NewInClusterReplicationController load newClient cfg = (case load of
     Inl e \<Rightarrow> Inl (Wrapf ''load in-cluster config: '' e)
   | Inr restConfig \<Rightarrow> (case newClient restConfig of
       Inl e \<Rightarrow> Inl (Wrapf ''create kubernetes client: '' e)
     | Inr client \<Rightarrow> Inr (client, defaultConfig cfg)))"

definition desiredKey :: "DesiredReplication \<Rightarrow> string" where
  "desiredKey d = drNamespace d @ ''/'' @ drVolume d"

definition mapString :: "(string \<rightharpoonup> string) \<Rightarrow> string \<Rightarrow> string" where
  "mapString m key = (case m key of None \<Rightarrow> '''' | Some v \<Rightarrow> v)"

definition noteActiveNode :: "string \<Rightarrow> string \<Rightarrow> ControllerState \<Rightarrow> int \<times> ControllerState" where
  "noteActiveNode key activeNode c =
     (let previous = mapString (rcLastActiveNode c) key;
          c1 = (if previous \<noteq> '''' \<and> previous \<noteq> activeNode then
                  c\<lparr>rcActiveEpoch := (rcActiveEpoch c)(key := rcActiveEpoch c key + 1),
                    rcStartedWatches := (rcStartedWatches c)(key := None),
                    rcCompletedSyncs := filter (\<lambda>syncKey. \<not> HasPrefix syncKey (key @ '':'')) (rcCompletedSyncs c)\<rparr>
                else c);
          c2 = c1\<lparr>rcLastActiveNode := (rcLastActiveNode c1)(key \<mapsto> activeNode)\<rparr>
      in (rcActiveEpoch c2 key, c2))"

definition isCurrentActiveEpoch :: "string \<Rightarrow> string \<Rightarrow> int \<Rightarrow> ControllerState \<Rightarrow> bool" where
  "isCurrentActiveEpoch key activeNode epoch c \<longleftrightarrow>
     mapString (rcLastActiveNode c) key = activeNode \<and> rcActiveEpoch c key = epoch"

definition tryStartVolumeFullSync :: "string \<Rightarrow> string \<Rightarrow> ControllerState \<Rightarrow> bool \<times> ControllerState" where
  "tryStartVolumeFullSync vkey syncKey c =
     (if list_ex (\<lambda>key. HasPrefix key (vkey @ '':'')) (rcRunningSyncs c) then (False, c)
      else (True, c\<lparr>rcRunningSyncs := List.insert syncKey (rcRunningSyncs c)\<rparr>))"

definition finishSync :: "string \<Rightarrow> ControllerState \<Rightarrow> ControllerState" where
  "finishSync syncKey c = c\<lparr>rcRunningSyncs := filter (\<lambda>k. k \<noteq> syncKey) (rcRunningSyncs c)\<rparr>"

definition markCompleted :: "string \<Rightarrow> ControllerState \<Rightarrow> ControllerState" where
  "markCompleted syncKey c = c\<lparr>rcCompletedSyncs := List.insert syncKey (rcCompletedSyncs c)\<rparr>"

definition rememberWatch :: "string \<Rightarrow> string \<Rightarrow> ControllerState \<Rightarrow> ControllerState" where
  "rememberWatch key sig c = c\<lparr>rcStartedWatches := (rcStartedWatches c)(key \<mapsto> sig)\<rparr>"

definition rememberSchedule :: "string \<Rightarrow> string \<Rightarrow> ControllerState \<Rightarrow> ControllerState" where
  "rememberSchedule scheduleKey today c = c\<lparr>rcLastScheduledOn := (rcLastScheduledOn c)(scheduleKey \<mapsto> today)\<rparr>"

definition spawn :: "syncTask \<Rightarrow> ControllerState \<Rightarrow> ControllerState" where
  "spawn task c = c\<lparr>rcTasks := rcTasks c @ [task]\<rparr>"

definition onFailover :: "(FailoverState \<Rightarrow> FailoverState) \<Rightarrow> ControllerState \<Rightarrow> ControllerState" where
  "onFailover f c = c\<lparr>rcFailover := f (rcFailover c)\<rparr>"

text \<open>A critical section that returns a value, and a computation of the failover controller.\<close>

definition io_update :: "('c \<Rightarrow> 'a \<times> 'c) \<Rightarrow> ('c \<times> 'k, 'a) io" where
  "io_update f = (\<lambda>(c, k). case f c of (x, c') \<Rightarrow> (Inr x, (c', k)))"

definition io_failover :: "(FailoverState \<times> 'k, 'a) io \<Rightarrow> (ControllerState \<times> 'k, 'a) io" where
  "io_failover m = (\<lambda>(c, k). case m (rcFailover c, k) of (r, (f, k')) \<Rightarrow> (r, (c\<lparr>rcFailover := f\<rparr>, k')))"

declare io_update_def [io_defs] io_failover_def [io_defs]

section \<open>Full synchronisation of the targets\<close>

text \<open>The controller has its own copy of the agent's function.\<close>

definition confirmationThreshold :: "int \<Rightarrow> int \<Rightarrow> int" where
  "confirmationThreshold value targets =
     (if value \<le> 0 then 0 else if targets > 0 \<and> value > targets then targets else value)"

definition fullSyncRequest :: "DesiredReplication \<Rightarrow> string \<Rightarrow> bool \<Rightarrow> FullSyncRequest" where
  "fullSyncRequest d basePath backupExisting = \<lparr>fsNamespace = drNamespace d, fsVolume = drVolume d,
     fsSource = \<lparr>srcWebDAVURL = drSourceURL d, srcUser = '''', srcPassword = ''''\<rparr>, fsSourceBasePath = basePath,
     fsIncludePaths = drIncludePaths d, fsExcludePaths = drExcludePaths d, fsPruneExcluded = drPruneExcluded d,
     fsRequiredPaths = drRequiredPaths d, fsOwnership = drOwnership d, fsBackupExisting = backupExisting\<rparr>"

definition fullSyncURL :: "DesiredTarget \<Rightarrow> string" where
  "fullSyncURL target = TrimRight (trURL (dtRef target)) ''/'' @ ''/replication/full-sync''"

text \<open>One target: whether it accepted the request.\<close>

definition syncTarget :: "'k peers \<Rightarrow> DesiredReplication \<Rightarrow> string \<Rightarrow> string \<Rightarrow> DesiredTarget \<Rightarrow> (ControllerState \<times> 'k, bool) io" where
  "syncTarget peers d basePath token target =
     io_bind (io_get (\<lambda>c. ShouldBackupBeforeRestore (drNamespace d) (drVolume d) (dtNode target) (rcFailover c))) (\<lambda>backupExisting.
     io_try (io_outside (postJSON peers (fullSyncURL target) token
       (PFullSync (fullSyncRequest d basePath backupExisting)))) (\<lambda>r. case r of
         Inl e \<Rightarrow> io_return False
       | Inr _ \<Rightarrow>
           io_bind (io_outside (peerNow peers)) (\<lambda>now.
           io_bind (io_modify (onFailover (RecordReplicaFreshness (drNamespace d) (drVolume d) (dtNode target) now True))) (\<lambda>_.
           io_bind (if backupExisting then io_modify (onFailover (MarkRestored (drNamespace d) (drVolume d) (dtNode target)))
             else io_return ()) (\<lambda>_. io_return True)))))"

fun syncTargets :: "'k peers \<Rightarrow> DesiredReplication \<Rightarrow> string \<Rightarrow> string \<Rightarrow> DesiredTarget list \<Rightarrow> (ControllerState \<times> 'k, bool list) io" where
  "syncTargets peers d basePath token [] = io_return []"
| "syncTargets peers d basePath token (target # targets) =
     io_bind (syncTarget peers d basePath token target) (\<lambda>ok.
     io_bind (syncTargets peers d basePath token targets) (\<lambda>oks. io_return (ok # oks)))"

text \<open>The text of the final error, which joins the targets' errors, is not kept.\<close>

definition fullSyncTargets :: "'k peers \<Rightarrow> DesiredReplication \<Rightarrow> string \<Rightarrow> (ControllerState \<times> 'k, unit) io" where
  "fullSyncTargets peers d token =
     io_bind (if drConsistencyMode d = ConsistencyModeShadow
         then io_bind (io_outside (prepareShadow peers d token)) (\<lambda>resp. io_return (srSourceBasePath resp))
         else io_return '''') (\<lambda>basePath.
     io_bind (syncTargets peers d basePath token (drTargets d)) (\<lambda>oks.
     if int (length (filter id oks)) < confirmationThreshold (drConfirmedReplicas d) (int (length (drTargets d)))
     then io_fail (Errorf ''full sync failed'') else io_return ()))"

section \<open>Watches\<close>

definition startWatchAndRemember :: "'k peers \<Rightarrow> DesiredReplication \<Rightarrow> string \<Rightarrow> string \<Rightarrow> (ControllerState \<times> 'k, unit) io" where
  "startWatchAndRemember peers d token sig =
     io_bind (io_outside (startWatch peers d token)) (\<lambda>_. io_modify (rememberWatch (desiredKey d) sig))"

definition stopReplicaWatches :: "'k peers \<Rightarrow> DesiredReplication \<Rightarrow> string \<Rightarrow> (ControllerState \<times> 'k, unit) io" where
  "stopReplicaWatches peers d token =
     io_foreach (\<lambda>target. io_try (io_outside (stopWatch peers (trURL (dtRef target)) token (drNamespace d) (drVolume d)))
       (\<lambda>_. io_return ())) (drTargets d)"

text \<open>The map from URL to node: a later target of the same URL replaces an earlier one.\<close>

definition nodesByURL :: "DesiredReplication \<Rightarrow> (string, string) gomap" where
  "nodesByURL d = foldl (\<lambda>m t. AList.update (trURL (dtRef t)) (dtNode t) m) [] (drTargets d)"

definition recordWatchFreshness :: "DesiredReplication \<Rightarrow> WatchStatus \<Rightarrow> FailoverState \<Rightarrow> FailoverState" where
  "recordWatchFreshness d status f = foldl (\<lambda>f t.
     let node = gostr (nodesByURL d) (tsURL t) in
     if node = '''' then f
     else case tsLastSuccessfulSync t of
       None \<Rightarrow> f
     | Some at \<Rightarrow> RecordReplicaFreshness (drNamespace d) (drVolume d) node at (tsLastError t = None) f) f (stTargetStatuses status)"

definition ensureWatchStarted :: "'k peers \<Rightarrow> DesiredReplication \<Rightarrow> string \<Rightarrow> string \<Rightarrow> (ControllerState \<times> 'k, unit) io" where
  "ensureWatchStarted peers d token sig =
     io_bind (io_get (\<lambda>c. mapString (rcStartedWatches c) (desiredKey d) = sig)) (\<lambda>alreadyStarted.
     io_bind (if alreadyStarted then
         io_try (io_outside (watchStatus peers d token)) (\<lambda>r. case r of
           Inl e \<Rightarrow> io_return False
         | Inr status \<Rightarrow> if \<not> stRunning status then io_return False
             else io_bind (io_modify (onFailover (recordWatchFreshness d status))) (\<lambda>_. io_return True))
       else io_return False) (\<lambda>running.
     if \<not> running then io_bind (stopReplicaWatches peers d token) (\<lambda>_. startWatchAndRemember peers d token sig)
     else io_return ()))"

section \<open>Reconciling\<close>

text \<open>What a goroutine does after a successful synchronisation.\<close>

definition onSyncSuccess :: "'k peers \<Rightarrow> syncTask \<Rightarrow> (ControllerState \<times> 'k, unit) io" where
  "onSyncSuccess peers task =
     (let current = isCurrentActiveEpoch (tkVolumeKey task) (drActiveNode (tkDesired task)) (tkEpoch task) in
      case tkKind task of
        StartupSync \<Rightarrow> io_bind (io_get current) (\<lambda>cur.
          if \<not> cur then io_return ()
          else io_bind (io_modify (markCompleted (tkSyncKey task))) (\<lambda>_.
            io_try (startWatchAndRemember peers (tkDesired task) (tkToken task) (tkSignature task)) (\<lambda>_. io_return ())))
      | ScheduledSync \<Rightarrow> io_modify (rememberSchedule (tkScheduleKey task) (tkToday task))
      | ManualSync \<Rightarrow> io_bind (io_get current) (\<lambda>_. io_return ()))"

definition runFullSync :: "'k peers \<Rightarrow> syncTask \<Rightarrow> (ControllerState \<times> 'k, unit) io" where
  "runFullSync peers task =
     io_try (io_try (fullSyncTargets peers (tkDesired task) (tkToken task)) (\<lambda>r. case r of
         Inl e \<Rightarrow> io_return ()
       | Inr _ \<Rightarrow> onSyncSuccess peers task)) (\<lambda>_.
     io_modify (finishSync (tkSyncKey task)))"

definition startTask :: "syncKind \<Rightarrow> DesiredReplication \<Rightarrow> string \<Rightarrow> int \<Rightarrow> string \<Rightarrow> string \<Rightarrow> string \<Rightarrow> string \<Rightarrow> syncTask" where
  "startTask kind d token epoch sig syncKey scheduleKey today = \<lparr>tkKind = kind, tkVolumeKey = desiredKey d, tkSyncKey = syncKey,
     tkDesired = d, tkToken = token, tkEpoch = epoch, tkSignature = sig, tkScheduleKey = scheduleKey, tkToday = today\<rparr>"

text \<open>\<open>zone\<close> is the offset of the local time zone at an instant.\<close>

definition reconcileOne ::
    "'k peers \<Rightarrow> (time \<Rightarrow> duration) \<Rightarrow> DesiredReplication \<Rightarrow> string \<Rightarrow> time \<Rightarrow> (ControllerState \<times> 'k, unit) io" where
  "reconcileOne peers zone d token now =
     (let key = desiredKey d; localNow = now + zone now in
      io_bind (io_update (noteActiveNode key (drActiveNode d))) (\<lambda>epoch.
      let sig = ''epoch='' @ FormatInt epoch @ '':'' @ signature d; syncKey = key @ '':'' @ sig in
      io_bind (io_get (\<lambda>c. syncKey \<in> set (rcCompletedSyncs c))) (\<lambda>completed.
      if drFullSync d \<and> \<not> completed then
        io_bind (io_update (tryStartVolumeFullSync key syncKey)) (\<lambda>started.
        if started then
          io_bind (stopReplicaWatches peers d token) (\<lambda>_.
          io_modify (spawn (startTask StartupSync d token epoch sig syncKey '''' '''')))
        else io_return ())
      else
        io_bind (ensureWatchStarted peers d token sig) (\<lambda>_.
        if shouldRunScheduledFullSync (drFullSchedule d) localNow then
          let scheduleKey = key @ '':'' @ drFullSchedule d; today = FormatDate localNow; schedSync = scheduleKey @ '':'' @ today in
          io_bind (io_get (\<lambda>c. mapString (rcLastScheduledOn c) scheduleKey)) (\<lambda>last.
          if last = today then io_return ()
          else io_bind (io_update (tryStartVolumeFullSync key schedSync)) (\<lambda>started.
            if started then io_modify (spawn (startTask ScheduledSync d token epoch sig schedSync scheduleKey today))
            else io_return ()))
        else io_return ()))))"

definition controllerReconcile ::
    "'k kube \<Rightarrow> (Pod list \<Rightarrow> Pod list) \<Rightarrow> 'k peers \<Rightarrow> (time \<Rightarrow> duration) \<Rightarrow> ReplicationControllerConfig \<Rightarrow>
     (ControllerState \<times> 'k, unit) io" where
  "controllerReconcile kube sortByAge peers zone cfg =
     io_bind (io_outside (peerNow peers)) (\<lambda>now.
     io_try (io_failover (failoverReconcile kube cfg now)) (\<lambda>_.
     io_bind (io_outside (syncToken kube cfg)) (\<lambda>token.
     io_bind (io_outside (DesiredReplications kube sortByAge cfg token)) (\<lambda>desired.
     io_foreach (\<lambda>d. io_try (reconcileOne peers zone d token now) (\<lambda>_. io_return ())) desired))))"

text \<open>
  \<^verbatim>\<open>Run\<close> with the number of ticks before its context is cancelled: a pass at once and one per
  tick; a pass that fails is only logged.
\<close>

definition controllerRun ::
    "'k kube \<Rightarrow> (Pod list \<Rightarrow> Pod list) \<Rightarrow> 'k peers \<Rightarrow> (time \<Rightarrow> duration) \<Rightarrow> ReplicationControllerConfig \<Rightarrow> nat \<Rightarrow>
     (ControllerState \<times> 'k, unit) io" where
  "controllerRun kube sortByAge peers zone cfg ticks =
     io_bind (io_foreach (\<lambda>_. io_try (controllerReconcile kube sortByAge peers zone cfg) (\<lambda>_. io_return ())) [0..<Suc ticks]) (\<lambda>_.
     io_fail ErrCanceled)"

text \<open>\<^verbatim>\<open>RunReplicationController\<close>: a new controller that runs until it is cancelled.\<close>

definition RunReplicationController ::
    "(go_error + 'r) \<Rightarrow> ('r \<Rightarrow> go_error + 'k kube) \<Rightarrow> (Pod list \<Rightarrow> Pod list) \<Rightarrow> 'k peers \<Rightarrow> (time \<Rightarrow> duration) \<Rightarrow>
     ReplicationControllerConfig \<Rightarrow> nat \<Rightarrow> ('k, unit) io" where
  "RunReplicationController load newClient sortByAge peers zone cfg ticks =
     io_bind (io_lift (NewInClusterReplicationController load newClient cfg)) (\<lambda>(kube, config) k.
       case controllerRun kube sortByAge peers zone config ticks (NewReplicationController, k) of (r, (_, k')) \<Rightarrow> (r, k'))"

record ManualFullSyncResponse =
  mfNamespace :: string
  mfClaimName :: string
  mfVolume :: string
  mfActiveNode :: string
  mfTargets :: nat
  mfStarted :: bool
  mfReason :: string

definition TriggerFullSync ::
    "'k kube \<Rightarrow> (Pod list \<Rightarrow> Pod list) \<Rightarrow> ReplicationControllerConfig \<Rightarrow> string \<Rightarrow> string \<Rightarrow>
     (ControllerState \<times> 'k, ManualFullSyncResponse) io" where
  "TriggerFullSync kube sortByAge cfg namespace0 claimName0 =
     (let namespace = TrimSpace namespace0; claimName = TrimSpace claimName0 in
      if namespace = '''' \<or> claimName = '''' then io_fail (Errorf ''namespace and claimName are required'')
      else
        io_bind (io_outside (syncToken kube cfg)) (\<lambda>token.
        io_bind (io_outside (DesiredReplications kube sortByAge cfg token)) (\<lambda>desired.
        case find (\<lambda>d. drNamespace d = namespace \<and> drClaimName d = claimName) desired of
          None \<Rightarrow> io_fail (Errorf (''replication target '' @ namespace @ ''/'' @ claimName @ '' not found''))
        | Some d \<Rightarrow>
            let key = desiredKey d; syncKey = key @ '':manual'';
                resp = (\<lambda>started reason. \<lparr>mfNamespace = drNamespace d, mfClaimName = drClaimName d, mfVolume = drVolume d,
                  mfActiveNode = drActiveNode d, mfTargets = length (drTargets d), mfStarted = started, mfReason = reason\<rparr>) in
            io_bind (io_update (noteActiveNode key (drActiveNode d))) (\<lambda>epoch.
            io_bind (io_update (tryStartVolumeFullSync key syncKey)) (\<lambda>started.
            if \<not> started then io_return (resp False ''already-running'')
            else io_bind (io_modify (spawn (startTask ManualSync d token epoch '''' syncKey '''' ''''))) (\<lambda>_.
              io_return (resp True ''started'')))))))"

end
