(* ===== verification/ControllerProps.thy ===== *)
theory ControllerProps
  imports Controller
begin

text \<open>
  Properties of the replication controller: what a full synchronisation asks of the targets,
  and the state machine of its critical sections under the interleavings of the reconcile
  loop, the manual trigger and the synchronisation goroutines.
\<close>

section \<open>Restoring the targets\<close>

text \<open>The agents with the requests posted to them recorded.\<close>

definition tracedPeers :: "'k peers \<Rightarrow> ('k \<times> (string \<times> agentPayload) list) peers" where
  "tracedPeers peers = \<lparr>
     peerPost = (\<lambda>url auth payload. io_noisy (url, payload) (peerPost peers url auth payload)),
     peerGet = (\<lambda>url auth. io_quiet (peerGet peers url auth)),
     decodeShadow = decodeShadow peers, decodeStatus = decodeStatus peers, peerNow = io_quiet (peerNow peers)\<rparr>"

definition fullSyncPosts :: "(string \<times> agentPayload) list \<Rightarrow> (string \<times> FullSyncRequest) list" where
  "fullSyncPosts es = List.map_filter (\<lambda>(url, p). case p of PFullSync req \<Rightarrow> Some (url, req) | _ \<Rightarrow> None) es"

lemma fullSyncPosts_append [simp]: "fullSyncPosts (es @ fs) = fullSyncPosts es @ fullSyncPosts fs"
  by (simp add: fullSyncPosts_def map_filter_def)

lemma fullSyncPosts_Nil [simp]: "fullSyncPosts [] = []"
  by (simp add: fullSyncPosts_def map_filter_def)

lemma fullSyncPosts_single [simp]:
  "fullSyncPosts [(url, PFullSync req)] = [(url, req)]" "fullSyncPosts [(url, PShadowPrepare sreq)] = []"
  by (simp_all add: fullSyncPosts_def map_filter_def)

abbreviation backupNode :: "DesiredReplication \<Rightarrow> string \<Rightarrow> ControllerState \<Rightarrow> bool" where
  "backupNode d node c \<equiv> ShouldBackupBeforeRestore (drNamespace d) (drVolume d) node (rcFailover c)"

definition fullSyncPost :: "DesiredReplication \<Rightarrow> string \<Rightarrow> ControllerState \<Rightarrow> DesiredTarget \<Rightarrow> string \<times> FullSyncRequest" where
  "fullSyncPost d basePath c t = (fullSyncURL t, fullSyncRequest d basePath (backupNode d (dtNode t) c))"

lemma postJSON_traced:
  "postJSON (tracedPeers peers) url token payload = io_noisy (url, payload) (postJSON peers url token payload)"
  by (auto simp: postJSON_def postForBody_def tracedPeers_def io_noisy_def io_defs fun_eq_iff split: prod.splits sum.splits)

lemma syncTarget_run:
  assumes "syncTarget (tracedPeers peers) d basePath token t (c, (k, es)) = (Inr ok, (c', (k', es')))"
  shows "fullSyncPosts es' = fullSyncPosts es @ [fullSyncPost d basePath c t] \<and>
    (\<forall>n. backupNode d n c' \<longleftrightarrow> backupNode d n c \<and> \<not> (ok \<and> n = dtNode t))"
proof -
  let ?sb = "backupNode d (dtNode t) c" and ?ns = "drNamespace d" and ?v = "drVolume d" and ?n = "dtNode t"
  let ?req = "PFullSync (fullSyncRequest d basePath ?sb)"
  obtain x k1 where p: "postJSON peers (fullSyncURL t) token ?req k = (x, k1)" by fastforce
  have post: "io_outside (postJSON (tracedPeers peers) (fullSyncURL t) token ?req) (c, (k, es)) = (x, (c, (k1, es @ [(fullSyncURL t, ?req)])))"
    using p by (simp add: postJSON_traced io_noisy_def)
  show ?thesis
  proof (cases x)
    case (Inl e)
    with assms post show ?thesis by (auto simp: syncTarget_def io_bind_def io_get_def io_try_def fullSyncPost_def)
  next
    case (Inr u)
    have "(io_bind (io_outside (peerNow (tracedPeers peers))) (\<lambda>now.
           io_bind (io_modify (onFailover (RecordReplicaFreshness ?ns ?v ?n now True))) (\<lambda>_.
           io_bind (if ?sb then io_modify (onFailover (MarkRestored ?ns ?v ?n)) else io_return ()) (\<lambda>_. io_return True))))
        (c, (k1, es @ [(fullSyncURL t, ?req)])) = (Inr ok, (c', (k', es')))"
      using assms post Inr by (simp add: syncTarget_def io_bind_def io_get_def io_try_def)
    then obtain now where fin: "ok" "es' = es @ [(fullSyncURL t, ?req)]"
      "rcFailover c' = (if ?sb then MarkRestored ?ns ?v ?n (RecordReplicaFreshness ?ns ?v ?n now True (rcFailover c))
         else RecordReplicaFreshness ?ns ?v ?n now True (rcFailover c))"
      by (auto simp: io_bind_Inr tracedPeers_def io_quiet_def onFailover_def split: prod.splits if_splits)
    show ?thesis
      using fin(1,2) failoverRegistry.backup_settled [of ?ns ?v _ ?n "rcFailover c" now True]
      unfolding fin(3) by (auto simp: fullSyncPost_def)
  qed
qed

lemma syncTargets_run:
  assumes "distinct (map dtNode ts)"
    and "syncTargets (tracedPeers peers) d basePath token ts (c, (k, es)) = (Inr oks, (c', (k', es')))"
  shows "length oks = length ts \<and> fullSyncPosts es' = fullSyncPosts es @ map (fullSyncPost d basePath c) ts \<and>
    (\<forall>n. backupNode d n c' \<longleftrightarrow> backupNode d n c \<and> n \<notin> dtNode ` fst ` {x \<in> set (zip ts oks). snd x})"
  using assms
proof (induction ts arbitrary: c k es oks)
  case (Cons t ts)
  obtain ok c1 k1 es1 oks' where step: "syncTarget (tracedPeers peers) d basePath token t (c, (k, es)) = (Inr ok, (c1, (k1, es1)))"
    and rest: "syncTargets (tracedPeers peers) d basePath token ts (c1, (k1, es1)) = (Inr oks', (c', (k', es')))"
    and oks: "oks = ok # oks'"
    using Cons.prems(2) by (auto simp: io_bind_Inr)
  have IH: "length oks' = length ts \<and> fullSyncPosts es' = fullSyncPosts es1 @ map (fullSyncPost d basePath c1) ts \<and>
      (\<forall>n. backupNode d n c' \<longleftrightarrow> backupNode d n c1 \<and> n \<notin> dtNode ` fst ` {x \<in> set (zip ts oks'). snd x})"
    using Cons.IH [OF _ rest] Cons.prems(1) by simp
  note s = syncTarget_run [OF step]
  have "fullSyncPost d basePath c1 u = fullSyncPost d basePath c u" if "u \<in> set ts" for u
  proof -
    have "dtNode u \<noteq> dtNode t" using that Cons.prems(1) by (auto simp: image_iff)
    then have "backupNode d (dtNode u) c1 = backupNode d (dtNode u) c" using s by blast
    then show ?thesis by (simp add: fullSyncPost_def)
  qed
  then have "map (fullSyncPost d basePath c1) ts = map (fullSyncPost d basePath c) ts" by simp
  then show ?case using IH s oks by (auto simp: image_iff)
qed simp


section \<open>The controller under interleaving\<close>

text \<open>
  The threads of the controller between their critical sections: a reconcile pass (or a manual
  trigger) that has noted the active node of a volume; one that has found nothing left to
  synchronise and is about to start a watch; and a synchronisation goroutine that is still
  copying, has found its epoch current, or has recorded its completion.
\<close>

datatype syncPhase = Copying | Validated | Recorded

datatype ctl_thread =
    PassThread DesiredReplication int
  | WatchThread DesiredReplication int
  | SyncThread syncTask syncPhase

definition epochSignature :: "DesiredReplication \<Rightarrow> int \<Rightarrow> string" where
  "epochSignature d epoch = ''epoch='' @ FormatInt epoch @ '':'' @ signature d"

definition startupKey :: "DesiredReplication \<Rightarrow> int \<Rightarrow> string" where
  "startupKey d epoch = desiredKey d @ '':'' @ epochSignature d epoch"

text \<open>The names of Kubernetes objects hold no colon.\<close>

definition plainKey :: "string \<Rightarrow> bool" where
  "plainKey key \<longleftrightarrow> CHR '':'' \<notin> set key"

text \<open>The three goroutines that the code starts.\<close>

definition taskOf :: "syncKind \<Rightarrow> DesiredReplication \<Rightarrow> string \<Rightarrow> int \<Rightarrow> string \<Rightarrow> syncTask" where
  "taskOf kind d token epoch today = (case kind of
     StartupSync \<Rightarrow> startTask kind d token epoch (epochSignature d epoch) (startupKey d epoch) '''' ''''
   | ScheduledSync \<Rightarrow> startTask kind d token epoch (epochSignature d epoch)
       (desiredKey d @ '':'' @ drFullSchedule d @ '':'' @ today) (desiredKey d @ '':'' @ drFullSchedule d) today
   | ManualSync \<Rightarrow> startTask kind d token epoch '''' (desiredKey d @ '':manual'') '''' '''')"

definition wellFormedTask :: "syncTask \<Rightarrow> bool" where
  "wellFormedTask t \<longleftrightarrow> plainKey (tkVolumeKey t) \<and> tkVolumeKey t = desiredKey (tkDesired t) \<and> HasPrefix (tkSyncKey t) (tkVolumeKey t @ '':'') \<and>
     (tkKind t = StartupSync \<longrightarrow> tkSignature t = epochSignature (tkDesired t) (tkEpoch t) \<and>
        tkSyncKey t = startupKey (tkDesired t) (tkEpoch t))"

lemma wellFormedTaskD:
  assumes "wellFormedTask t"
  shows "plainKey (tkVolumeKey t)" "HasPrefix (tkSyncKey t) (tkVolumeKey t @ '':'')"
  using assms unfolding wellFormedTask_def by blast+

lemma taskOf_sel [simp]:
  "tkVolumeKey (taskOf kind d token epoch today) = desiredKey d" "tkDesired (taskOf kind d token epoch today) = d"
  "tkEpoch (taskOf kind d token epoch today) = epoch" "tkKind (taskOf kind d token epoch today) = kind"
  by (simp_all add: taskOf_def startTask_def split: syncKind.split)

lemma wellFormedTask_taskOf: "wellFormedTask (taskOf kind d token epoch today) \<longleftrightarrow> plainKey (desiredKey d)"
  by (cases kind) (auto simp: wellFormedTask_def taskOf_def startTask_def startupKey_def HasPrefix_iff)

text \<open>
  One critical section of one thread; a thread may also end at any time. \<open>V\<close> are the volumes
  that ask for a full synchronisation at start.
\<close>

inductive ctl_step :: "string set \<Rightarrow> ControllerState \<times> ctl_thread list \<Rightarrow> ControllerState \<times> ctl_thread list \<Rightarrow> bool"
  for V :: "string set" where
  note_active: "noteActiveNode (desiredKey d) (drActiveNode d) c = (epoch, c') \<Longrightarrow> plainKey (desiredKey d) \<Longrightarrow>
     (desiredKey d \<in> V \<longrightarrow> drFullSync d) \<Longrightarrow> ctl_step V (c, ts) (c', PassThread d epoch # ts)"
| begin_sync: "PassThread d epoch \<in> set ts \<Longrightarrow> t = taskOf kind d token epoch today \<Longrightarrow>
     tryStartVolumeFullSync (desiredKey d) (tkSyncKey t) c = (True, c') \<Longrightarrow> ctl_step V (c, ts) (c', SyncThread t Copying # ts)"
| no_sync_needed: "PassThread d epoch \<in> set ts \<Longrightarrow> (drFullSync d \<longrightarrow> startupKey d epoch \<in> set (rcCompletedSyncs c)) \<Longrightarrow>
     ctl_step V (c, ts) (c, WatchThread d epoch # ts)"
| watch: "WatchThread d epoch \<in> set ts \<Longrightarrow> ctl_step V (c, ts) (rememberWatch (desiredKey d) (epochSignature d epoch) c, ts)"
| validate: "isCurrentActiveEpoch (tkVolumeKey t) (drActiveNode (tkDesired t)) (tkEpoch t) c \<Longrightarrow> tkKind t = StartupSync \<Longrightarrow>
     ctl_step V (c, us @ SyncThread t Copying # ts) (c, us @ SyncThread t Validated # ts)"
| complete: "ctl_step V (c, us @ SyncThread t Validated # ts) (markCompleted (tkSyncKey t) c, us @ SyncThread t Recorded # ts)"
| watch_after_sync: "SyncThread t Recorded \<in> set ts \<Longrightarrow> ctl_step V (c, ts) (rememberWatch (tkVolumeKey t) (tkSignature t) c, ts)"
| schedule: "SyncThread t Copying \<in> set ts \<Longrightarrow> tkKind t = ScheduledSync \<Longrightarrow>
     ctl_step V (c, ts) (rememberSchedule (tkScheduleKey t) (tkToday t) c, ts)"
| finish: "ctl_step V (c, us @ SyncThread t ph # ts) (finishSync (tkSyncKey t) c, us @ ts)"
| pass_ends: "ctl_step V (c, us @ PassThread d epoch # ts) (c, us @ ts)"
| watch_ends: "ctl_step V (c, us @ WatchThread d epoch # ts) (c, us @ ts)"
| elsewhere: "ctl_step V (c, ts) (c\<lparr>rcFailover := f, rcTasks := tasks\<rparr>, ts)"

definition syncsOf :: "ctl_thread list \<Rightarrow> syncTask list" where
  "syncsOf ts = List.map_filter (\<lambda>th. case th of SyncThread t ph \<Rightarrow> Some t | _ \<Rightarrow> None) ts"

lemma syncsOf_simps [simp]:
  "syncsOf [] = []" "syncsOf (SyncThread t ph # ts) = t # syncsOf ts" "syncsOf (WatchThread d e # ts) = syncsOf ts"
  "syncsOf (PassThread d e # ts) = syncsOf ts" "syncsOf (us @ ts) = syncsOf us @ syncsOf ts"
  by (simp_all add: syncsOf_def map_filter_def)

lemma syncsOf_mem: "u \<in> set (syncsOf ts) \<longleftrightarrow> (\<exists>ph. SyncThread u ph \<in> set ts)"
proof (induction ts)
  case (Cons th ts)
  then show ?case by (cases th) auto
qed simp

text \<open>What a thread knows, as far as the epoch it works for is still the current one.\<close>

definition threadOK :: "string set \<Rightarrow> ControllerState \<Rightarrow> ctl_thread \<Rightarrow> bool" where
  "threadOK V c th = (case th of
     SyncThread t ph \<Rightarrow> wellFormedTask t \<and> tkEpoch t \<le> rcActiveEpoch c (tkVolumeKey t) \<and> (ph \<noteq> Copying \<longrightarrow> tkKind t = StartupSync) \<and>
       (ph = Recorded \<and> tkEpoch t = rcActiveEpoch c (tkVolumeKey t) \<longrightarrow> tkSyncKey t \<in> set (rcCompletedSyncs c))
   | PassThread d e \<Rightarrow> plainKey (desiredKey d) \<and> e \<le> rcActiveEpoch c (desiredKey d) \<and> (desiredKey d \<in> V \<longrightarrow> drFullSync d)
   | WatchThread d e \<Rightarrow> plainKey (desiredKey d) \<and> e \<le> rcActiveEpoch c (desiredKey d) \<and> (desiredKey d \<in> V \<longrightarrow> drFullSync d) \<and>
       (drFullSync d \<and> e = rcActiveEpoch c (desiredKey d) \<longrightarrow> startupKey d e \<in> set (rcCompletedSyncs c)))"

definition watchesOK :: "string set \<Rightarrow> ControllerState \<Rightarrow> bool" where
  "watchesOK V c \<longleftrightarrow> (\<forall>d e. desiredKey d \<in> V \<and> plainKey (desiredKey d) \<and> e = rcActiveEpoch c (desiredKey d) \<and>
     rcStartedWatches c (desiredKey d) = Some (epochSignature d e) \<longrightarrow> startupKey d e \<in> set (rcCompletedSyncs c))"

definition exclusive :: "ControllerState \<Rightarrow> syncTask list \<Rightarrow> bool" where
  "exclusive c tasks \<longleftrightarrow> set (rcRunningSyncs c) = tkSyncKey ` set tasks \<and> distinct (map tkVolumeKey tasks)"

definition ctl_inv :: "string set \<Rightarrow> ControllerState \<times> ctl_thread list \<Rightarrow> bool" where
  "ctl_inv V = (\<lambda>(c, ts). exclusive c (syncsOf ts) \<and> list_all (threadOK V c) ts \<and> watchesOK V c)"

lemma syncs_wellFormed:
  assumes "ctl_inv V (c, ts)" "u \<in> set (syncsOf ts)"
  shows "wellFormedTask u"
  using assms by (fastforce simp: ctl_inv_def list_all_iff threadOK_def syncsOf_mem)

lemma HasPrefix_key:
  assumes "plainKey a" "plainKey b" "HasPrefix (a @ '':'' @ s) (b @ '':'')"
  shows "a = b"
proof -
  obtain r where "a @ CHR '':'' # s = b @ CHR '':'' # r" using assms(3) by (auto simp: HasPrefix_iff)
  then show ?thesis using append_sep_inject assms(1,2) by (metis plainKey_def)
qed

lemma HasPrefix_key2:
  assumes "plainKey a" "plainKey b" "HasPrefix x (a @ '':'')" "HasPrefix x (b @ '':'')"
  shows "a = b"
proof -
  obtain s where "x = a @ '':'' @ s" using assms(3) by (auto simp: HasPrefix_iff)
  then show ?thesis using HasPrefix_key assms(1,2,4) by blast
qed

lemma FormatInt_no_colon: "CHR '':'' \<notin> set (FormatInt i)"
proof
  assume "CHR '':'' \<in> set (FormatInt i)"
  then have "CHR '':'' \<in> set (FormatUint 10 (nat \<bar>i\<bar>))" by (auto simp: FormatInt_def split: if_splits)
  from FormatUint_hd [OF _ _ this] show False by simp
qed

lemma epochSignature_inject:
  "epochSignature d e = epochSignature d' e' \<longleftrightarrow> e = e' \<and> signature d = signature d'"
proof -
  have "epochSignature d e = epochSignature d' e' \<longleftrightarrow> FormatInt e @ CHR '':'' # signature d = FormatInt e' @ CHR '':'' # signature d'"
    by (simp add: epochSignature_def)
  also have "\<dots> \<longleftrightarrow> FormatInt e = FormatInt e' \<and> signature d = signature d'"
    by (rule append_sep_inject) (rule FormatInt_no_colon)+
  also have "\<dots> \<longleftrightarrow> e = e' \<and> signature d = signature d'" using FormatInt_inject by auto
  finally show ?thesis .
qed

text \<open>Noting the active node moves the epoch of its volume on, or leaves it alone.\<close>

lemma noteActiveNode_cases:
  assumes "noteActiveNode key node c = (e, c')"
  obtains (same) "rcActiveEpoch c' = rcActiveEpoch c" "rcStartedWatches c' = rcStartedWatches c"
      "rcCompletedSyncs c' = rcCompletedSyncs c" "rcRunningSyncs c' = rcRunningSyncs c"
    | (moved) "rcActiveEpoch c' = (rcActiveEpoch c)(key := rcActiveEpoch c key + 1)"
      "rcStartedWatches c' = (rcStartedWatches c)(key := None)" "rcRunningSyncs c' = rcRunningSyncs c"
      "rcCompletedSyncs c' = filter (\<lambda>k. \<not> HasPrefix k (key @ '':'')) (rcCompletedSyncs c)"
  using assms by (auto simp: noteActiveNode_def Let_def split: if_splits)

lemma ctl_inv_note:
  assumes "ctl_inv V (c, ts)" "noteActiveNode key node c = (e, c')" "plainKey key"
  shows "ctl_inv V (c', ts)"
  using assms(2)
proof (cases rule: noteActiveNode_cases)
  case same
  have "threadOK V c' th = threadOK V c th" for th by (cases th) (simp_all add: threadOK_def same)
  moreover have "watchesOK V c' = watchesOK V c" by (simp add: watchesOK_def same)
  ultimately show ?thesis using assms(1) same by (simp add: ctl_inv_def exclusive_def list_all_iff)
next
  case moved
  have kept: "k \<in> set (rcCompletedSyncs c')" if "k \<in> set (rcCompletedSyncs c)" "\<not> HasPrefix k (key @ '':'')" for k
    using that moved by simp
  have sync: "\<not> HasPrefix (tkSyncKey t) (key @ '':'')" if "wellFormedTask t" "tkVolumeKey t \<noteq> key" for t
    using that HasPrefix_key2 [OF _ assms(3)] by (auto simp: wellFormedTask_def)
  have start: "\<not> HasPrefix (startupKey d i) (key @ '':'')" if "plainKey (desiredKey d)" "desiredKey d \<noteq> key" for d i
    using that HasPrefix_key [OF that(1) assms(3)] by (auto simp: startupKey_def)
  have "threadOK V c' th" if "threadOK V c th" for th
    using that moved(1) kept sync start by (cases th) (auto simp: threadOK_def)
  moreover have "watchesOK V c'"
    using assms(1) moved(1,2) kept start by (auto simp: ctl_inv_def watchesOK_def split: if_splits)
  ultimately show ?thesis
    using assms(1) moved(3) by (auto simp: ctl_inv_def exclusive_def list_all_iff)
qed

text \<open>The other critical sections: the epochs stay, and the record of completions grows.\<close>

lemma threadOK_mono:
  assumes "threadOK V c th" "rcActiveEpoch c' = rcActiveEpoch c" "set (rcCompletedSyncs c) \<subseteq> set (rcCompletedSyncs c')"
  shows "threadOK V c' th"
  using assms by (cases th) (auto simp: threadOK_def)

lemma watchesOK_mono:
  assumes "watchesOK V c" "rcActiveEpoch c' = rcActiveEpoch c" "set (rcCompletedSyncs c) \<subseteq> set (rcCompletedSyncs c')"
    and "rcStartedWatches c' = rcStartedWatches c"
  shows "watchesOK V c'"
  using assms by (auto simp: watchesOK_def)

lemma list_all_threadOK_mono:
  assumes "list_all (threadOK V c) ts" "rcActiveEpoch c' = rcActiveEpoch c"
    and "set (rcCompletedSyncs c) \<subseteq> set (rcCompletedSyncs c')"
  shows "list_all (threadOK V c') ts"
  using assms threadOK_mono by (auto simp: list_all_iff)

lemma watchesOK_rememberWatch:
  assumes "watchesOK V c"
    and "desiredKey d \<in> V \<Longrightarrow> e = rcActiveEpoch c (desiredKey d) \<Longrightarrow> startupKey d e \<in> set (rcCompletedSyncs c)"
  shows "watchesOK V (rememberWatch (desiredKey d) (epochSignature d e) c)"
proof -
  have "startupKey d' e' \<in> set (rcCompletedSyncs c)"
    if "desiredKey d' = desiredKey d" "epochSignature d' e' = epochSignature d e" "desiredKey d \<in> V" "e' = rcActiveEpoch c (desiredKey d)"
    for d' e'
    using that assms(2) epochSignature_inject [of d' e' d e] by (simp add: startupKey_def)
  then show ?thesis using assms(1) by (auto simp: watchesOK_def rememberWatch_def)
qed

lemma ctl_inv_rememberWatch:
  assumes "ctl_inv V (c, ts)"
    and "desiredKey d \<in> V \<Longrightarrow> e = rcActiveEpoch c (desiredKey d) \<Longrightarrow> startupKey d e \<in> set (rcCompletedSyncs c)"
  shows "ctl_inv V (rememberWatch (desiredKey d) (epochSignature d e) c, ts)"
  using assms(1) watchesOK_rememberWatch [OF _ assms(2)] list_all_threadOK_mono [of V c ts "rememberWatch (desiredKey d) (epochSignature d e) c"]
  by (auto simp: ctl_inv_def exclusive_def rememberWatch_def)

lemma ctl_inv_begin:
  assumes inv: "ctl_inv V (c, ts)" and pass: "PassThread d epoch \<in> set ts" and t: "t = taskOf kind d token epoch today"
    and start: "tryStartVolumeFullSync (desiredKey d) (tkSyncKey t) c = (True, c')"
  shows "ctl_inv V (c', SyncThread t Copying # ts)"
proof -
  have c': "c' = c\<lparr>rcRunningSyncs := List.insert (tkSyncKey t) (rcRunningSyncs c)\<rparr>"
    and free: "\<And>k. k \<in> set (rcRunningSyncs c) \<Longrightarrow> \<not> HasPrefix k (desiredKey d @ '':'')"
    using start by (auto simp: tryStartVolumeFullSync_def list_ex_iff split: if_splits)
  have known: "plainKey (desiredKey d)" "epoch \<le> rcActiveEpoch c (desiredKey d)"
    using inv pass by (auto simp: ctl_inv_def list_all_iff threadOK_def)
  have "desiredKey d \<noteq> tkVolumeKey u" if "u \<in> set (syncsOf ts)" for u
  proof -
    have "HasPrefix (tkSyncKey u) (tkVolumeKey u @ '':'')" using syncs_wellFormed [OF inv that] by (rule wellFormedTaskD)
    then show ?thesis using free inv that by (auto simp: ctl_inv_def exclusive_def)
  qed
  then have "exclusive c' (t # syncsOf ts)" using inv by (auto simp: ctl_inv_def exclusive_def c' t)
  moreover have "threadOK V c' (SyncThread t Copying)" using known by (simp add: threadOK_def wellFormedTask_taskOf t c')
  moreover have "list_all (threadOK V c') ts" using inv list_all_threadOK_mono [of V c ts c'] by (simp add: ctl_inv_def c')
  moreover have "watchesOK V c'" using inv watchesOK_mono [of V c c'] by (simp add: ctl_inv_def c')
  ultimately show ?thesis by (simp add: ctl_inv_def)
qed

lemma ctl_inv_finish:
  assumes "ctl_inv V (c, us @ SyncThread t ph # ts)"
  shows "ctl_inv V (finishSync (tkSyncKey t) c, us @ ts)"
proof -
  let ?rest = "syncsOf us @ syncsOf ts"
  have wf: "wellFormedTask u" if "u \<in> set (t # ?rest)" for u
    using syncs_wellFormed [OF assms] that by auto
  have other: "tkSyncKey u \<noteq> tkSyncKey t" if "u \<in> set ?rest" for u
  proof
    assume same: "tkSyncKey u = tkSyncKey t"
    have "wellFormedTask u" "wellFormedTask t" using wf that by auto
    then have "tkVolumeKey u = tkVolumeKey t"
      using HasPrefix_key2 [OF _ _ _ wellFormedTaskD(2) [of t, folded same]] wellFormedTaskD by blast
    moreover have "tkVolumeKey t \<notin> tkVolumeKey ` set ?rest"
      using assms by (auto simp: ctl_inv_def exclusive_def)
    ultimately show False using that by (metis imageI)
  qed
  have "set (rcRunningSyncs c) = insert (tkSyncKey t) (tkSyncKey ` set ?rest)"
    using assms by (auto simp: ctl_inv_def exclusive_def)
  then have "exclusive (finishSync (tkSyncKey t) c) ?rest"
    using assms other by (auto simp: ctl_inv_def exclusive_def finishSync_def)
  moreover have "list_all (threadOK V (finishSync (tkSyncKey t) c)) (us @ ts)"
    using assms list_all_threadOK_mono [of V c "us @ ts" "finishSync (tkSyncKey t) c"] by (simp add: ctl_inv_def finishSync_def)
  moreover have "watchesOK V (finishSync (tkSyncKey t) c)"
    using assms watchesOK_mono [of V c "finishSync (tkSyncKey t) c"] by (simp add: ctl_inv_def finishSync_def)
  ultimately show ?thesis by (simp add: ctl_inv_def)
qed

lemma ctl_inv_complete:
  assumes "ctl_inv V (c, us @ SyncThread t Validated # ts)"
  shows "ctl_inv V (markCompleted (tkSyncKey t) c, us @ SyncThread t Recorded # ts)"
proof -
  let ?c = "markCompleted (tkSyncKey t) c"
  have "list_all (threadOK V c) (us @ SyncThread t Validated # ts)" using assms by (simp add: ctl_inv_def)
  then have "list_all (threadOK V ?c) (us @ SyncThread t Validated # ts)"
    by (rule list_all_threadOK_mono) (auto simp: markCompleted_def)
  then have "list_all (threadOK V ?c) (us @ SyncThread t Recorded # ts)"
    by (auto simp: threadOK_def markCompleted_def)
  moreover have "watchesOK V ?c" using assms watchesOK_mono [of V c ?c] by (auto simp: ctl_inv_def markCompleted_def)
  ultimately show ?thesis using assms by (simp add: ctl_inv_def exclusive_def markCompleted_def)
qed

lemma ctl_inv_elsewhere:
  assumes "ctl_inv V (c, ts)" "rcActiveEpoch c' = rcActiveEpoch c" "rcCompletedSyncs c' = rcCompletedSyncs c"
    and "rcStartedWatches c' = rcStartedWatches c" "rcRunningSyncs c' = rcRunningSyncs c"
  shows "ctl_inv V (c', ts)"
  using assms list_all_threadOK_mono [of V c ts c'] watchesOK_mono [of V c c'] by (simp add: ctl_inv_def exclusive_def)

lemma ctl_inv_initial: "ctl_inv V (NewReplicationController, [])"
  by (simp add: ctl_inv_def exclusive_def watchesOK_def NewReplicationController_def)

lemma ctl_inv_thread: "ctl_inv V (c, ts) \<Longrightarrow> t \<in> set ts \<Longrightarrow> threadOK V c t"
  by (auto simp: ctl_inv_def list_all_iff)

lemma ctl_inv_step:
  assumes "ctl_step V s s'" "ctl_inv V s"
  shows "ctl_inv V s'"
  using assms
proof (cases rule: ctl_step.cases)
  case (note_active d c epoch c' ts)
  then have "ctl_inv V (c', ts)" "epoch = rcActiveEpoch c' (desiredKey d)"
    using assms(2) ctl_inv_note by (auto simp: noteActiveNode_def Let_def)
  with note_active show ?thesis by (simp add: ctl_inv_def threadOK_def)
next
  case (begin_sync d epoch ts t kind token today c c')
  then show ?thesis using ctl_inv_begin assms(2) by blast
next
  case (no_sync_needed d epoch ts c)
  then have "threadOK V c (PassThread d epoch)" using assms(2) ctl_inv_thread by blast
  then have "threadOK V c (WatchThread d epoch)" using no_sync_needed by (auto simp: threadOK_def)
  then show ?thesis using no_sync_needed assms(2) by (simp add: ctl_inv_def)
next
  case (watch d epoch ts c)
  then have "threadOK V c (WatchThread d epoch)" using assms(2) ctl_inv_thread by blast
  then show ?thesis using watch assms(2) ctl_inv_rememberWatch [of V c ts d epoch] by (simp add: threadOK_def)
next
  case (validate t c us ts)
  then show ?thesis using assms(2) by (simp add: ctl_inv_def threadOK_def)
next
  case (complete c us t ts)
  then show ?thesis using assms(2) ctl_inv_complete by blast
next
  case (watch_after_sync t ts c)
  then have "threadOK V c (SyncThread t Recorded)" using assms(2) ctl_inv_thread by blast
  then have "tkSignature t = epochSignature (tkDesired t) (tkEpoch t)" "tkVolumeKey t = desiredKey (tkDesired t)"
    "tkEpoch t = rcActiveEpoch c (desiredKey (tkDesired t)) \<Longrightarrow> startupKey (tkDesired t) (tkEpoch t) \<in> set (rcCompletedSyncs c)"
    by (auto simp: threadOK_def wellFormedTask_def)
  then show ?thesis
    using watch_after_sync assms(2) ctl_inv_rememberWatch [of V c ts "tkDesired t" "tkEpoch t"] by simp
next
  case (schedule t ts c)
  then show ?thesis using assms(2) by (auto intro: ctl_inv_elsewhere simp: rememberSchedule_def)
next
  case (finish c us t ph ts)
  then show ?thesis using assms(2) ctl_inv_finish by blast
next
  case (pass_ends c us d epoch ts)
  then show ?thesis using assms(2) by (simp add: ctl_inv_def)
next
  case (watch_ends c us d epoch ts)
  then show ?thesis using assms(2) by (simp add: ctl_inv_def)
next
  case (elsewhere c ts f tasks)
  then show ?thesis using assms(2) by (auto intro: ctl_inv_elsewhere)
qed

definition ctl_reachable :: "string set \<Rightarrow> ControllerState \<times> ctl_thread list \<Rightarrow> bool" where
  "ctl_reachable V = (ctl_step V)\<^sup>*\<^sup>* (NewReplicationController, [])"

lemma ctl_inv_reachable:
  assumes "ctl_reachable V s"
  shows "ctl_inv V s"
  using assms unfolding ctl_reachable_def
  by (induction rule: rtranclp_induct) (auto intro: ctl_inv_initial ctl_inv_step)

text \<open>
  C6. However reconcile passes, manual triggers and synchronisation goroutines interleave, at
  most one full synchronisation of a volume runs at a time, and the running ones are exactly
  the ones the controller has on record.
\<close>

theorem one_sync_per_volume:
  assumes "ctl_reachable V (c, ts)"
  shows "distinct (map tkVolumeKey (syncsOf ts)) \<and> set (rcRunningSyncs c) = tkSyncKey ` set (syncsOf ts)"
  using ctl_inv_reachable [OF assms] by (simp add: ctl_inv_def exclusive_def)


section \<open>The operations are runs of the step relation\<close>

abbreviation copying :: "syncTask \<Rightarrow> ctl_thread" where
  "copying t \<equiv> SyncThread t Copying"

definition sim :: "string set \<Rightarrow> ControllerState \<times> ctl_thread list \<Rightarrow> syncTask list \<Rightarrow> ctl_thread list \<Rightarrow> syncTask list \<Rightarrow>
    ControllerState \<times> 'k \<Rightarrow> bool" where
  "sim V s0 new ps tasks = (\<lambda>(c, k). (ctl_step V)\<^sup>*\<^sup>* s0 (c, map copying new @ ps @ snd s0) \<and> rcTasks c = tasks)"

lemma sim_step:
  assumes "sim V s0 new ps tasks (c, k)" "rcTasks c' = tasks'"
    and "ctl_step V (c, map copying new @ ps @ snd s0) (c', map copying new' @ ps' @ snd s0)"
  shows "sim V s0 new' ps' tasks' (c', k')"
  using assms by (auto simp: sim_def intro: rtranclp.rtrancl_into_rtrancl)

lemma sim_outside: "io_inv (sim V s0 new ps tasks) (io_outside m)"
  by (rule io_inv_outside) (simp add: sim_def io_inv_def)

lemma sim_elsewhere:
  assumes "sim V s0 new ps tasks (c, k)"
  shows "sim V s0 new ps tasks' (c\<lparr>rcFailover := f, rcTasks := tasks'\<rparr>, k)"
  using assms by (rule sim_step) (auto intro: ctl_step.elsewhere)

lemma sim_onFailover: "sim V s0 new ps tasks (c, k) \<Longrightarrow> sim V s0 new ps tasks (onFailover f c, k)"
  using sim_elsewhere [of V s0 new ps tasks c k tasks "f (rcFailover c)"] by (auto simp: sim_def onFailover_def)

lemma sim_spawn: "sim V s0 new ps tasks (c, k) \<Longrightarrow> sim V s0 new ps (tasks @ [t]) (spawn t c, k)"
  using sim_elsewhere [of V s0 new ps tasks c k "tasks @ [t]" "rcFailover c"] by (auto simp: sim_def spawn_def)

lemma sim_watch:
  assumes "sim V s0 new ps tasks (c, k)" "WatchThread d e \<in> set ps"
  shows "sim V s0 new ps tasks (rememberWatch (desiredKey d) (epochSignature d e) c, k)"
proof -
  have "ctl_step V (c, map copying new @ ps @ snd s0)
      (rememberWatch (desiredKey d) (epochSignature d e) c, map copying new @ ps @ snd s0)"
    using assms(2) by (auto intro: ctl_step.watch)
  then show ?thesis using assms(1) by (auto intro!: sim_step [OF assms(1)] simp: sim_def rememberWatch_def)
qed

lemma sim_ends:
  assumes "sim V s0 new ps tasks s" "set ps \<subseteq> {PassThread d e, WatchThread d e}"
  shows "sim V s0 new [] tasks s"
  using assms
proof (induction ps)
  case (Cons p ps)
  obtain c k where s: "s = (c, k)" by fastforce
  have "ctl_step V (c, map copying new @ p # ps @ snd s0) (c, map copying new @ ps @ snd s0)"
    using Cons.prems(2) by (auto intro: ctl_step.pass_ends ctl_step.watch_ends)
  then have "sim V s0 new ps tasks s" using Cons.prems(1) unfolding s by (auto intro: sim_step simp: sim_def)
  then show ?case using Cons by simp
qed

lemma sim_begin:
  assumes "sim V s0 new ps tasks (c, k)" "PassThread d e \<in> set ps" "t = taskOf kind d token e today"
  shows "case tryStartVolumeFullSync (desiredKey d) (tkSyncKey t) c of
    (True, c') \<Rightarrow> sim V s0 (t # new) ps tasks (c', k) | (False, c') \<Rightarrow> sim V s0 new ps tasks (c', k)"
proof (cases "tryStartVolumeFullSync (desiredKey d) (tkSyncKey t) c")
  case (Pair started c')
  then have tasks: "rcTasks c' = tasks" "\<not> started \<Longrightarrow> c' = c"
    using assms(1) by (auto simp: tryStartVolumeFullSync_def sim_def split: if_splits)
  show ?thesis
  proof (cases started)
    case True
    then have "ctl_step V (c, map copying new @ ps @ snd s0) (c', map copying (t # new) @ ps @ snd s0)"
      using assms Pair by (auto intro: ctl_step.begin_sync)
    with assms(1) True Pair tasks(1) show ?thesis by (auto intro: sim_step)
  qed (use assms(1) Pair tasks(2) in auto)
qed

lemma stopReplicaWatches_sim:
  "io_triple (sim V s0 new ps tasks) (stopReplicaWatches peers d token) (\<lambda>_. sim V s0 new ps tasks) (\<lambda>_. False)"
  unfolding stopReplicaWatches_def
proof (rule io_triple_foreach, rule io_triple_try)
  show "io_triple (sim V s0 new ps tasks) (io_outside m) (\<lambda>_. sim V s0 new ps tasks) (\<lambda>s. \<forall>e. sim V s0 new ps tasks s)" for m
    using io_triple_inv [OF sim_outside] by simp
qed (rule io_triple_return)

lemma ensureWatchStarted_sim:
  assumes "WatchThread d e \<in> set ps"
  shows "io_inv (sim V s0 new ps tasks) (ensureWatchStarted peers d token (epochSignature d e))"
proof -
  have "io_inv (sim V s0 new ps tasks) (io_modify (rememberWatch (desiredKey d) (epochSignature d e)))"
    by (rule io_inv_modify) (rule sim_watch [OF _ assms])
  then have start: "io_inv (sim V s0 new ps tasks) (startWatchAndRemember peers d token (epochSignature d e))"
    unfolding startWatchAndRemember_def by (intro io_inv_bind sim_outside)
  have fresh: "io_inv (sim V s0 new ps tasks) (io_modify (onFailover f))" for f
    by (rule io_inv_modify) (rule sim_onFailover)
  have "io_inv (sim V s0 new ps tasks) (stopReplicaWatches peers d token)"
    unfolding stopReplicaWatches_def by (intro io_inv_intros sim_outside)
  then show ?thesis
    unfolding ensureWatchStarted_def by (auto intro!: io_inv_intros sim_outside start fresh split: sum.split)
qed

text \<open>Starting a synchronisation, as the reconcile pass does it: claim the volume, then spawn the goroutine.\<close>

definition simDone :: "string set \<Rightarrow> ControllerState \<times> ctl_thread list \<Rightarrow> ctl_thread list \<Rightarrow> ControllerState \<times> 'k \<Rightarrow> bool" where
  "simDone V s0 ps s \<longleftrightarrow> (\<exists>new. sim V s0 new ps (rcTasks (fst s0) @ new) s)"

lemma simDoneI: "sim V s0 [] ps (rcTasks (fst s0)) s \<Longrightarrow> simDone V s0 ps s"
  unfolding simDone_def by (rule exI [of _ "[]"]) simp

lemma tryStart_sim:
  assumes "PassThread d e \<in> set ps" "t = taskOf kind d token e today"
  shows "io_triple (sim V s0 [] ps tasks) (io_update (tryStartVolumeFullSync (desiredKey d) (tkSyncKey t)))
    (\<lambda>started. if started then sim V s0 [t] ps tasks else sim V s0 [] ps tasks) E"
  using sim_begin [OF _ assms, of V s0 "[]" tasks]
  by (force simp: io_triple_def io_update_def split: prod.splits bool.splits)

lemma spawn_sim:
  assumes "PassThread d e \<in> set ps" "t = taskOf kind d token e today"
    and "io_triple (sim V s0 [t] ps (rcTasks (fst s0))) before (\<lambda>_. sim V s0 [t] ps (rcTasks (fst s0))) (\<lambda>_. False)"
  shows "io_triple (sim V s0 [] ps (rcTasks (fst s0))) (io_bind (io_update (tryStartVolumeFullSync (desiredKey d) (tkSyncKey t))) (\<lambda>started.
      if started then io_bind before (\<lambda>_. io_modify (spawn t)) else io_return ()))
    (\<lambda>_. simDone V s0 ps) (simDone V s0 ps)"
proof (rule io_triple_bind [OF tryStart_sim [OF assms(1,2)]])
  fix started
  have "io_triple (sim V s0 [t] ps (rcTasks (fst s0))) (io_bind before (\<lambda>_. io_modify (spawn t))) (\<lambda>_. simDone V s0 ps) (simDone V s0 ps)"
  proof (rule io_triple_bind)
    show "io_triple (sim V s0 [t] ps (rcTasks (fst s0))) before (\<lambda>_. sim V s0 [t] ps (rcTasks (fst s0))) (simDone V s0 ps)"
      using assms(3) by (rule io_triple_conseq) auto
    show "io_triple (sim V s0 [t] ps (rcTasks (fst s0))) (io_modify (spawn t)) (\<lambda>_. simDone V s0 ps) (simDone V s0 ps)"
      by (rule io_triple_modify) (auto simp: simDone_def dest: sim_spawn)
  qed
  then show "io_triple (if started then sim V s0 [t] ps (rcTasks (fst s0)) else sim V s0 [] ps (rcTasks (fst s0)))
      (if started then io_bind before (\<lambda>_. io_modify (spawn t)) else io_return ())
      (\<lambda>_. simDone V s0 ps) (simDone V s0 ps)"
    by (auto intro!: io_triple_return simDoneI)
qed

lemma simDone_ends:
  assumes "simDone V s0 ps s" "set ps \<subseteq> {PassThread d e, WatchThread d e}"
  shows "simDone V s0 [] s"
  using assms sim_ends unfolding simDone_def by blast

lemma sim_note:
  assumes "plainKey (desiredKey d)" "desiredKey d \<in> V \<longrightarrow> drFullSync d"
  shows "io_triple (\<lambda>(c, k). c = c0) (io_update (noteActiveNode (desiredKey d) (drActiveNode d)))
    (\<lambda>e. sim V (c0, ts) [] [PassThread d e] (rcTasks c0)) E"
proof -
  have "sim V (c0, ts) [] [PassThread d e] (rcTasks c0) (c', k)" if "noteActiveNode (desiredKey d) (drActiveNode d) c0 = (e, c')"
    for e c' and k :: 'a
  proof -
    have "ctl_step V (c0, ts) (c', PassThread d e # ts)" using that assms by (rule ctl_step.note_active)
    moreover have "rcTasks c' = rcTasks c0" using that by (auto simp: noteActiveNode_def Let_def split: if_splits)
    ultimately show ?thesis by (auto simp: sim_def)
  qed
  then show ?thesis by (auto simp: io_triple_def io_update_def split: prod.splits)
qed

lemma sim_no_sync_needed:
  assumes "sim V s0 [] [PassThread d e] tasks (c, k)" "drFullSync d \<longrightarrow> startupKey d e \<in> set (rcCompletedSyncs c)"
  shows "sim V s0 [] [WatchThread d e, PassThread d e] tasks (c, k)"
  using assms(1) by (rule sim_step) (use assms in \<open>auto simp: sim_def intro: ctl_step.no_sync_needed\<close>)

lemma scheduled_sim:
  assumes "PassThread d e \<in> set ps"
  shows "io_triple (sim V s0 [] ps (rcTasks (fst s0)))
    (io_bind (io_update (tryStartVolumeFullSync (desiredKey d) (desiredKey d @ '':'' @ drFullSchedule d @ '':'' @ today))) (\<lambda>started.
      if started then io_modify (spawn (taskOf ScheduledSync d token e today)) else io_return ()))
    (\<lambda>_. simDone V s0 ps) (simDone V s0 ps)"
proof -
  have "tkSyncKey (taskOf ScheduledSync d token e today) = desiredKey d @ '':'' @ drFullSchedule d @ '':'' @ today"
    by (simp add: taskOf_def startTask_def)
  then show ?thesis
    using spawn_sim [OF assms refl, of V s0 ScheduledSync token today "io_return ()"]
    unfolding io_bind_return by (simp add: io_triple_return)
qed

text \<open>The two branches of a reconcile pass over one volume, and the pass, as triples.\<close>

lemma pass_simDone:
  "simDone V s0 [PassThread d e] s \<Longrightarrow> simDone V s0 [] s"
  "simDone V s0 [WatchThread d e, PassThread d e] s \<Longrightarrow> simDone V s0 [] s"
  by (erule simDone_ends [where d = d and e = e], simp)+

lemma sim_simDone:
  "sim V s0 [] [PassThread d e] (rcTasks (fst s0)) s \<Longrightarrow> simDone V s0 [] s"
  "sim V s0 [] [WatchThread d e, PassThread d e] (rcTasks (fst s0)) s \<Longrightarrow> simDone V s0 [] s"
  using pass_simDone simDoneI by blast+

lemma startup_sim:
  "io_triple (sim V s0 [] [PassThread d e] (rcTasks (fst s0)))
     (io_bind (io_update (tryStartVolumeFullSync (desiredKey d) (startupKey d e))) (\<lambda>started.
        if started then io_bind (stopReplicaWatches peers d token) (\<lambda>_.
          io_modify (spawn (startTask StartupSync d token e (epochSignature d e) (startupKey d e) '''' '''')))
        else io_return ())) (\<lambda>_. simDone V s0 []) (simDone V s0 [])"
proof -
  let ?t = "taskOf StartupSync d token e ''''"
  have t: "startTask StartupSync d token e (epochSignature d e) (startupKey d e) '''' '''' = ?t" "startupKey d e = tkSyncKey ?t"
    by (simp_all add: taskOf_def startTask_def)
  have "io_triple (sim V s0 [] [PassThread d e] (rcTasks (fst s0)))
     (io_bind (io_update (tryStartVolumeFullSync (desiredKey d) (tkSyncKey ?t))) (\<lambda>started.
        if started then io_bind (stopReplicaWatches peers d token) (\<lambda>_. io_modify (spawn ?t)) else io_return ()))
     (\<lambda>_. simDone V s0 []) (simDone V s0 [])"
    by (rule io_triple_conseq [OF spawn_sim [OF _ refl stopReplicaWatches_sim, where ps = "[PassThread d e]"]])
      (auto intro: pass_simDone)
  then show ?thesis by (simp only: t(1) t(2) [symmetric])
qed

lemma watch_sim:
  fixes peers :: "'k peers"
  assumes "sched = (desiredKey d @ '':'' @ drFullSchedule d)"
  shows "io_triple (\<lambda>(c, k). sim V s0 [] [PassThread d e] (rcTasks (fst s0)) (c, k) \<and>
      (drFullSync d \<longrightarrow> startupKey d e \<in> set (rcCompletedSyncs c)))
    (io_bind (ensureWatchStarted peers d token (epochSignature d e)) (\<lambda>_.
      if due then
        io_bind (io_get (\<lambda>c. mapString (rcLastScheduledOn c) sched)) (\<lambda>last.
        if last = today then io_return ()
        else io_bind (io_update (tryStartVolumeFullSync (desiredKey d) (sched @ '':'' @ today))) (\<lambda>started.
          if started then io_modify (spawn (startTask ScheduledSync d token e (epochSignature d e) (sched @ '':'' @ today) sched today))
          else io_return ()))
      else io_return ())) (\<lambda>_. simDone V s0 []) (simDone V s0 [])"
proof -
  let ?ps = "[WatchThread d e, PassThread d e]"
  let ?S = "sim V s0 [] ?ps (rcTasks (fst s0))"
  have t: "startTask ScheduledSync d token e (epochSignature d e) (sched @ '':'' @ today) sched today = taskOf ScheduledSync d token e today"
    "sched @ '':'' @ today = desiredKey d @ '':'' @ drFullSchedule d @ '':'' @ today"
    by (simp_all add: taskOf_def startTask_def assms)
  note ends = sim_simDone(2)
  have rest: "io_triple ?S (if due then
        io_bind (io_get (\<lambda>c. mapString (rcLastScheduledOn c) sched)) (\<lambda>last.
        if last = today then io_return ()
        else io_bind (io_update (tryStartVolumeFullSync (desiredKey d) (desiredKey d @ '':'' @ drFullSchedule d @ '':'' @ today))) (\<lambda>started.
          if started then io_modify (spawn (taskOf ScheduledSync d token e today)) else io_return ()))
      else io_return ()) (\<lambda>_. simDone V s0 []) (simDone V s0 [])" (is "io_triple _ (if due then io_bind _ ?last else _) _ _")
  proof -
    have last: "io_triple ?S (?last last) (\<lambda>_. simDone V s0 []) (simDone V s0 [])" for last
    proof (cases "last = today")
      case True
      show ?thesis unfolding if_P [OF True] by (rule io_triple_return) (rule ends)
    next
      case False
      have "io_triple ?S (io_bind (io_update (tryStartVolumeFullSync (desiredKey d) (desiredKey d @ '':'' @ drFullSchedule d @ '':'' @ today))) (\<lambda>started.
          if started then io_modify (spawn (taskOf ScheduledSync d token e today)) else io_return ())) (\<lambda>_. simDone V s0 []) (simDone V s0 [])"
        by (rule io_triple_conseq [OF scheduled_sim [where ps = ?ps]]) (auto intro: pass_simDone)
      with False show ?thesis by simp
    qed
    have "io_triple ?S (io_bind (io_get f) ?last) (\<lambda>_. simDone V s0 []) (simDone V s0 [])" for f
    proof (rule io_triple_bind)
      show "io_triple ?S (io_get f) (\<lambda>_. ?S) (simDone V s0 [])" by (rule io_triple_get)
    qed (rule last)
    then show ?thesis by (intro io_triple_if io_triple_return ends)
  qed
  have "io_triple ?S (ensureWatchStarted peers d token (epochSignature d e)) (\<lambda>_. ?S) (simDone V s0 [])"
    by (rule io_triple_conseq [OF io_triple_inv [OF ensureWatchStarted_sim]]) (auto intro: ends)
  from io_triple_bind [OF this rest] show ?thesis
    unfolding t(1) unfolding t(2) by (rule io_triple_conseq) (auto intro: sim_no_sync_needed)
qed

lemma reconcileOne_sim:
  fixes peers :: "'k peers"
  assumes key: "plainKey (desiredKey d)" "desiredKey d \<in> V \<longrightarrow> drFullSync d"
  shows "io_triple (\<lambda>(c, k). c = c0) (reconcileOne peers zone d token now) (\<lambda>_. simDone V (c0, ts) []) (simDone V (c0, ts) [])"
proof -
  let ?P = "\<lambda>e completed (c, k :: 'k). sim V (c0, ts) [] [PassThread d e] (rcTasks c0) (c, k) \<and>
    completed = (startupKey d e \<in> set (rcCompletedSyncs c))"
  have S: "''epoch='' @ FormatInt e @ '':'' @ signature d = epochSignature d e" "desiredKey d @ '':'' @ epochSignature d e = startupKey d e" for e
    by (simp_all add: startupKey_def epochSignature_def)
  have completed: "io_triple (sim V (c0, ts) [] [PassThread d e] (rcTasks c0)) (io_get (\<lambda>c. startupKey d e \<in> set (rcCompletedSyncs c)))
      (?P e) (simDone V (c0, ts) [])" for e
    by (rule io_triple_get) simp
  have start: "io_triple (?P e completed) m (\<lambda>_. simDone V (c0, ts) []) (simDone V (c0, ts) [])"
    if "io_triple (sim V (c0, ts) [] [PassThread d e] (rcTasks (fst (c0, ts)))) m (\<lambda>_. simDone V (c0, ts) []) (simDone V (c0, ts) [])"
    for e completed and m :: "(ControllerState \<times> 'k, unit) io"
    using that by (rule io_triple_conseq) auto
  have watch: "io_triple (?P e completed) m (\<lambda>_. simDone V (c0, ts) []) (simDone V (c0, ts) [])"
    if "io_triple (\<lambda>(c, k). sim V (c0, ts) [] [PassThread d e] (rcTasks (fst (c0, ts))) (c, k) \<and>
      (drFullSync d \<longrightarrow> startupKey d e \<in> set (rcCompletedSyncs c))) m (\<lambda>_. simDone V (c0, ts) []) (simDone V (c0, ts) [])"
      "\<not> (drFullSync d \<and> \<not> completed)"
    for e completed and m :: "(ControllerState \<times> 'k, unit) io"
    using that(1) by (rule io_triple_conseq) (use that(2) in auto)
  show ?thesis
    unfolding reconcileOne_def Let_def S
    by (rule io_triple_bind [OF sim_note [OF key]], rule io_triple_bind [OF completed], rule io_triple_if)
      (rule start [OF startup_sim] watch [OF watch_sim [OF refl]], assumption?)+
qed

text \<open>
  A reconcile pass over one volume is a sequence of critical sections of the step
  relation, and the goroutines it spawns are exactly the threads that this sequence leaves
  behind: what holds of every interleaving of the steps holds of the code.
\<close>

theorem reconcileOne_refines:
  assumes "plainKey (desiredKey d)" "desiredKey d \<in> V \<longrightarrow> drFullSync d"
    and "reconcileOne peers zone d token now (c, k) = (r, (c', k'))"
  shows "\<exists>new. rcTasks c' = rcTasks c @ new \<and> (ctl_step V)\<^sup>*\<^sup>* (c, ts) (c', map copying new @ ts)"
  using io_tripleD [OF reconcileOne_sim [OF assms(1,2)] _ assms(3), of c ts]
  by (auto simp: simDone_def sim_def split: sum.splits)

text \<open>The goroutine: copying touches the failover registry only.\<close>

lemma syncTargets_inv:
  assumes "\<And>c k f. I (c, k) \<Longrightarrow> I (onFailover f c, k)" "\<And>c. \<And>m :: ('k, unit) io. io_inv (\<lambda>k. I (c, k)) m"
    "\<And>c. \<And>m :: ('k, time) io. io_inv (\<lambda>k. I (c, k)) m"
  shows "io_inv I (syncTargets (peers :: 'k peers) d basePath token ts)"
proof (induction ts)
  case (Cons t ts)
  have "io_inv I (syncTarget peers d basePath token t)"
    unfolding syncTarget_def
    by (auto intro!: io_inv_intros io_inv_modify assms split: sum.split)
  with Cons show ?case by (auto intro!: io_inv_intros)
qed simp

lemma fullSyncTargets_elsewhere:
  assumes "fullSyncTargets peers d token (c, k) = (r, (c', k'))"
  shows "\<exists>f. c' = c\<lparr>rcFailover := f, rcTasks := rcTasks c\<rparr>"
proof -
  let ?I = "\<lambda>(c', k). \<exists>f. c' = c\<lparr>rcFailover := f, rcTasks := rcTasks c\<rparr>"
  have "io_inv ?I (fullSyncTargets peers d token)"
    unfolding fullSyncTargets_def
    by (auto intro!: io_inv_intros syncTargets_inv simp: onFailover_def io_inv_const)
  moreover have "?I (c, k)" by (auto intro: exI [of _ "rcFailover c"])
  ultimately show ?thesis using assms by (auto dest: io_invD)
qed

lemma onSyncSuccess_steps:
  assumes "onSyncSuccess peers task (c, k) = (r, (c', k'))" "tkVolumeKey task = desiredKey (tkDesired task)"
  shows "\<exists>ph. (ctl_step V)\<^sup>*\<^sup>* (c, us @ SyncThread task Copying # ts) (c', us @ SyncThread task ph # ts)"
proof (cases "tkKind task")
  case ScheduledSync
  then have "c' = rememberSchedule (tkScheduleKey task) (tkToday task) c" using assms(1) by (simp add: onSyncSuccess_def)
  then show ?thesis using ScheduledSync by (auto intro!: exI [of _ Copying] r_into_rtranclp ctl_step.schedule)
next
  case ManualSync
  then show ?thesis using assms(1) by (auto simp: onSyncSuccess_def io_bind_def io_get_def io_return_def)
next
  case StartupSync
  show ?thesis
  proof (cases "isCurrentActiveEpoch (tkVolumeKey task) (drActiveNode (tkDesired task)) (tkEpoch task) c")
    case False
    then show ?thesis using assms(1) StartupSync by (auto simp: onSyncSuccess_def io_bind_def io_get_def io_return_def)
  next
    case True
    let ?done = "markCompleted (tkSyncKey task) c"
    have "c' = ?done \<or> c' = rememberWatch (tkVolumeKey task) (tkSignature task) ?done"
      using assms StartupSync True
      by (auto simp: onSyncSuccess_def io_bind_def io_try_def io_return_def io_get_def io_modify_def startWatchAndRemember_def io_outside_def
          split: prod.splits sum.splits if_splits)
    moreover have "(ctl_step V)\<^sup>*\<^sup>* (c, us @ SyncThread task Copying # ts) (?done, us @ SyncThread task Recorded # ts)"
      using ctl_step.validate [OF True StartupSync] ctl_step.complete
      by (blast intro: rtranclp.rtrancl_into_rtrancl)
    moreover have "ctl_step V (?done, us @ SyncThread task Recorded # ts)
        (rememberWatch (tkVolumeKey task) (tkSignature task) ?done, us @ SyncThread task Recorded # ts)"
      by (rule ctl_step.watch_after_sync) simp
    ultimately show ?thesis by (metis rtranclp.rtrancl_into_rtrancl)
  qed
qed

text \<open>
  C17. A synchronisation goroutine is a sequence of critical sections of its own thread, and
  whatever the agents answer it ends by leaving the list of running threads and releasing its
  claim on the volume.
\<close>

theorem runFullSync_refines:
  assumes "runFullSync peers task (c, k) = (r, (c', k'))" "tkVolumeKey task = desiredKey (tkDesired task)"
  shows "(ctl_step V)\<^sup>*\<^sup>* (c, us @ copying task # ts) (c', us @ ts) \<and> tkSyncKey task \<notin> set (rcRunningSyncs c')"
proof -
  obtain r1 c1 k1 where copied: "fullSyncTargets peers (tkDesired task) (tkToken task) (c, k) = (r1, (c1, k1))"
    by (metis prod.exhaust)
  from fullSyncTargets_elsewhere [OF this] obtain f where c1: "c1 = c\<lparr>rcFailover := f, rcTasks := rcTasks c\<rparr>" ..
  obtain c2 where c2: "c' = finishSync (tkSyncKey task) c2"
    "c2 = c1 \<or> (\<exists>r k2. onSyncSuccess peers task (c1, k1) = (r, (c2, k2)))"
    using assms(1) copied by (cases r1) (auto simp: runFullSync_def io_try_def io_return_def io_modify_def split: prod.splits)
  have "(ctl_step V)\<^sup>*\<^sup>* (c, us @ copying task # ts) (c1, us @ copying task # ts)"
    unfolding c1 by (rule r_into_rtranclp) (rule ctl_step.elsewhere)
  also obtain ph where "(ctl_step V)\<^sup>*\<^sup>* (c1, us @ copying task # ts) (c2, us @ SyncThread task ph # ts)"
  proof (cases "c2 = c1")
    case False
    then obtain r k2 where "onSyncSuccess peers task (c1, k1) = (r, (c2, k2))" using c2(2) by auto
    from onSyncSuccess_steps [OF this assms(2)] show thesis using that by blast
  qed (use that in blast)
  also have "(ctl_step V)\<^sup>*\<^sup>* (c2, us @ SyncThread task ph # ts) (c', us @ ts)"
    unfolding c2(1) by (rule r_into_rtranclp) (rule ctl_step.finish)
  finally show ?thesis by (simp add: c2(1) finishSync_def)
qed

section \<open>A concrete volume\<close>

definition demoDesired :: DesiredReplication where
  "demoDesired = \<lparr>drNamespace = ''games'', drClaimName = ''world'', drVolume = ''pv1'', drActiveNode = ''n1'', drSourceURL = ''http://n1:8081'',
     drTargets = [\<lparr>dtNode = ''n2'', dtRef = \<lparr>trURL = ''http://n2:8080'', trToken = ''t''\<rparr>\<rparr>], drIncludePaths = [], drExcludePaths = [],
     drPruneExcluded = False, drRequiredPaths = [], drOwnership = noOwnership, drDebounce = '''', drFullSync = True, drFullSchedule = '''',
     drConsistencyMode = ConsistencyModeLive, drConfirmedReplicas = 0\<rparr>"

definition demoPeers :: "unit peers" where
  "demoPeers = \<lparr>peerPost = (\<lambda>_ _ _. io_return \<lparr>hrStatus = 200, hrText = ''200 OK'', hrBody = ''''\<rparr>),
     peerGet = (\<lambda>_ _. io_return \<lparr>hrStatus = 200, hrText = ''200 OK'', hrBody = ''''\<rparr>),
     decodeShadow = (\<lambda>_. Inl (Errorf ''EOF'')), decodeStatus = (\<lambda>_. Inl (Errorf ''EOF'')), peerNow = io_return 0\<rparr>"

abbreviation demoTask :: syncTask where
  "demoTask \<equiv> taskOf StartupSync demoDesired ''t'' 0 ''''"

abbreviation demoKey :: string where
  "demoKey \<equiv> desiredKey demoDesired"

lemma demoKey_plain: "plainKey demoKey"
  by (simp add: plainKey_def desiredKey_def demoDesired_def)

lemma demo_full_sync: "drFullSync demoDesired"
  by (simp add: demoDesired_def)

text \<open>The first synchronisation of the volume, up to the watch that follows it.\<close>

definition demoNoted :: ControllerState where
  "demoNoted = snd (noteActiveNode demoKey (drActiveNode demoDesired) NewReplicationController)"

definition demoClaimed :: ControllerState where
  "demoClaimed = snd (tryStartVolumeFullSync demoKey (tkSyncKey demoTask) demoNoted)"

definition demoWatched :: ControllerState where
  "demoWatched = rememberWatch demoKey (tkSignature demoTask) (markCompleted (tkSyncKey demoTask) demoClaimed)"

lemma demo_note: "noteActiveNode demoKey (drActiveNode demoDesired) NewReplicationController = (0, demoNoted)"
  by (simp add: demoNoted_def noteActiveNode_def NewReplicationController_def mapString_def)

lemma demo_start: "tryStartVolumeFullSync demoKey (tkSyncKey demoTask) demoNoted = (True, demoClaimed)"
  by (simp add: demoClaimed_def demoNoted_def tryStartVolumeFullSync_def noteActiveNode_def NewReplicationController_def mapString_def)

lemma demo_current: "isCurrentActiveEpoch (tkVolumeKey demoTask) (drActiveNode (tkDesired demoTask)) (tkEpoch demoTask) demoClaimed"
  by (simp add: demoClaimed_def demoNoted_def tryStartVolumeFullSync_def noteActiveNode_def NewReplicationController_def mapString_def
      isCurrentActiveEpoch_def)

lemma demo_reachable: "ctl_reachable {demoKey} (demoWatched, [SyncThread demoTask Recorded, PassThread demoDesired 0])"
proof -
  let ?step = "ctl_step {demoKey}" and ?pass = "PassThread demoDesired 0"
  have "?step (NewReplicationController, []) (demoNoted, [?pass])"
    by (rule ctl_step.note_active [OF demo_note demoKey_plain]) (simp add: demo_full_sync)
  moreover have "?step (demoNoted, [?pass]) (demoClaimed, [copying demoTask, ?pass])"
    by (rule ctl_step.begin_sync [OF _ refl demo_start]) simp
  moreover have "?step (demoClaimed, [copying demoTask, ?pass]) (demoClaimed, [SyncThread demoTask Validated, ?pass])"
    using ctl_step.validate [OF demo_current, where us = "[]"] by simp
  moreover have "?step (demoClaimed, [SyncThread demoTask Validated, ?pass])
      (markCompleted (tkSyncKey demoTask) demoClaimed, [SyncThread demoTask Recorded, ?pass])"
    using ctl_step.complete [where us = "[]"] by simp
  moreover have "?step (markCompleted (tkSyncKey demoTask) demoClaimed, [SyncThread demoTask Recorded, ?pass])
      (demoWatched, [SyncThread demoTask Recorded, ?pass])"
    unfolding demoWatched_def by (metis ctl_step.watch_after_sync list.set_intros(1) taskOf_sel(1))
  ultimately show ?thesis
    unfolding ctl_reachable_def by (meson converse_rtranclp_into_rtranclp rtranclp.rtrancl_refl)
qed

theorem one_sync_per_volume_witness:
  "\<exists>c ts. ctl_reachable {demoKey} (c, ts) \<and> syncsOf ts = [demoTask] \<and> set (rcRunningSyncs c) = tkSyncKey ` set (syncsOf ts)"
  using one_sync_per_volume [OF demo_reachable] demo_reachable by fastforce


theorem reconcileOne_refines_witness:
  "\<exists>new. (ctl_step {demoKey})\<^sup>*\<^sup>* (NewReplicationController, [])
     (fst (snd (reconcileOne demoPeers (\<lambda>_. 0) demoDesired ''t'' 0 (NewReplicationController, ()))), map copying new)"
  using reconcileOne_refines [OF demoKey_plain _ io_run_eta, where ts = "[]" and V = "{demoKey}" and peers = demoPeers and k = "()"
      and c = NewReplicationController and zone = "\<lambda>_. 0" and token = "''t''" and now = 0] demo_full_sync by auto

theorem runFullSync_refines_witness:
  "(ctl_step {})\<^sup>*\<^sup>* (demoClaimed, [copying demoTask]) (fst (snd (runFullSync demoPeers demoTask (demoClaimed, ()))), [])"
  using runFullSync_refines [OF io_run_eta, where us = "[]" and ts = "[]" and V = "{}" and task = demoTask and c = demoClaimed and peers = demoPeers and k = "()"] by simp

lemma demo_sync_run:
  "\<exists>c' k' es. fullSyncTargets (tracedPeers demoPeers) demoDesired ''t'' (NewReplicationController, ((), [])) = (Inr (), (c', (k', es)))"
  by (simp add: fullSyncTargets_def demoDesired_def ConsistencyModeLive_def ConsistencyModeShadow_def syncTarget_def demoPeers_def
      tracedPeers_def postJSON_def postForBody_def okStatus_def io_defs io_noisy_def io_quiet_def confirmationThreshold_def)


end
