(* ===== verification/ControllerRun.thy ===== *)
theory ControllerRun
  imports ControllerProps
begin

text \<open>
  The replication controller as it runs: the loop of reconcile passes and the manual trigger,
  against the step relation of \<^verbatim>\<open>ControllerProps\<close>. What holds in every interleaving of the
  critical sections holds while the controller runs.
\<close>

section \<open>What is relied on of the claims\<close>

text \<open>
  The claims that the API lists: their names have no colon, as Kubernetes requires, and those
  in \<open>V\<close> ask for a full synchronisation at start.
\<close>

definition claimKey :: "PVC \<Rightarrow> string" where
  "claimKey pvc = pvcNamespace pvc @ ''/'' @ pvcVolumeName pvc"

definition steadyClaim :: "string set \<Rightarrow> PVC \<Rightarrow> bool" where
  "steadyClaim V pvc \<longleftrightarrow> plainKey (claimKey pvc) \<and>
     (claimKey pvc \<in> V \<longrightarrow> truthy (gostr (pvcAnnotations pvc) AnnotationFullSyncOnStart))"

definition steadyClaims :: "string set \<Rightarrow> 'k kube \<Rightarrow> bool" where
  "steadyClaims V kube \<longleftrightarrow> io_result (\<lambda>r. \<forall>pvcs. r = Inr pvcs \<longrightarrow> list_all (steadyClaim V) pvcs) (kListPVCs kube)"

definition steady :: "string set \<Rightarrow> DesiredReplication \<Rightarrow> bool" where
  "steady V d \<longleftrightarrow> plainKey (desiredKey d) \<and> (desiredKey d \<in> V \<longrightarrow> drFullSync d)"

lemma DesiredReplications_steady:
  assumes "steadyClaims V kube"
  shows "io_result (\<lambda>r. \<forall>ds. r = Inr ds \<longrightarrow> list_all (steady V) ds) (DesiredReplications kube sortByAge cfg token)"
proof -
  have "list_all (steady V) ds" if run: "DesiredReplications kube sortByAge cfg token k = (Inr ds, k')" for k ds k'
  proof -
    obtain pvcs pods k1 k2 out where l: "kListPVCs kube k = (Inr pvcs, k1)"
      and loop: "desiredLoop kube sortByAge (cfgStorageClassName cfg) (readyAgentPods pods) token pvcs k2 = (Inr out, k')"
      and ds: "ds = SliceStable desiredBefore out"
      using run by (auto simp: DesiredReplications_def io_bind_Inr)
    have claims: "list_all (steadyClaim V) pvcs" using io_resultD [OF assms [unfolded steadyClaims_def] l] by simp
    have "steady V d" if "d \<in> set out" for d
      using desiredLoop_result [OF loop that] claims
      by (auto simp: list_all_iff steadyClaim_def steady_def claimKey_def desiredKey_def)
    then show ?thesis by (simp add: ds list_all_iff)
  qed
  then show ?thesis unfolding io_result_def by (metis prod.exhaust fst_conv)
qed

section \<open>Passes\<close>

text \<open>
  Since a state \<open>s0\<close>, the controller has made steps of the relation, and the goroutines it
  spawned are the threads that they have left.
\<close>

definition ranFrom :: "string set \<Rightarrow> ControllerState \<times> ctl_thread list \<Rightarrow> ControllerState \<times> 'k \<Rightarrow> bool" where
  "ranFrom V s0 = (\<lambda>(c, k). \<exists>new ths. rcTasks c = rcTasks (fst s0) @ new \<and> mset ths = mset (map copying new) \<and>
     (ctl_step V)\<^sup>*\<^sup>* s0 (c, ths @ snd s0))"

lemma ranFrom_outside: "io_inv (ranFrom V s0) (io_outside m)"
  by (rule io_inv_outside) (simp add: ranFrom_def io_inv_def)

lemma ranFrom_failover: "io_inv (ranFrom V s0) (io_failover m)"
proof -
  have "ranFrom V s0 (c\<lparr>rcFailover := f\<rparr>, k')" if before: "ranFrom V s0 (c, k)" for c k f and k' :: 'a
  proof -
    obtain new ths where r: "rcTasks c = rcTasks (fst s0) @ new" "mset ths = mset (map copying new)"
      "(ctl_step V)\<^sup>*\<^sup>* s0 (c, ths @ snd s0)" using before by (auto simp: ranFrom_def)
    have "ctl_step V (c, ths @ snd s0) (c\<lparr>rcFailover := f, rcTasks := rcTasks c\<rparr>, ths @ snd s0)" by (rule ctl_step.elsewhere)
    then have "(ctl_step V)\<^sup>*\<^sup>* s0 (c\<lparr>rcFailover := f\<rparr>, ths @ snd s0)"
      using r(3) by (simp add: rtranclp.rtrancl_into_rtrancl)
    then show ?thesis using r(1,2) by (auto simp: ranFrom_def)
  qed
  then show ?thesis by (auto simp: io_inv_def io_failover_def split: prod.splits)
qed

lemma ranFrom_sim:
  assumes "\<And>c0 ts. io_triple (\<lambda>(c, k). c = c0) m (\<lambda>_. simDone V (c0, ts) []) (simDone V (c0, ts) [])"
  shows "io_inv (ranFrom V s0) m"
proof -
  have "ranFrom V s0 (c', k')" if before: "ranFrom V s0 (c, k)" and run: "m (c, k) = (r, (c', k'))" for c k r c' k'
  proof -
    obtain new ths where p: "rcTasks c = rcTasks (fst s0) @ new" "mset ths = mset (map copying new)"
      "(ctl_step V)\<^sup>*\<^sup>* s0 (c, ths @ snd s0)" using before by (auto simp: ranFrom_def)
    have "simDone V (c, ths @ snd s0) [] (c', k')"
      using io_tripleD [OF assms [of c "ths @ snd s0"] _ run] by (simp split: sum.splits)
    then obtain new' where q: "(ctl_step V)\<^sup>*\<^sup>* (c, ths @ snd s0) (c', map copying new' @ ths @ snd s0)" "rcTasks c' = rcTasks c @ new'"
      by (auto simp: simDone_def sim_def)
    have "(ctl_step V)\<^sup>*\<^sup>* s0 (c', (map copying new' @ ths) @ snd s0)" using p(3) q(1) by (simp add: rtranclp_trans)
    moreover have "mset (map copying new' @ ths) = mset (map copying (new @ new'))" using p(2) by simp
    ultimately show ?thesis unfolding ranFrom_def prod.case using p(1) q(2) by (metis append.assoc)
  qed
  then show ?thesis by (auto simp: io_inv_def) (metis prod.exhaust snd_conv)
qed

lemma reconcileOne_ranFrom: "steady V d \<Longrightarrow> io_inv (ranFrom V s0) (reconcileOne peers zone d token now)"
  by (rule ranFrom_sim, rule reconcileOne_sim) (simp_all add: steady_def)

lemma controllerReconcile_ranFrom:
  assumes "steadyClaims V kube"
  shows "io_inv (ranFrom V s0) (controllerReconcile kube sortByAge peers zone cfg)"
proof -
  have pass: "io_inv (ranFrom V s0) (io_foreach (\<lambda>d. io_try (reconcileOne peers zone d token now) (\<lambda>_. io_return ())) ds)"
    if "list_all (steady V) ds" for ds token now
    using that by (auto simp: list_all_iff intro!: io_inv_intros reconcileOne_ranFrom)
  show ?thesis
    unfolding controllerReconcile_def
    by (intro io_inv_bind io_inv_try ranFrom_outside ranFrom_failover
        io_inv_bind_result [OF io_result_outside [OF DesiredReplications_steady [OF assms]] ranFrom_outside] pass)
qed

text \<open>
  C16. The controller keeps to its step relation while it runs: for any number of passes,
  whatever the API and the agents answer, the loop ends only when it is cancelled, all that it
  has done to its state is a sequence of critical sections of the relation, and the goroutines
  it has spawned are exactly the threads that this sequence has left behind. What holds of
  every interleaving of the steps therefore holds of the code.
\<close>

theorem controllerRun_refines:
  assumes "steadyClaims V kube" "controllerRun kube sortByAge peers zone cfg ticks (c, k) = (r, (c', k'))"
  shows "r = Inl ErrCanceled \<and> (\<exists>new ths. rcTasks c' = rcTasks c @ new \<and> mset ths = mset (map copying new) \<and>
    (ctl_step V)\<^sup>*\<^sup>* (c, ts) (c', ths @ ts))"
proof -
  let ?loop = "io_foreach (\<lambda>_. io_try (controllerReconcile kube sortByAge peers zone cfg) (\<lambda>_. io_return ()))"
  have "io_inv (ranFrom V (c, ts)) (controllerRun kube sortByAge peers zone cfg ticks)"
    unfolding controllerRun_def by (intro io_inv_intros controllerReconcile_ranFrom [OF assms(1)])
  moreover have "ranFrom V (c, ts) (c, k)" by (auto simp: ranFrom_def intro: exI [of _ "[]"])
  ultimately have "ranFrom V (c, ts) (c', k')" using assms(2) by (rule io_invD)
  moreover have "\<exists>s'. ?loop xs s = (Inr (), s')" for xs :: "nat list" and s
    by (induction xs arbitrary: s) (auto simp: io_bind_def io_try_def io_return_def split: prod.splits)
  then obtain s' where "?loop [0..<Suc ticks] (c, k) = (Inr (), s')" by blast
  then have "r = Inl ErrCanceled" using assms(2) by (simp only: controllerRun_def io_bind_def io_fail_def prod.case sum.case prod.inject)
  ultimately show ?thesis by (auto simp: ranFrom_def)
qed

text \<open>The manual trigger is a run of the relation as well.\<close>

lemma manual_sim:
  assumes "steady V d"
  shows "io_triple (\<lambda>(c, k). c = c0) (io_bind (io_update (noteActiveNode (desiredKey d) (drActiveNode d))) (\<lambda>e.
      io_bind (io_update (tryStartVolumeFullSync (desiredKey d) (desiredKey d @ '':manual''))) (\<lambda>started.
      if \<not> started then io_return x
      else io_bind (io_modify (spawn (startTask ManualSync d token e '''' (desiredKey d @ '':manual'') '''' ''''))) (\<lambda>_. io_return y))))
    (\<lambda>_. simDone V (c0, ts) []) (simDone V (c0, ts) [])"
proof (rule io_triple_bind [OF sim_note [where ts = ts and V = V]])
  fix e
  let ?t = "taskOf ManualSync d token e ''''" and ?ps = "[PassThread d e]"
  have t: "startTask ManualSync d token e '''' (desiredKey d @ '':manual'') '''' '''' = ?t" "desiredKey d @ '':manual'' = tkSyncKey ?t"
    by (simp_all add: taskOf_def startTask_def)
  have spawned: "io_triple (sim V (c0, ts) [?t] ?ps (rcTasks c0)) (io_bind (io_modify (spawn ?t)) (\<lambda>_. io_return y))
      (\<lambda>_. simDone V (c0, ts) []) (simDone V (c0, ts) [])"
  proof (rule io_triple_bind)
    show "io_triple (sim V (c0, ts) [?t] ?ps (rcTasks c0)) (io_modify (spawn ?t)) (\<lambda>_. simDone V (c0, ts) ?ps) (simDone V (c0, ts) [])"
      by (rule io_triple_modify) (auto simp: simDone_def dest: sim_spawn)
  qed (auto intro!: io_triple_return pass_simDone(1))
  show "io_triple (sim V (c0, ts) [] ?ps (rcTasks c0))
      (io_bind (io_update (tryStartVolumeFullSync (desiredKey d) (desiredKey d @ '':manual''))) (\<lambda>started.
        if \<not> started then io_return x
        else io_bind (io_modify (spawn (startTask ManualSync d token e '''' (desiredKey d @ '':manual'') '''' ''''))) (\<lambda>_. io_return y)))
      (\<lambda>_. simDone V (c0, ts) []) (simDone V (c0, ts) [])"
    unfolding t(1) unfolding t(2)
  proof (rule io_triple_bind [OF tryStart_sim [where ps = ?ps and t = ?t, OF _ refl]])
    show "io_triple (if started then sim V (c0, ts) [?t] ?ps (rcTasks c0) else sim V (c0, ts) [] ?ps (rcTasks c0))
        (if \<not> started then io_return x else io_bind (io_modify (spawn ?t)) (\<lambda>_. io_return y))
        (\<lambda>_. simDone V (c0, ts) []) (simDone V (c0, ts) [])" for started
      using spawned sim_simDone(1) [of V "(c0, ts)" d e] by (auto intro!: io_triple_return)
  qed simp
qed (use assms in \<open>simp_all add: steady_def\<close>)

lemma TriggerFullSync_ranFrom:
  assumes "steadyClaims V kube"
  shows "io_inv (ranFrom V s0) (TriggerFullSync kube sortByAge cfg namespace claimName)"
proof -
  have found: "steady V d" if "find P ds = Some d" "list_all (steady V) ds" for P ds d
    using that by (auto simp: find_Some_iff list_all_iff)
  note desired = io_inv_bind_result [OF io_result_outside [OF DesiredReplications_steady [OF assms]] ranFrom_outside]
  show ?thesis
    unfolding TriggerFullSync_def Let_def
    by (simp split del: option.split, intro impI io_inv_bind [OF ranFrom_outside] desired)
      (auto intro!: ranFrom_sim [OF manual_sim] dest: found split: option.split)
qed

definition demoStartKube :: "unit kube" where
  "demoStartKube = demoKubeApi\<lparr>kListPVCs := io_return [demoClaim\<lparr>pvcAnnotations := (AnnotationFullSyncOnStart, ''1'') # pvcAnnotations demoClaim\<rparr>]\<rparr>"

lemma demoClaims_steady: "steadyClaims {''games/pv1''} demoStartKube"
proof -
  have "truthy ''1''" by code_simp
  then show ?thesis
    by (simp add: steadyClaims_def steadyClaim_def claimKey_def demoStartKube_def demoKubeApi_def demoClaim_def io_result_def io_return_def
        plainKey_def goget_def)
qed

theorem controllerRun_refines_witness:
  "\<exists>new ths. rcTasks (fst (snd (controllerRun demoStartKube id demoPeers (\<lambda>_. 0) demoConfig 1 (NewReplicationController, ())))) = new \<and>
     mset ths = mset (map copying new) \<and>
     (ctl_step {''games/pv1''})\<^sup>*\<^sup>* (NewReplicationController, [])
       (fst (snd (controllerRun demoStartKube id demoPeers (\<lambda>_. 0) demoConfig 1 (NewReplicationController, ()))), ths)"
  using controllerRun_refines [OF demoClaims_steady io_run_eta, where ts = "[]" and sortByAge = id and peers = demoPeers and zone = "\<lambda>_. 0"
      and cfg = demoConfig and ticks = 1 and c = NewReplicationController and k = "()"]
  by (simp add: NewReplicationController_def)

end
