(* ===== verification/Watch.thy ===== *)
theory Watch
  imports WatchManager
begin

text \<open>
  \<^verbatim>\<open>internal/agent/watch.go\<close>: the file watcher of a volume. The notification library
  (\<^verbatim>\<open>fsnotify\<close>) and what arrives on the channels of the \<^verbatim>\<open>select\<close> statement are parameters:
  the loop is a function of the sequence of messages it receives, and every theorem is about
  all sequences.
\<close>

section \<open>Snapshots\<close>

definition maxPendingWatchEvents :: nat where "maxPendingWatchEvents = 512"
definition defaultWatchRescanInterval :: duration where "defaultWatchRescanInterval = 30 * second"

record watchedFileState =
  wfSize :: int
  wfMode :: filemode
  wfModTime :: "64 word"
  wfLink :: string

type_synonym watchSnapshot = "(string, watchedFileState) gomap"

definition zeroFileState :: watchedFileState where
  "zeroFileState = \<lparr>wfSize = 0, wfMode = 0, wfModTime = 0, wfLink = ''''\<rparr>"

text \<open>Nanoseconds between year 1 and 1970, and \<^verbatim>\<open>Time.UnixNano\<close>, which wraps at 64 bits.\<close>

definition unixEpoch :: time where "unixEpoch = 62135596800 * second"

definition UnixNano :: "time \<Rightarrow> 64 word" where
  "UnixNano t = of_int (t - unixEpoch)"

definition relativeWatchPath :: "string \<Rightarrow> string \<Rightarrow> string option" where
  "relativeWatchPath root p = (case Rel root p of
     Inl e \<Rightarrow> None
   | Inr rel \<Rightarrow> if HasPrefix rel ''..'' then None else Some rel)"

definition watchFileState :: "file_info \<Rightarrow> string \<Rightarrow> watchedFileState" where
  "watchFileState info link = \<lparr>wfSize = fiSize info, wfMode = fiMode info, wfModTime = UnixNano (fiModTime info), wfLink = link\<rparr>"

definition ignoreMissing :: "('w, 'a) io \<Rightarrow> ('a \<Rightarrow> ('w, unit) io) \<Rightarrow> ('w, unit) io" where
  "ignoreMissing m f = io_try m (\<lambda>r. case r of
     Inl e \<Rightarrow> if IsNotExist e then io_return () else io_fail e | Inr x \<Rightarrow> f x)"

definition snapshotVisitor :: "'w os_api \<Rightarrow> string \<Rightarrow> PathFilter \<Rightarrow> (watchSnapshot \<times> 'w) visitor" where
  "snapshotVisitor os root filt p isDir err = (case err of
     Some e \<Rightarrow> if IsNotExist e then io_return () else io_fail e
   | None \<Rightarrow> (case relativeWatchPath root p of
       None \<Rightarrow> io_return ()
     | Some rel \<Rightarrow>
         if isDir then (if rel \<noteq> ''.'' \<and> \<not> ShouldTraverse filt rel then io_fail ErrSkipDir else io_return ())
         else if \<not> ShouldReplicate filt rel then io_return ()
         else ignoreMissing (io_outside (osLstat os p)) (\<lambda>info.
           if IsSymlink info then ignoreMissing (io_outside (osReadlink os p)) (\<lambda>link.
             io_modify (AList.update rel (watchFileState info link)))
           else io_modify (AList.update rel (watchFileState info '''')))))"

definition snapshotWatchedFiles :: "'w os_api \<Rightarrow> string \<Rightarrow> PathFilter \<Rightarrow> ('w, watchSnapshot) io" where
  "snapshotWatchedFiles os root filt =
     io_bind (io_local [] (WalkDir (outsideOs os) root (snapshotVisitor os root filt))) (\<lambda>(_, snapshot). io_return snapshot)"

definition fileStateAt :: "watchSnapshot \<Rightarrow> string \<Rightarrow> watchedFileState" where
  "fileStateAt m p = (case map_of m p of None \<Rightarrow> zeroFileState | Some s \<Rightarrow> s)"

definition diffWatchedSnapshots :: "watchSnapshot \<Rightarrow> watchSnapshot \<Rightarrow> FileEvent list" where
  "diffWatchedSnapshots previous current =
     (let changed = map fst (filter (\<lambda>(path, state). fileStateAt previous path \<noteq> state) current);
          gone = map fst (filter (\<lambda>(path, _). \<not> gohas current path) previous);
          paths = sort (changed @ gone)
      in map (\<lambda>path. \<lparr>evPath = path, evOp = (if gohas current path then EventOpUpsert else EventOpDelete)\<rparr>) paths)"

section \<open>Walks of the watcher\<close>

record 'w watcher =
  watcherNew :: "('w, unit) io"
  watcherAdd :: "string \<Rightarrow> ('w, unit) io"

definition addRecursiveWatches :: "'w os_api \<Rightarrow> 'w watcher \<Rightarrow> string \<Rightarrow> PathFilter \<Rightarrow> ('w, unit) io" where
  "addRecursiveWatches os watcher root filt = WalkDir os root (\<lambda>p isDir err. case err of
     Some e \<Rightarrow> io_fail e
   | None \<Rightarrow>
       if \<not> isDir then io_return ()
       else (case relativeWatchPath root p of
           None \<Rightarrow> watcherAdd watcher p
         | Some rel \<Rightarrow> if rel \<noteq> ''.'' \<and> \<not> ShouldTraverse filt rel then io_fail ErrSkipDir else watcherAdd watcher p))"

definition collectExistingEvents ::
    "'w os_api \<Rightarrow> string \<Rightarrow> string \<Rightarrow> PathFilter \<Rightarrow> (FileEvent \<Rightarrow> ('w, unit) io) \<Rightarrow> ('w, unit) io" where
  "collectExistingEvents os root start filt yield = WalkDir os start (\<lambda>p isDir err. case err of
     Some e \<Rightarrow> if IsNotExist e then io_return () else io_fail e
   | None \<Rightarrow> (case relativeWatchPath root p of
       None \<Rightarrow> io_return ()
     | Some rel \<Rightarrow>
         if isDir then (if rel \<noteq> ''.'' \<and> \<not> ShouldTraverse filt rel then io_fail ErrSkipDir else io_return ())
         else if ShouldReplicate filt rel then yield \<lparr>evPath = rel, evOp = EventOpUpsert\<rparr>
         else io_return ()))"

section \<open>The watch loop\<close>

text \<open>
  The local variables of \<^verbatim>\<open>WatchVolume\<close>: the events not yet sent, the delay the debounce timer
  is armed with, the last snapshot, and the flag of the directory being collected.
\<close>

record watchLoop =
  wlPending :: "FileEvent list"
  wlTimer :: "duration option"
  wlSnapshot :: watchSnapshot
  wlCollected :: bool

record fsEvent =
  feName :: string
  feCreate :: bool
  feRemove :: bool
  feRename :: bool

datatype watchMsg =
    CtxDone go_error
  | WatcherError "go_error option"
  | WatcherEvent fsEvent
  | TimerFired
  | RescanTick

definition watchFilter :: "WatchConfig \<Rightarrow> PathFilter" where
  "watchFilter cfg = \<lparr>IncludePaths = wcIncludePaths cfg, ExcludePaths = wcExcludePaths cfg, PruneExcluded = False\<rparr>"

definition debounceOf :: "WatchConfig \<Rightarrow> duration" where
  "debounceOf cfg = (if wcDebounce cfg \<le> 0 then 5 * second else wcDebounce cfg)"

definition watchBatch :: "WatchConfig \<Rightarrow> time \<Rightarrow> FileEvent list \<Rightarrow> EventBatch" where
  "watchBatch cfg now events = \<lparr>ebNamespace = wcNamespace cfg, ebVolume = wcVolume cfg, ebGeneration = FormatRFC3339Nano now,
     ebSource = \<lparr>srcWebDAVURL = '''', srcUser = '''', srcPassword = ''''\<rparr>, ebSourceBasePath = '''', ebOwnership = noOwnership,
     ebDeletesAuthoritative = False, ebEvents = events\<rparr>"

definition sendEvents :: "'w os_api \<Rightarrow> WatchConfig \<Rightarrow> (EventBatch \<Rightarrow> ('w, unit) io) \<Rightarrow> FileEvent list \<Rightarrow> ('w, unit) io" where
  "sendEvents os cfg sink events = io_bind (timeNow os) (\<lambda>now. sink (watchBatch cfg now events))"

definition flushPending :: "'w os_api \<Rightarrow> WatchConfig \<Rightarrow> (EventBatch \<Rightarrow> ('w, unit) io) \<Rightarrow> (watchLoop \<times> 'w, unit) io" where
  "flushPending os cfg sink =
     io_bind (io_get (\<lambda>l. CoalesceEvents (wlPending l) (watchFilter cfg))) (\<lambda>events.
     io_bind (io_modify (wlPending_update (\<lambda>_. []))) (\<lambda>_.
     if events = [] then io_return () else io_outside (sendEvents os cfg sink events)))"

definition pendingFull :: "watchLoop \<Rightarrow> bool" where
  "pendingFull l \<longleftrightarrow> maxPendingWatchEvents \<le> length (wlPending l)"

definition armTimer :: "WatchConfig \<Rightarrow> watchLoop \<Rightarrow> watchLoop" where
  "armTimer cfg l = l\<lparr>wlTimer := Some (debounceOf cfg)\<rparr>"

definition yieldExisting :: "'w os_api \<Rightarrow> WatchConfig \<Rightarrow> (EventBatch \<Rightarrow> ('w, unit) io) \<Rightarrow> FileEvent \<Rightarrow> (watchLoop \<times> 'w, unit) io" where
  "yieldExisting os cfg sink event =
     io_bind (io_modify (\<lambda>l. l\<lparr>wlCollected := True, wlPending := wlPending l @ [event]\<rparr>)) (\<lambda>_.
     io_bind (io_get pendingFull) (\<lambda>full. if full then flushPending os cfg sink else io_return ()))"

definition onWatchEvent ::
    "'w os_api \<Rightarrow> 'w watcher \<Rightarrow> WatchConfig \<Rightarrow> (EventBatch \<Rightarrow> ('w, unit) io) \<Rightarrow> string \<Rightarrow> fsEvent \<Rightarrow> (watchLoop \<times> 'w, unit) io" where
  "onWatchEvent os watcher cfg sink root event = (case relativeWatchPath root (feName event) of
     None \<Rightarrow> io_return ()
   | Some rel \<Rightarrow>
       io_bind (if feCreate event
           then io_try (io_outside (osStat os (feName event))) (\<lambda>r. case r of
             Inl e \<Rightarrow> io_return False | Inr info \<Rightarrow> io_return (IsDir info \<and> ShouldTraverse (watchFilter cfg) rel))
           else io_return False) (\<lambda>newDir.
       if newDir then
         io_bind (io_outside (addRecursiveWatches os watcher (feName event) (watchFilter cfg))) (\<lambda>_.
         io_bind (io_modify (\<lambda>l. l\<lparr>wlCollected := False\<rparr>)) (\<lambda>_.
         io_bind (collectExistingEvents (outsideOs os) root (feName event) (watchFilter cfg) (yieldExisting os cfg sink)) (\<lambda>_.
         io_modify (\<lambda>l. if wlCollected l \<and> 0 < length (wlPending l) then armTimer cfg l else l))))
       else if \<not> ShouldReplicate (watchFilter cfg) rel then io_return ()
       else
         io_bind (io_modify (\<lambda>l. l\<lparr>wlPending := wlPending l @ [\<lparr>evPath = rel,
           evOp = (if feRemove event \<or> feRename event then EventOpDelete else EventOpUpsert)\<rparr>]\<rparr>)) (\<lambda>_.
         io_bind (io_get pendingFull) (\<lambda>full.
         if full then flushPending os cfg sink else io_modify (armTimer cfg)))))"

definition onRescan :: "'w os_api \<Rightarrow> WatchConfig \<Rightarrow> (EventBatch \<Rightarrow> ('w, unit) io) \<Rightarrow> string \<Rightarrow> (watchLoop \<times> 'w, unit) io" where
  "onRescan os cfg sink root =
     io_bind (io_outside (snapshotWatchedFiles os root (watchFilter cfg))) (\<lambda>current.
     io_bind (io_get (\<lambda>l. diffWatchedSnapshots (wlSnapshot l) current)) (\<lambda>events.
     io_bind (if events = [] then io_return () else io_outside (sendEvents os cfg sink events)) (\<lambda>_.
     io_modify (\<lambda>l. l\<lparr>wlSnapshot := current\<rparr>))))"

definition onWatchMsg ::
    "'w os_api \<Rightarrow> 'w watcher \<Rightarrow> WatchConfig \<Rightarrow> (EventBatch \<Rightarrow> ('w, unit) io) \<Rightarrow> string \<Rightarrow> watchMsg \<Rightarrow> (watchLoop \<times> 'w, unit) io" where
  "onWatchMsg os watcher cfg sink root msg = (case msg of
     CtxDone e \<Rightarrow> io_fail e
   | WatcherError None \<Rightarrow> io_return ()
   | WatcherError (Some e) \<Rightarrow> io_fail e
   | WatcherEvent event \<Rightarrow> onWatchEvent os watcher cfg sink root event
   | TimerFired \<Rightarrow> io_bind (io_modify (\<lambda>l. l\<lparr>wlTimer := None\<rparr>)) (\<lambda>_. flushPending os cfg sink)
   | RescanTick \<Rightarrow> onRescan os cfg sink root)"

text \<open>
  \<^verbatim>\<open>WatchVolume\<close> on the messages received so far: an error is what the function returned, a
  state is what its loop is left with.
\<close>

definition initialLoop :: "watchSnapshot \<Rightarrow> watchLoop" where
  "initialLoop snapshot = \<lparr>wlPending = [], wlTimer = None, wlSnapshot = snapshot, wlCollected = False\<rparr>"

definition WatchVolume ::
    "'w os_api \<Rightarrow> 'w watcher \<Rightarrow> WatchConfig \<Rightarrow> (EventBatch \<Rightarrow> ('w, unit) io) \<Rightarrow> watchMsg list \<Rightarrow> ('w, watchLoop) io" where
  "WatchVolume os watcher cfg sink msgs =
     io_bind (EnsureVolumePath os (volumeAt (wcPool cfg) (wcNamespace cfg) (wcVolume cfg)) 0x1ED) (\<lambda>root.
     io_bind (watcherNew watcher) (\<lambda>_.
     io_bind (addRecursiveWatches os watcher root (watchFilter cfg)) (\<lambda>_.
     io_bind (snapshotWatchedFiles os root (watchFilter cfg)) (\<lambda>snapshot.
     io_bind (io_local (initialLoop snapshot) (io_foreach (onWatchMsg os watcher cfg sink root) msgs)) (\<lambda>(_, loop).
     io_return loop)))))"

text \<open>The goroutine of a watch: \<^verbatim>\<open>WatchManager.run\<close>.\<close>

definition outsideWatcher :: "'w watcher \<Rightarrow> ('c \<times> 'w) watcher" where
  "outsideWatcher watcher = \<lparr>watcherNew = io_outside (watcherNew watcher), watcherAdd = (\<lambda>p. io_outside (watcherAdd watcher p))\<rparr>"

definition runWatch ::
    "'w agent_env \<Rightarrow> 'w watcher \<Rightarrow> (TargetRef \<Rightarrow> EventBatch \<Rightarrow> ('w, unit) io) \<Rightarrow> Pool \<Rightarrow> nat \<Rightarrow> watchRun \<Rightarrow> watchMsg list \<Rightarrow>
     (watchManager \<times> 'w, unit) io" where
  "runWatch env watcher sender pool i run msgs =
     io_try (WatchVolume (outsideOs (envOs env)) (outsideWatcher watcher) (wrConfig run) (deliverBatch env sender pool i run) msgs) (\<lambda>r.
     case r of
       Inr loop \<Rightarrow> io_return ()
     | Inl e \<Rightarrow> io_bind (io_outside (timeNow (envOs env))) (\<lambda>now. io_modify (recordStopped (wrKey run) i now (Some e))))"

section \<open>The difference of two snapshots\<close>

definition snapshotOK :: "PathFilter \<Rightarrow> watchSnapshot \<Rightarrow> bool" where
  "snapshotOK filt m \<longleftrightarrow> distinct (map fst m) \<and> list_all (ShouldReplicate filt) (map fst m)"

text \<open>
  What a mirror of the old snapshot becomes when an event is applied to it: a deletion drops
  the path, an upsert copies its current state.
\<close>

definition replayEvent :: "watchSnapshot \<Rightarrow> (string \<rightharpoonup> watchedFileState) \<Rightarrow> FileEvent \<Rightarrow> (string \<rightharpoonup> watchedFileState)" where
  "replayEvent current m e = m(evPath e := (if evOp e = EventOpDelete then None else map_of current (evPath e)))"

lemma diff_paths:
  "map evPath (diffWatchedSnapshots previous current) =
     sort (map fst (filter (\<lambda>(path, state). fileStateAt previous path \<noteq> state) current) @
           map fst (filter (\<lambda>(path, _). \<not> gohas current path) previous))"
  by (simp add: diffWatchedSnapshots_def Let_def comp_def)

lemma diff_path_iff:
  assumes "distinct (map fst previous)" "distinct (map fst current)" "zeroFileState \<notin> snd ` set current"
  shows "p \<in> set (map evPath (diffWatchedSnapshots previous current)) \<longleftrightarrow> map_of previous p \<noteq> map_of current p"
proof -
  have cur: "(p, s) \<in> set current \<longleftrightarrow> map_of current p = Some s" for s using map_of_eq_Some_iff assms(2) by metis
  have prev: "(p, s) \<in> set previous \<longleftrightarrow> map_of previous p = Some s" for s using map_of_eq_Some_iff assms(1) by metis
  have nonzero: "map_of current p \<noteq> Some zeroFileState" using assms(3) cur by (force simp: image_iff)
  have "p \<in> set (map evPath (diffWatchedSnapshots previous current)) \<longleftrightarrow>
      (\<exists>s. (p, s) \<in> set current \<and> fileStateAt previous p \<noteq> s) \<or> ((\<exists>s. (p, s) \<in> set previous) \<and> map_of current p = None)"
    unfolding diff_paths by (force simp: gohas_iff map_of_eq_None_iff image_iff)
  also have "\<dots> \<longleftrightarrow> map_of previous p \<noteq> map_of current p"
    unfolding cur prev using nonzero
    by (cases "map_of current p"; cases "map_of previous p") (auto simp: fileStateAt_def)
  finally show ?thesis .
qed

lemma diff_distinct:
  assumes "distinct (map fst previous)" "distinct (map fst current)"
  shows "sorted_wrt (<) (map evPath (diffWatchedSnapshots previous current))"
  unfolding diff_paths strict_sorted_iff
  using assms by (force simp: distinct_map_filter gohas_iff)

lemma replay_events:
  assumes "\<forall>e \<in> set es. evOp e = EventOpDelete \<longrightarrow> map_of current (evPath e) = None"
  shows "foldl (replayEvent current) m es = (\<lambda>p. if p \<in> evPath ` set es then map_of current p else m p)"
  using assms by (induction es arbitrary: m) (auto simp: replayEvent_def fun_eq_iff)

text \<open>
  C13. A rescan tells the replicas exactly what changed: the events of two snapshots are
  strictly ordered by path, a path occurs iff its state differs, and a mirror of the old
  snapshot to which the events are applied in order is the new snapshot. (A file whose size,
  mode, time and link are all zero cannot be told from a missing one, and is excluded.)
\<close>

theorem diffWatchedSnapshots_replay:
  assumes "distinct (map fst previous)" "distinct (map fst current)" "zeroFileState \<notin> snd ` set current"
  shows "foldl (replayEvent current) (map_of previous) (diffWatchedSnapshots previous current) = map_of current \<and>
    sorted_wrt (<) (map evPath (diffWatchedSnapshots previous current)) \<and>
    (\<forall>p. p \<in> evPath ` set (diffWatchedSnapshots previous current) \<longleftrightarrow> map_of previous p \<noteq> map_of current p)"
proof -
  have "\<forall>e \<in> set (diffWatchedSnapshots previous current). evOp e = EventOpDelete \<longrightarrow> map_of current (evPath e) = None"
    by (auto simp: diffWatchedSnapshots_def Let_def gohas_iff map_of_eq_None_iff EventOpDelete_def EventOpUpsert_def)
  from replay_events [OF this] diff_path_iff [OF assms] diff_distinct [OF assms(1,2)] show ?thesis by auto
qed

text \<open>Without that exclusion the statement fails: a new file with the zero state is not reported.\<close>

lemma zero_state_unreported: "diffWatchedSnapshots [] [(''a'', zeroFileState)] = []"
  by (simp add: diffWatchedSnapshots_def fileStateAt_def)

theorem diffWatchedSnapshots_replay_witness:
  "foldl (replayEvent [(''b'', zeroFileState\<lparr>wfSize := 2\<rparr>)]) [''a'' \<mapsto> zeroFileState\<lparr>wfSize := 1\<rparr>]
     (diffWatchedSnapshots [(''a'', zeroFileState\<lparr>wfSize := 1\<rparr>)] [(''b'', zeroFileState\<lparr>wfSize := 2\<rparr>)]) =
   [''b'' \<mapsto> zeroFileState\<lparr>wfSize := 2\<rparr>]"
  using diffWatchedSnapshots_replay [of "[(''a'', zeroFileState\<lparr>wfSize := 1\<rparr>)]" "[(''b'', zeroFileState\<lparr>wfSize := 2\<rparr>)]"]
  by (simp add: zeroFileState_def)

section \<open>Snapshots hold replicated paths\<close>

lemma ignoreMissing_inv: "io_inv I m \<Longrightarrow> (\<And>x. io_inv I (f x)) \<Longrightarrow> io_inv I (ignoreMissing m f)"
  unfolding ignoreMissing_def by (auto intro!: io_inv_intros split: sum.split)

lemma snapshot_visitor_inv: "io_inv (\<lambda>(m, w). snapshotOK filt m) (snapshotVisitor os root filt p d e)"
proof -
  have "io_inv (\<lambda>(m, w). snapshotOK filt m) (io_modify (AList.update rel s))" if "ShouldReplicate filt rel" for rel s
    by (rule io_inv_fst_modify)
      (use that in \<open>auto simp: snapshotOK_def list_all_iff distinct_update dom_update image_iff\<close>)
  then show ?thesis
    unfolding snapshotVisitor_def
    by (auto intro!: io_inv_intros ignoreMissing_inv io_inv_fst split: option.split)
qed

lemma snapshotWatchedFiles_ok:
  "io_result (\<lambda>r. \<forall>m. r = Inr m \<longrightarrow> snapshotOK filt m) (snapshotWatchedFiles os root filt)"
proof -
  have "io_inv (\<lambda>(m, w). snapshotOK filt m) (WalkDir (outsideOs os) root (snapshotVisitor os root filt))"
    by (rule WalkDir_inv) (simp_all add: io_inv_fst snapshot_visitor_inv)
  from io_local_result [OF this, of "[]"]
  have local: "snapshotOK filt m" if "io_local [] (WalkDir (outsideOs os) root (snapshotVisitor os root filt)) w = (Inr (x, m), w')"
    for m x and w w' :: 'a
    using that by (auto simp: io_result_def snapshotOK_def dest: spec [of _ w])
  show ?thesis
    unfolding io_result_def
  proof (intro allI impI)
    fix w :: 'a and m
    assume "fst (snapshotWatchedFiles os root filt w) = Inr m"
    then obtain w' x where "io_local [] (WalkDir (outsideOs os) root (snapshotVisitor os root filt)) w = (Inr (x, m), w')"
      by (auto simp: snapshotWatchedFiles_def io_bind_def io_return_def split: prod.splits sum.splits)
    then show "snapshotOK filt m" by (rule local)
  qed
qed

section \<open>What reaches the sink\<close>

text \<open>The sink with the batches it is given recorded.\<close>

definition tracedSink :: "(EventBatch \<Rightarrow> ('w, unit) io) \<Rightarrow> EventBatch \<Rightarrow> (EventBatch list \<times> 'w, unit) io" where
  "tracedSink sink b = io_bind (io_modify (\<lambda>bs. bs @ [b])) (\<lambda>_. io_outside (sink b))"

definition replicable :: "WatchConfig \<Rightarrow> FileEvent \<Rightarrow> bool" where
  "replicable cfg e \<longleftrightarrow> ShouldReplicate (watchFilter cfg) (evPath e)"

definition watchedBatch :: "WatchConfig \<Rightarrow> EventBatch \<Rightarrow> bool" where
  "watchedBatch cfg b \<longleftrightarrow> ebNamespace b = wcNamespace cfg \<and> ebVolume b = wcVolume cfg \<and> ebEvents b \<noteq> [] \<and>
     list_all (replicable cfg) (ebEvents b)"

lemma coalesced_replicable: "list_all (replicable cfg) (CoalesceEvents es (watchFilter cfg))"
  unfolding list_all_iff replicable_def by (blast elim: coalesced_normal)

lemma diff_replicable:
  assumes "snapshotOK (watchFilter cfg) previous" "snapshotOK (watchFilter cfg) current"
  shows "list_all (replicable cfg) (diffWatchedSnapshots previous current)"
  using assms by (auto simp: list_all_iff replicable_def snapshotOK_def diffWatchedSnapshots_def Let_def)

abbreviation loggedOK :: "WatchConfig \<Rightarrow> EventBatch list \<times> 'w \<Rightarrow> bool" where
  "loggedOK cfg \<equiv> \<lambda>(bs, w). list_all (watchedBatch cfg) bs"

lemma sendEvents_logged:
  assumes "es \<noteq> []" "list_all (replicable cfg) es"
  shows "io_inv (loggedOK cfg) (sendEvents (outsideOs os) cfg (tracedSink sink) es)"
proof -
  have "io_inv (loggedOK cfg) (tracedSink sink (watchBatch cfg now es))" for now
    unfolding tracedSink_def
    by (rule io_inv_bind [OF io_inv_fst_modify io_inv_fst]) (use assms in \<open>simp add: watchedBatch_def watchBatch_def\<close>)
  then show ?thesis unfolding sendEvents_def by (auto intro!: io_inv_intros io_inv_fst)
qed

text \<open>
  The loop runs over its variables, the log and the world. Its invariant: the log holds
  watched batches only, and the last snapshot holds replicated paths only.
\<close>

definition loopLogged :: "WatchConfig \<Rightarrow> watchLoop \<times> EventBatch list \<times> 'w \<Rightarrow> bool" where
  "loopLogged cfg = (\<lambda>(l, s). loggedOK cfg s \<and> snapshotOK (watchFilter cfg) (wlSnapshot l))"

lemma loopLogged_outside: "io_inv (loggedOK cfg) m \<Longrightarrow> io_inv (loopLogged cfg) (io_outside m)"
  unfolding loopLogged_def by (rule io_inv_outside) (auto simp: io_inv_def split: prod.splits)

lemma loopLogged_modify:
  "(\<And>l. snapshotOK (watchFilter cfg) (wlSnapshot l) \<Longrightarrow> snapshotOK (watchFilter cfg) (wlSnapshot (f l))) \<Longrightarrow>
   io_inv (loopLogged cfg) (io_modify f)"
  unfolding loopLogged_def by (rule io_inv_modify) auto

lemma flushPending_logged: "io_inv (loopLogged cfg) (flushPending (outsideOs os) cfg (tracedSink sink))"
proof -
  have get: "io_inv (loopLogged cfg) (io_bind (io_get (\<lambda>l. CoalesceEvents (wlPending l) (watchFilter cfg))) f)"
    if "\<And>events. list_all (replicable cfg) events \<Longrightarrow> io_inv (loopLogged cfg) (f events)" for f :: "_ \<Rightarrow> (watchLoop \<times> EventBatch list \<times> 'a, unit) io"
    using that coalesced_replicable by (fastforce simp: io_inv_def io_bind_def io_get_def split: prod.splits sum.splits)
  show ?thesis
    unfolding flushPending_def
    by (rule get) (auto intro!: io_inv_intros loopLogged_outside sendEvents_logged loopLogged_modify)
qed

lemma addRecursiveWatches_logged:
  "io_inv (loggedOK cfg) (addRecursiveWatches (outsideOs os) (outsideWatcher watcher) root filt)"
  unfolding addRecursiveWatches_def
  by (rule WalkDir_inv) (auto intro!: io_inv_intros io_inv_fst simp: outsideWatcher_def split: option.split)

lemma collectExistingEvents_inv:
  assumes "\<And>p. io_inv I (osLstat os p)" "\<And>p. io_inv I (osReadDir os p)" "\<And>e. io_inv I (yield e)"
  shows "io_inv I (collectExistingEvents os root start filt yield)"
  unfolding collectExistingEvents_def by (rule WalkDir_inv) (auto intro!: io_inv_intros assms split: option.split)

lemma onWatchEvent_logged:
  "io_inv (loopLogged cfg) (onWatchEvent (outsideOs os) (outsideWatcher watcher) cfg (tracedSink sink) root event)"
proof -
  have "io_inv (loopLogged cfg) (yieldExisting (outsideOs os) cfg (tracedSink sink) e)" for e
    unfolding yieldExisting_def by (auto intro!: io_inv_intros loopLogged_modify flushPending_logged)
  then have "io_inv (loopLogged cfg) (collectExistingEvents (outsideOs (outsideOs os)) root (feName event) (watchFilter cfg)
      (yieldExisting (outsideOs os) cfg (tracedSink sink)))"
    by (intro collectExistingEvents_inv) (auto intro!: loopLogged_outside io_inv_fst)
  then show ?thesis
    unfolding onWatchEvent_def
    by (auto intro!: io_inv_intros loopLogged_modify flushPending_logged loopLogged_outside addRecursiveWatches_logged io_inv_fst
        simp: armTimer_def split: option.split sum.split)
qed

lemma snapshotWatchedFiles_inv:
  assumes "\<And>p. io_inv I (osLstat os p)" "\<And>p. io_inv I (osReadDir os p)" "\<And>p. io_inv I (osReadlink os p)"
  shows "io_inv I (snapshotWatchedFiles os root filt)"
proof -
  have outside: "io_inv (\<lambda>(m, w). I w) (io_outside m)" if "io_inv I m" for m :: "(_, 'b) io"
    using that by (intro io_inv_outside) (simp add: io_inv_def)
  have "io_inv (\<lambda>(m, w). I w) (snapshotVisitor os root filt p d e)" for p d e
    unfolding snapshotVisitor_def
    by (auto intro!: io_inv_intros ignoreMissing_inv outside assms io_inv_modify split: option.split)
  then have "io_inv (\<lambda>(m, w). I w) (WalkDir (outsideOs os) root (snapshotVisitor os root filt))"
    by (intro WalkDir_inv) (simp_all add: outside assms)
  then have "io_inv I (io_local [] (WalkDir (outsideOs os) root (snapshotVisitor os root filt)))"
    by (rule io_local_inv)
  then show ?thesis unfolding snapshotWatchedFiles_def by (auto intro!: io_inv_intros)
qed

lemma outsideWatcher_sel [simp]:
  "watcherNew (outsideWatcher watcher) = io_outside (watcherNew watcher)"
  "watcherAdd (outsideWatcher watcher) p = io_outside (watcherAdd watcher p)"
  by (simp_all add: outsideWatcher_def)

lemma onRescan_logged: "io_inv (loopLogged cfg) (onRescan (outsideOs os) cfg (tracedSink sink) root)"
  unfolding onRescan_def
proof (rule io_inv_bind_result)
  let ?snap = "snapshotWatchedFiles (outsideOs os) root (watchFilter cfg)"
  show "io_result (\<lambda>r. \<forall>x. r = Inr x \<longrightarrow> snapshotOK (watchFilter cfg) x) (io_outside ?snap)"
    by (rule io_result_outside) (rule snapshotWatchedFiles_ok)
  show "io_inv (loopLogged cfg) (io_outside ?snap)"
    by (rule loopLogged_outside, rule snapshotWatchedFiles_inv) (simp_all add: io_inv_fst)
  fix current
  assume ok: "snapshotOK (watchFilter cfg) current"
  have get: "io_inv (loopLogged cfg) (io_bind (io_get (\<lambda>l. diffWatchedSnapshots (wlSnapshot l) current)) f)"
    if "\<And>events. list_all (replicable cfg) events \<Longrightarrow> io_inv (loopLogged cfg) (f events)"
    for f :: "_ \<Rightarrow> (watchLoop \<times> EventBatch list \<times> 'a, unit) io"
    unfolding io_inv_def
  proof (intro allI impI)
    fix s :: "watchLoop \<times> EventBatch list \<times> 'a"
    assume s: "loopLogged cfg s"
    then have "list_all (replicable cfg) (diffWatchedSnapshots (wlSnapshot (fst s)) current)"
      using ok diff_replicable by (auto simp: loopLogged_def)
    from that [OF this] s show "loopLogged cfg (snd (io_bind (io_get (\<lambda>l. diffWatchedSnapshots (wlSnapshot l) current)) f s))"
      by (cases s) (simp add: io_inv_def io_bind_def io_get_def)
  qed
  show "io_inv (loopLogged cfg) (io_bind (io_get (\<lambda>l. diffWatchedSnapshots (wlSnapshot l) current)) (\<lambda>events.
      io_bind (if events = [] then io_return () else io_outside (sendEvents (outsideOs os) cfg (tracedSink sink) events)) (\<lambda>_.
      io_modify (\<lambda>l. l\<lparr>wlSnapshot := current\<rparr>))))"
    by (rule get) (auto intro!: io_inv_intros loopLogged_outside sendEvents_logged loopLogged_modify ok)
qed

lemma onWatchMsg_logged: "io_inv (loopLogged cfg) (onWatchMsg (outsideOs os) (outsideWatcher watcher) cfg (tracedSink sink) root msg)"
  unfolding onWatchMsg_def
  by (auto intro!: io_inv_intros onWatchEvent_logged onRescan_logged flushPending_logged loopLogged_modify
      split: watchMsg.split option.split)

text \<open>
  C35. Nothing outside the filter is ever replicated: whatever happens in the volume, every
  batch the watcher hands on is one of its volume, is not empty, and names only paths that the
  include and exclude patterns replicate, by notification and by rescan alike.
\<close>

theorem WatchVolume_replicates_filtered:
  assumes "WatchVolume (outsideOs os) (outsideWatcher watcher) cfg (tracedSink sink) msgs ([], w) = (r, (bs, w'))"
  shows "list_all (watchedBatch cfg) bs"
proof -
  let ?snap = "\<lambda>root. snapshotWatchedFiles (outsideOs os) root (watchFilter cfg)"
  let ?loop = "\<lambda>root snapshot. io_local (initialLoop snapshot) (io_foreach (onWatchMsg (outsideOs os) (outsideWatcher watcher) cfg (tracedSink sink) root) msgs)"
  have loop: "io_inv (loggedOK cfg) (?loop root snapshot)" if "snapshotOK (watchFilter cfg) snapshot" for root snapshot
    unfolding io_inv_def
  proof (intro allI impI)
    fix s :: "EventBatch list \<times> 'a"
    assume "loggedOK cfg s"
    with that have start: "loopLogged cfg (initialLoop snapshot, s)" by (simp add: loopLogged_def initialLoop_def)
    obtain r l s' where run: "io_foreach (onWatchMsg (outsideOs os) (outsideWatcher watcher) cfg (tracedSink sink) root) msgs (initialLoop snapshot, s) = (r, (l, s'))"
      by (metis prod.exhaust)
    have "loopLogged cfg (l, s')" using io_invD [OF io_inv_foreach [OF onWatchMsg_logged] start run] .
    then show "loggedOK cfg (snd (?loop root snapshot s))"
      by (auto simp: io_local_def run loopLogged_def split: sum.split)
  qed
  have inner: "io_inv (loggedOK cfg) (io_bind (?snap root) (\<lambda>snapshot. io_bind (?loop root snapshot) (\<lambda>(_, loop). io_return loop)))" for root
    by (rule io_inv_bind_result [OF snapshotWatchedFiles_ok snapshotWatchedFiles_inv]) (auto intro!: io_inv_intros loop io_inv_fst)
  have "io_inv (loggedOK cfg) (EnsureVolumePath (outsideOs os) v perm)" for v perm
    unfolding EnsureVolumePath_def by (auto intro!: io_inv_intros io_inv_fst)
  then have "io_inv (loggedOK cfg) (WatchVolume (outsideOs os) (outsideWatcher watcher) cfg (tracedSink sink) msgs)"
    unfolding WatchVolume_def outsideWatcher_sel by (intro inner io_inv_bind io_inv_fst addRecursiveWatches_logged)
  from io_invD [OF this _ assms] show ?thesis by simp
qed

section \<open>No event waits forever\<close>

definition waitingOK :: "WatchConfig \<Rightarrow> watchLoop \<Rightarrow> bool" where
  "waitingOK cfg l \<longleftrightarrow> length (wlPending l) < maxPendingWatchEvents \<and>
     (wlPending l \<noteq> [] \<longrightarrow> wlTimer l = Some (debounceOf cfg))"

text \<open>While a new directory is collected the timer is armed only at the end.\<close>

definition collectingOK :: "WatchConfig \<Rightarrow> watchLoop \<Rightarrow> bool" where
  "collectingOK cfg l \<longleftrightarrow> length (wlPending l) < maxPendingWatchEvents \<and>
     (wlCollected l \<or> wlPending l = [] \<or> wlTimer l = Some (debounceOf cfg))"

abbreviation loopState :: "(watchLoop \<Rightarrow> bool) \<Rightarrow> watchLoop \<times> 'w \<Rightarrow> bool" where
  "loopState P \<equiv> \<lambda>(l, w). P l"

lemma loopState_outside: "io_triple (loopState P) (io_outside m) (\<lambda>_. loopState P) (\<lambda>_. True)"
  by (rule io_triple_conseq [OF io_triple_inv [OF io_inv_fst]]) auto

lemma flush_triple: "io_triple (\<lambda>_. True) (flushPending os cfg sink) (\<lambda>_. loopState (\<lambda>l. wlPending l = [])) (loopState (\<lambda>l. wlPending l = []))"
  by (auto simp: io_triple_def flushPending_def io_bind_def io_get_def io_modify_def io_outside_def io_return_def
      split: prod.splits sum.splits)

text \<open>After an event is appended: flushed if that fills the buffer, else a continuation.\<close>

lemma append_triple:
  assumes "\<And>l. P l \<Longrightarrow> length (wlPending (f l)) < maxPendingWatchEvents \<Longrightarrow> Q (g (f l))"
    and "\<And>l. wlPending l = [] \<Longrightarrow> Q l"
  shows "io_triple (loopState P) (io_bind (io_modify f) (\<lambda>_. io_bind (io_get pendingFull) (\<lambda>full.
      if full then flushPending os cfg sink else io_modify g))) (\<lambda>_. loopState Q) (loopState Q)"
proof (rule io_triple_bind [OF io_triple_modify], rule_tac [2] io_triple_bind [OF io_triple_get])
  show "loopState P (l, w) \<Longrightarrow> loopState (\<lambda>l. \<exists>l0. P l0 \<and> l = f l0) (f l, w)" for l w by auto
  show "loopState (\<lambda>l. \<exists>l0. P l0 \<and> l = f l0) (l, w) \<Longrightarrow> loopState (\<lambda>l'. (\<exists>l0. P l0 \<and> l' = f l0) \<and> pendingFull l = pendingFull l') (l, w)" for l w
    by auto
  show "io_triple (loopState (\<lambda>l'. (\<exists>l0. P l0 \<and> l' = f l0) \<and> full = pendingFull l'))
      (if full then flushPending os cfg sink else io_modify g) (\<lambda>_. loopState Q) (loopState Q)" for full
  proof (cases full)
    case True
    have "io_triple (\<lambda>_. True) (flushPending os cfg sink) (\<lambda>_. loopState Q) (loopState Q)"
      by (rule io_triple_conseq [OF flush_triple]) (auto intro: assms(2))
    with True show ?thesis by (auto elim: io_triple_conseq)
  next
    case False
    then show ?thesis by (auto intro!: io_triple_modify assms(1) simp: pendingFull_def)
  qed
qed

lemma io_modify_id: "io_modify (\<lambda>l. l) = io_return ()"
  by (simp add: io_modify_def io_return_def fun_eq_iff)

lemma yieldExisting_collecting: "io_inv (loopState (collectingOK cfg)) (yieldExisting os cfg sink event)"
proof -
  let ?put = "\<lambda>l. l\<lparr>wlCollected := True, wlPending := wlPending l @ [event]\<rparr>"
  have "io_triple (loopState (collectingOK cfg)) (io_bind (io_modify ?put) (\<lambda>_. io_bind (io_get pendingFull) (\<lambda>full.
      if full then flushPending os cfg sink else io_modify (\<lambda>l. l))))
    (\<lambda>_. loopState (collectingOK cfg)) (loopState (collectingOK cfg))"
    by (rule append_triple) (auto simp: collectingOK_def maxPendingWatchEvents_def)
  then show ?thesis unfolding yieldExisting_def io_modify_id by (rule io_inv_triple)
qed

lemma onWatchEvent_waiting:
  "io_triple (loopState (waitingOK cfg)) (onWatchEvent os watcher cfg sink root event) (\<lambda>_. loopState (waitingOK cfg)) (\<lambda>_. True)"
proof (cases "relativeWatchPath root (feName event)")
  case None
  then show ?thesis by (simp add: onWatchEvent_def io_triple_return)
next
  case (Some rel)
  let ?put = "\<lambda>l. l\<lparr>wlPending := wlPending l @ [\<lparr>evPath = rel, evOp = (if feRemove event \<or> feRename event then EventOpDelete else EventOpUpsert)\<rparr>]\<rparr>"
  have newDir: "io_triple (loopState (waitingOK cfg)) (if feCreate event
      then io_try (io_outside (osStat os (feName event))) (\<lambda>r. case r of
        Inl e \<Rightarrow> io_return False | Inr info \<Rightarrow> io_return (IsDir info \<and> ShouldTraverse (watchFilter cfg) rel))
      else io_return False) (\<lambda>_. loopState (waitingOK cfg)) (\<lambda>_. True)"
    by (rule io_triple_conseq [OF io_triple_inv]) (auto intro!: io_inv_intros io_inv_fst split: sum.split)
  have collect: "io_triple (loopState (collectingOK cfg))
      (collectExistingEvents (outsideOs os) root (feName event) (watchFilter cfg) (yieldExisting os cfg sink))
      (\<lambda>_. loopState (collectingOK cfg)) (\<lambda>_. True)"
    by (rule io_triple_conseq [OF io_triple_inv [OF collectExistingEvents_inv]]) (auto intro: yieldExisting_collecting io_inv_fst)
  have put: "io_triple (loopState (waitingOK cfg)) (io_bind (io_modify ?put) (\<lambda>_. io_bind (io_get pendingFull) (\<lambda>full.
      if full then flushPending os cfg sink else io_modify (armTimer cfg)))) (\<lambda>_. loopState (waitingOK cfg)) (\<lambda>_. True)"
    by (rule io_triple_conseq [OF append_triple]) (auto simp: waitingOK_def armTimer_def maxPendingWatchEvents_def)
  have dir: "io_triple (loopState (waitingOK cfg)) (io_bind (io_outside (addRecursiveWatches os watcher (feName event) (watchFilter cfg))) (\<lambda>_.
      io_bind (io_modify (\<lambda>l. l\<lparr>wlCollected := False\<rparr>)) (\<lambda>_.
      io_bind (collectExistingEvents (outsideOs os) root (feName event) (watchFilter cfg) (yieldExisting os cfg sink)) (\<lambda>_.
      io_modify (\<lambda>l. if wlCollected l \<and> 0 < length (wlPending l) then armTimer cfg l else l)))))
    (\<lambda>_. loopState (waitingOK cfg)) (\<lambda>_. True)"
    by (rule io_triple_bind [OF loopState_outside], rule io_triple_bind [OF io_triple_modify], rule_tac [2] io_triple_bind [OF collect],
        rule_tac [2] io_triple_modify)
      (auto simp: waitingOK_def collectingOK_def armTimer_def)
  show ?thesis
    unfolding onWatchEvent_def Some option.case
    by (rule io_triple_bind [OF newDir]) (use dir put in \<open>auto intro: io_triple_return\<close>)
qed

lemma onWatchMsg_waiting:
  "io_triple (loopState (waitingOK cfg)) (onWatchMsg os watcher cfg sink root msg) (\<lambda>_. loopState (waitingOK cfg)) (\<lambda>_. True)"
proof (cases msg)
  case TimerFired
  have "io_triple (\<lambda>_. True) (flushPending os cfg sink) (\<lambda>_. loopState (waitingOK cfg)) (\<lambda>_. True)"
    by (rule io_triple_conseq [OF flush_triple]) (auto simp: waitingOK_def maxPendingWatchEvents_def)
  with TimerFired show ?thesis by (auto simp: onWatchMsg_def intro!: io_triple_bind [OF io_triple_modify])
next
  case RescanTick
  have "io_inv (loopState (waitingOK cfg)) (onRescan os cfg sink root)"
    unfolding onRescan_def by (auto intro!: io_inv_intros io_inv_fst io_inv_fst_modify simp: waitingOK_def)
  then show ?thesis unfolding RescanTick onWatchMsg_def watchMsg.case
    by (rule io_triple_conseq [OF io_triple_inv]) auto
next
  case (WatcherError e)
  then show ?thesis by (cases e) (auto simp: onWatchMsg_def intro: io_triple_return io_triple_fail)
qed (simp_all add: onWatchMsg_def onWatchEvent_waiting io_triple_fail)

text \<open>
  C36. While the watch loop runs, at most 511 events wait for the next batch, and whenever any
  wait the debounce timer is armed with the configured delay, so that they are sent when it
  fires: after a batch, after a new directory was collected, and after a rescan alike.
\<close>

theorem WatchVolume_pending_bounded:
  assumes "WatchVolume os watcher cfg sink msgs w = (Inr loop, w')"
  shows "length (wlPending loop) < maxPendingWatchEvents \<and> (wlPending loop \<noteq> [] \<longrightarrow> wlTimer loop = Some (debounceOf cfg))"
proof -
  obtain root snapshot w1 u where "io_local (initialLoop snapshot) (io_foreach (onWatchMsg os watcher cfg sink root) msgs) w1 = (Inr (u, loop), w')"
    using assms by (auto simp: WatchVolume_def io_bind_Inr split: prod.splits)
  then have run: "io_foreach (onWatchMsg os watcher cfg sink root) msgs (initialLoop snapshot, w1) = (Inr u, (loop, w'))"
    by (auto simp: io_local_def split: prod.splits sum.splits)
  have "io_triple (loopState (waitingOK cfg)) (io_foreach (onWatchMsg os watcher cfg sink root) msgs) (\<lambda>_. loopState (waitingOK cfg)) (\<lambda>_. True)"
    by (rule io_triple_foreach) (rule onWatchMsg_waiting)
  from io_tripleD [OF this _ run] show ?thesis by (simp add: waitingOK_def initialLoop_def maxPendingWatchEvents_def)
qed
section \<open>The goroutine of a watch\<close>

text \<open>What a goroutine may do to the manager: the steps of its own watch.\<close>

definition ownSteps :: "watchManager \<Rightarrow> nat \<Rightarrow> string \<Rightarrow> watchManager \<Rightarrow> bool" where
  "ownSteps m0 i key m \<longleftrightarrow> wm_step\<^sup>*\<^sup>* m0 m \<and> i < length (wmHeap m) \<and> ownKey m i = key"

lemma ifCurrent_own: "i < length (wmHeap m) \<Longrightarrow> i < length (wmHeap (ifCurrent key i f m)) \<and> ownKey (ifCurrent key i f m) i = ownKey m i"
  by (simp add: ifCurrent_def updStatus_def updWatch_def)

lemma ownSteps_step:
  assumes "ownSteps m0 i key m" "m' = ifCurrent key i f m" "wm_step m m'"
  shows "ownSteps m0 i key m'"
  using assms ifCurrent_own [of i m key f] by (auto simp: ownSteps_def intro: rtranclp.rtrancl_into_rtrancl)

lemma ownSteps_modify:
  assumes "\<And>m. g m = ifCurrent key i f m" "\<And>m. i < length (wmHeap m) \<Longrightarrow> ownKey m i = key \<Longrightarrow> wm_step m (g m)"
  shows "io_inv (\<lambda>(m, w). ownSteps m0 i key m) (io_modify g)"
  by (rule io_inv_fst_modify) (use assms ownSteps_step in \<open>force simp: ownSteps_def\<close>)

lemma ownSteps_records:
  "io_inv (\<lambda>(m, w). ownSteps m0 i key m) (io_modify (recordDeliverySuccess key i now target batch))"
  "io_inv (\<lambda>(m, w). ownSteps m0 i key m) (io_modify (recordDeliveryError key i target e))"
  "io_inv (\<lambda>(m, w). ownSteps m0 i key m) (io_modify (recordUnconfirmedDelivery key i batch got want))"
  "io_inv (\<lambda>(m, w). ownSteps m0 i key m) (io_modify (recordStopped key i now err))"
  by (rule ownSteps_modify, (simp only: recordDeliverySuccess_def recordDeliveryError_def recordUnconfirmedDelivery_def recordStopped_def),
      metis wm_step.delivered wm_step.failed wm_step.unconfirmed wm_step.ended)+

lemma sendToTargets_own: "io_inv (\<lambda>(m, w). ownSteps m0 i key m) (sendToTargets sender key i batch targets)"
  by (induction targets) (auto intro!: io_inv_intros io_inv_fst ownSteps_records split: sum.split)

lemma deliverBatch_own: "io_inv (\<lambda>(m, w). ownSteps m0 i (wrKey run) m) (deliverBatch env sender pool i run batch)"
  unfolding deliverBatch_def Let_def
  by (auto intro!: io_inv_intros io_inv_fst ownSteps_records sendToTargets_own)

text \<open>\<^verbatim>\<open>WatchVolume\<close> changes its surroundings by the calls it makes only.\<close>

lemma WatchVolume_inv:
  assumes "\<And>p. io_inv I (osLstat os p)" "\<And>p. io_inv I (osReadDir os p)" "\<And>p. io_inv I (osReadlink os p)" "\<And>p. io_inv I (osStat os p)"
    "\<And>p m. io_inv I (osMkdirAll os p m)" "io_inv I (timeNow os)" "io_inv I (watcherNew watcher)" "\<And>p. io_inv I (watcherAdd watcher p)"
    "\<And>b. io_inv I (sink b)"
  shows "io_inv I (WatchVolume os watcher cfg sink msgs)"
proof -
  have outside: "io_inv (\<lambda>(l, w). I w) (io_outside m)" if "io_inv I m" for m :: "(_, 'b) io" 
    using that by (intro io_inv_outside) (simp add: io_inv_def)
  have modify: "io_inv (\<lambda>(l, w). I w) (io_modify f)" for f by (rule io_inv_modify) auto
  have add: "io_inv I (addRecursiveWatches os watcher root filt)" for root filt
    unfolding addRecursiveWatches_def by (rule WalkDir_inv) (auto intro!: io_inv_intros assms split: option.split)
  have send: "io_inv I (sendEvents os cfg sink es)" for es
    unfolding sendEvents_def by (intro io_inv_intros assms)
  have flush: "io_inv (\<lambda>(l, w). I w) (flushPending os cfg sink)"
    unfolding flushPending_def by (auto intro!: io_inv_intros modify outside send)
  have snap: "io_inv I (snapshotWatchedFiles os root filt)" for root filt
    by (rule snapshotWatchedFiles_inv) (rule assms)+
  have "io_inv (\<lambda>(l, w). I w) (yieldExisting os cfg sink e)" for e
    unfolding yieldExisting_def by (auto intro!: io_inv_intros modify flush)
  then have "io_inv (\<lambda>(l, w). I w) (collectExistingEvents (outsideOs os) root start filt (yieldExisting os cfg sink))" for root start filt
    by (intro collectExistingEvents_inv) (auto intro: outside assms)
  then have "io_inv (\<lambda>(l, w). I w) (onWatchMsg os watcher cfg sink root msg)" for root msg
    unfolding onWatchMsg_def onWatchEvent_def onRescan_def
    by (auto intro!: io_inv_intros modify flush outside add snap send assms split: watchMsg.split option.split sum.split)
  then have "io_inv I (io_local l (io_foreach (onWatchMsg os watcher cfg sink root) msgs))" for l root
    by (intro io_local_inv io_inv_foreach)
  then show ?thesis
    unfolding WatchVolume_def EnsureVolumePath_def by (auto intro!: io_inv_intros assms add snap)
qed


section \<open>A concrete watch\<close>

definition demoWatcher :: "'w watcher" where
  "demoWatcher = \<lparr>watcherNew = io_return (), watcherAdd = (\<lambda>_. io_return ())\<rparr>"

definition demoWatchConfig :: WatchConfig where
  "demoWatchConfig = \<lparr>wcPool = vpPool demoVolume, wcNamespace = vpNamespace demoVolume, wcVolume = vpName demoVolume,
     wcIncludePaths = [], wcExcludePaths = [], wcDebounce = 0, wcRescan = 0\<rparr>"

lemma WalkDir_empty:
  assumes "osLstat os root w = (Inr info, w1)" "IsDir info" "fn root True None w1 = (Inr (), w2)" "osReadDir os root w2 = (Inr [], w3)"
  shows "WalkDir os root fn w = (Inr (), w3)"
proof -
  have fuel: "walkFuel = Suc 4095" by (simp add: walkFuel_def)
  have "walkDir walkFuel os fn root True w1 = (Inr (), w3)"
    unfolding fuel walkDir.simps using assms by (simp add: io_try_def io_return_def)
  then show ?thesis using assms by (simp add: WalkDir_def io_try_def io_return_def)
qed

lemma relativeWatchPath_self: "relativeWatchPath root root = Some ''.''"
  by (simp add: relativeWatchPath_def Rel_def HasPrefix_def)

lemma demo_watch_run:
  "\<exists>loop w'. WatchVolume memOs demoWatcher demoWatchConfig (\<lambda>_. io_return ()) [TimerFired, WatcherError None] (memWorld []) = (Inr loop, w')"
proof -
  let ?w = "memWorld [(demoRoot, MDir)]" and ?filt = "watchFilter demoWatchConfig"
  have os: "EnsureVolumePath memOs (volumeAt (vpPool demoVolume) (vpNamespace demoVolume) (vpName demoVolume)) 0x1ED (memWorld []) = (Inr demoRoot, ?w)"
    by (simp add: EnsureVolumePath_def demoVolume_at [simplified] memOs_simps io_defs)
  have stat: "osLstat memOs demoRoot ?w = (Inr (mInfo MDir), ?w)" "osReadDir memOs demoRoot ?w = (Inr [], ?w)"
    by (simp_all add: memOs_def mStat_def memWorld_def mReadDir_def mPlain_def)
  have dir: "IsDir (mInfo MDir)" by (simp add: IsDir_def mInfo_def ModeDir_def)
  have add: "addRecursiveWatches memOs demoWatcher demoRoot ?filt ?w = (Inr (), ?w)"
    unfolding addRecursiveWatches_def
    by (rule WalkDir_empty [OF stat(1) dir _ stat(2)]) (simp add: relativeWatchPath_self demoWatcher_def io_return_def)
  have visit: "snapshotVisitor memOs demoRoot ?filt demoRoot True None ([], ?w) = (Inr (), ([], ?w))"
    by (simp add: snapshotVisitor_def relativeWatchPath_self io_return_def)
  have "osLstat (outsideOs memOs) demoRoot ([], ?w) = (Inr (mInfo MDir), ([], ?w))"
    using stat by simp
  moreover have "osReadDir (outsideOs memOs) demoRoot ([], ?w) = (Inr [], ([], ?w))" using stat by simp
  ultimately have "WalkDir (outsideOs memOs) demoRoot (snapshotVisitor memOs demoRoot ?filt) ([], ?w) = (Inr (), ([], ?w))"
    using WalkDir_empty [where fn = "snapshotVisitor memOs demoRoot ?filt", OF _ dir visit] by blast
  then have snap: "snapshotWatchedFiles memOs demoRoot ?filt ?w = (Inr [], ?w)"
    by (simp add: snapshotWatchedFiles_def io_local_def io_bind_def io_return_def)
  have loop: "\<exists>l. io_foreach (onWatchMsg memOs demoWatcher demoWatchConfig (\<lambda>_. io_return ()) demoRoot) [TimerFired, WatcherError None]
      (initialLoop [], ?w) = (Inr (), (l, ?w))"
    by (simp add: onWatchMsg_def flushPending_def initialLoop_def CoalesceEvents_def io_bind_def io_get_def io_modify_def io_return_def)
  then show ?thesis
    using os add snap by (auto simp: WatchVolume_def demoWatchConfig_def demoWatcher_def io_bind_def io_local_def io_return_def)
qed

theorem WatchVolume_pending_bounded_witness:
  "\<exists>loop w'. WatchVolume memOs demoWatcher demoWatchConfig (\<lambda>_. io_return ()) [TimerFired, WatcherError None] (memWorld []) = (Inr loop, w') \<and>
     length (wlPending loop) < 512"
  using demo_watch_run WatchVolume_pending_bounded by (metis maxPendingWatchEvents_def)

theorem WatchVolume_replicates_filtered_witness:
  "list_all (watchedBatch demoWatchConfig) (fst (snd (WatchVolume (outsideOs memOs) (outsideWatcher demoWatcher) demoWatchConfig
     (tracedSink (\<lambda>_. io_return ())) [RescanTick, TimerFired] ([], memWorld []))))"
  by (rule WatchVolume_replicates_filtered [OF io_run_eta])


end
