(* ===== verification/Locker.thy ===== *)
theory Locker
  imports PathFilter
begin

text \<open>
  \<^verbatim>\<open>VolumeLocker\<close> of \<^verbatim>\<open>internal/agent/replication.go\<close>: one mutex per volume, made on first use.
  The request handlers of an agent run concurrently; they are threads of a step relation whose
  steps are the critical section of the locker, the moment a mutex is obtained, and its release.
\<close>

section \<open>The locker\<close>

text \<open>The mutexes are heap objects; each is the thread that holds it, if any.\<close>

record volumeLocker =
  vlLocks :: "(string, nat) gomap"
  vlMutexes :: "nat option list"

definition NewVolumeLocker :: volumeLocker where
  "NewVolumeLocker = \<lparr>vlLocks = [], vlMutexes = []\<rparr>"

text \<open>The critical section of \<^verbatim>\<open>Lock\<close>: the mutex of the volume, a new one if there is none.\<close>

definition lockFor :: "string \<Rightarrow> volumeLocker \<Rightarrow> nat \<times> volumeLocker" where
  "lockFor key l = (case map_of (vlLocks l) key of
     Some i \<Rightarrow> (i, l)
   | None \<Rightarrow> (length (vlMutexes l),
       l\<lparr>vlLocks := AList.update key (length (vlMutexes l)) (vlLocks l), vlMutexes := vlMutexes l @ [None]\<rparr>))"

section \<open>Concurrent handlers\<close>

text \<open>A handler outside, waiting for the mutex of a volume, or between \<^verbatim>\<open>Lock\<close> and the unlock.\<close>

datatype lockPhase = Outside | Waiting string string nat | Holding string string nat

record lockSystem =
  lsLocker :: volumeLocker
  lsPhase :: "nat \<Rightarrow> lockPhase"

definition initialLocks :: lockSystem where
  "initialLocks = \<lparr>lsLocker = NewVolumeLocker, lsPhase = (\<lambda>_. Outside)\<rparr>"

definition setOwner :: "nat \<Rightarrow> nat option \<Rightarrow> volumeLocker \<Rightarrow> volumeLocker" where
  "setOwner i owner l = l\<lparr>vlMutexes := (vlMutexes l)[i := owner]\<rparr>"

inductive lock_step :: "lockSystem \<Rightarrow> lockSystem \<Rightarrow> bool" where
  Request: "lsPhase s t = Outside \<Longrightarrow> lockFor (lockKey ns v) (lsLocker s) = (i, l) \<Longrightarrow>
    lock_step s \<lparr>lsLocker = l, lsPhase = (lsPhase s)(t := Waiting ns v i)\<rparr>"
| Acquire: "lsPhase s t = Waiting ns v i \<Longrightarrow> vlMutexes (lsLocker s) ! i = None \<Longrightarrow>
    lock_step s \<lparr>lsLocker = setOwner i (Some t) (lsLocker s), lsPhase = (lsPhase s)(t := Holding ns v i)\<rparr>"
| Release: "lsPhase s t = Holding ns v i \<Longrightarrow>
    lock_step s \<lparr>lsLocker = setOwner i None (lsLocker s), lsPhase = (lsPhase s)(t := Outside)\<rparr>"

section \<open>Mutual exclusion\<close>

text \<open>The volume whose mutex a handler waits for or holds.\<close>

fun engaged :: "lockPhase \<Rightarrow> (string \<times> nat) option" where
  "engaged Outside = None"
| "engaged (Waiting ns v i) = Some (lockKey ns v, i)"
| "engaged (Holding ns v i) = Some (lockKey ns v, i)"

fun held :: "lockPhase \<Rightarrow> nat option" where
  "held (Holding ns v i) = Some i"
| "held _ = None"

definition lockerOK :: "volumeLocker \<Rightarrow> bool" where
  "lockerOK l \<longleftrightarrow> (\<forall>key i. map_of (vlLocks l) key = Some i \<longrightarrow> i < length (vlMutexes l)) \<and>
     (\<forall>key key' i. map_of (vlLocks l) key = Some i \<longrightarrow> map_of (vlLocks l) key' = Some i \<longrightarrow> key = key')"

definition lock_inv :: "lockSystem \<Rightarrow> bool" where
  "lock_inv s \<longleftrightarrow> lockerOK (lsLocker s) \<and>
     (\<forall>t key i. engaged (lsPhase s t) = Some (key, i) \<longrightarrow> map_of (vlLocks (lsLocker s)) key = Some i) \<and>
     (\<forall>t i. i < length (vlMutexes (lsLocker s)) \<longrightarrow> (held (lsPhase s t) = Some i \<longleftrightarrow> vlMutexes (lsLocker s) ! i = Some t))"

lemma lockFor_spec:
  assumes "lockFor key l = (i, l')" "lockerOK l"
  shows "lockerOK l'" "map_of (vlLocks l') key = Some i"
    "map_of (vlLocks l) k = Some j \<Longrightarrow> map_of (vlLocks l') k = Some j"
    "length (vlMutexes l) \<le> length (vlMutexes l')"
    "j < length (vlMutexes l') \<Longrightarrow> vlMutexes l' ! j = (if j < length (vlMutexes l) then vlMutexes l ! j else None)"
  using assms by (auto simp: lockFor_def lockerOK_def update_conv' nth_append less_Suc_eq split: option.splits if_splits; blast)+

lemma engaged_bound:
  "lock_inv s \<Longrightarrow> engaged (lsPhase s t) = Some (key, i) \<Longrightarrow> i < length (vlMutexes (lsLocker s))"
  unfolding lock_inv_def lockerOK_def by blast

lemma phase_bound:
  "lock_inv s \<Longrightarrow> lsPhase s t = Waiting ns v i \<or> lsPhase s t = Holding ns v i \<Longrightarrow> i < length (vlMutexes (lsLocker s))"
  using engaged_bound [of s t "lockKey ns v" i] by auto

lemma held_engaged: "held p = Some i \<Longrightarrow> \<exists>key. engaged p = Some (key, i)"
  by (cases p) auto

lemma phase_key:
  "lock_inv s \<Longrightarrow> lsPhase s t = Waiting ns v i \<or> lsPhase s t = Holding ns v i \<Longrightarrow> map_of (vlLocks (lsLocker s)) (lockKey ns v) = Some i"
  unfolding lock_inv_def by (metis engaged.simps(2,3))

lemma owner_holds:
  "lock_inv s \<Longrightarrow> i < length (vlMutexes (lsLocker s)) \<Longrightarrow> held (lsPhase s t) = Some i \<longleftrightarrow> vlMutexes (lsLocker s) ! i = Some t"
  by (simp add: lock_inv_def)

text \<open>Both the moment a mutex is obtained and its release set the owner as the handler's phase says.\<close>

lemma lock_inv_owner:
  assumes inv: "lock_inv s" and t: "lsPhase s t = Waiting ns v i \<or> lsPhase s t = Holding ns v i"
    and phase: "phase = Holding ns v i \<and> owner = Some t \<and> vlMutexes (lsLocker s) ! i = None \<or> phase = Outside \<and> owner = None \<and> lsPhase s t = Holding ns v i"
  shows "lock_inv \<lparr>lsLocker = setOwner i owner (lsLocker s), lsPhase = (lsPhase s)(t := phase)\<rparr>"
proof -
  let ?l = "lsLocker s"
  note bound = phase_bound [OF inv t] and key = phase_key [OF inv t]
  have ok: "lockerOK (setOwner i owner ?l)" using inv by (simp add: lock_inv_def lockerOK_def setOwner_def)
  have engage: "engaged (((lsPhase s)(t := phase)) x) = Some (k, j) \<Longrightarrow> map_of (vlLocks (setOwner i owner ?l)) k = Some j" for x k j
    using inv key phase by (auto simp: lock_inv_def setOwner_def split: if_splits)
  have own: "held (((lsPhase s)(t := phase)) x) = Some j \<longleftrightarrow> vlMutexes (setOwner i owner ?l) ! j = Some x"
    if "j < length (vlMutexes ?l)" for x j
    using owner_holds [OF inv that, of x] owner_holds [OF inv that, of t] owner_holds [OF inv bound, of x] t phase bound that
    by (auto simp: setOwner_def nth_list_update)
  show ?thesis using ok engage own by (simp add: lock_inv_def setOwner_def)
qed

lemma lock_inv_step:
  assumes "lock_step s s'" "lock_inv s"
  shows "lock_inv s'"
  using assms
proof (induction rule: lock_step.induct)
  case (Request s t ns v i l)
  note spec = lockFor_spec [OF Request(2)]
  have ok: "lockerOK (lsLocker s)" using Request(3) by (simp add: lock_inv_def)
  have owners: "held (lsPhase s u) = Some j \<longleftrightarrow> vlMutexes l ! j = Some u" if "j < length (vlMutexes l)" for u j
    using Request(3) held_engaged [of "lsPhase s u" j] engaged_bound [OF Request(3), of u _ j] spec(5) [OF ok that]
    by (auto simp: lock_inv_def)
  have "held (((lsPhase s)(t := Waiting ns v i)) u) = held (lsPhase s u)" for u using Request(1) by simp
  moreover have "engaged (((lsPhase s)(t := Waiting ns v i)) u) = Some (key, j) \<Longrightarrow> map_of (vlLocks l) key = Some j" for u key j
    using Request(3) spec(2,3) [OF ok] by (auto simp: lock_inv_def split: if_splits)
  ultimately show ?case using owners spec(1) [OF ok] by (auto simp: lock_inv_def)
next
  case (Acquire s t ns v i)
  then show ?case by (intro lock_inv_owner) auto
next
  case (Release s t ns v i)
  then show ?case by (intro lock_inv_owner) auto
qed

lemma lock_inv_reachable: "lock_step\<^sup>*\<^sup>* initialLocks s \<Longrightarrow> lock_inv s"
proof (induction rule: rtranclp_induct)
  case base
  show ?case by (simp add: lock_inv_def lockerOK_def initialLocks_def NewVolumeLocker_def)
qed (rule lock_inv_step)


lemma holders_differ:
  assumes "lock_inv s" "\<not> invalidPoolPath (Clean (poolPath pool))"
    and "lsPhase s t = Holding ns v i" "lsPhase s u = Holding ns' v' j" "t \<noteq> u"
  shows "ResolveVolumePath (volumeAt pool ns v) \<noteq> ResolveVolumePath (volumeAt pool ns' v')"
proof
  assume "ResolveVolumePath (volumeAt pool ns v) = ResolveVolumePath (volumeAt pool ns' v')"
  then have "lockKey ns v = lockKey ns' v'" using lockKey_same_directory [OF assms(2)] by simp
  then have "i = j" using phase_key [OF assms(1), of t ns v i] phase_key [OF assms(1), of u ns' v' j] assms(3,4) by simp
  moreover have "i < length (vlMutexes (lsLocker s))" using phase_bound [OF assms(1), of t ns v i] assms(3) by simp
  ultimately show False
    using owner_holds [OF assms(1), of i t] owner_holds [OF assms(1), of i u] assms(3-5) by simp
qed

lemma waiting_proceeds:
  assumes "lock_inv s" "\<not> invalidPoolPath (Clean (poolPath pool))" "lsPhase s t = Waiting ns v i"
  shows "(\<exists>s'. lock_step s s' \<and> lsPhase s' t = Holding ns v i) \<or>
    (\<exists>u ns' v'. lsPhase s u = Holding ns' v' i \<and> ResolveVolumePath (volumeAt pool ns v) = ResolveVolumePath (volumeAt pool ns' v'))"
proof (cases "vlMutexes (lsLocker s) ! i")
  case None
  from Acquire [OF assms(3) this] show ?thesis by fastforce
next
  case (Some u)
  with assms(1) phase_bound [OF assms(1), of t ns v i] assms(3) have "held (lsPhase s u) = Some i" by (simp add: lock_inv_def)
  then obtain ns' v' where u: "lsPhase s u = Holding ns' v' i" by (cases "lsPhase s u") auto
  then have "lockKey ns v = lockKey ns' v'"
    using phase_key [OF assms(1), of t ns v i] phase_key [OF assms(1), of u ns' v' i] assms(1,3)
    unfolding lock_inv_def lockerOK_def by blast
  then have "ResolveVolumePath (volumeAt pool ns v) = ResolveVolumePath (volumeAt pool ns' v')"
    using lockKey_same_directory [OF assms(2)] by blast
  then show ?thesis using u by blast
qed

text \<open>
  C9. Requests on one volume exclude each other and do not hinder the others: however the
  handlers of an agent interleave, two that are between \<^verbatim>\<open>Lock\<close> and unlock work on different
  directories of the pool, and a handler that waits for its volume can go on at once unless
  another handler holds a volume that resolves to the same directory.
\<close>

theorem volume_locks_exclude:
  assumes "lock_step\<^sup>*\<^sup>* initialLocks s" "\<not> invalidPoolPath (Clean (poolPath pool))"
  shows "(\<forall>t u ns v i ns' v' j. lsPhase s t = Holding ns v i \<and> lsPhase s u = Holding ns' v' j \<and> t \<noteq> u \<longrightarrow>
      ResolveVolumePath (volumeAt pool ns v) \<noteq> ResolveVolumePath (volumeAt pool ns' v')) \<and>
    (\<forall>t ns v i. lsPhase s t = Waiting ns v i \<longrightarrow>
      (\<exists>s'. lock_step s s' \<and> lsPhase s' t = Holding ns v i) \<or>
      (\<exists>u ns' v'. lsPhase s u = Holding ns' v' i \<and>
        ResolveVolumePath (volumeAt pool ns v) = ResolveVolumePath (volumeAt pool ns' v')))"
  using holders_differ [OF lock_inv_reachable [OF assms(1)] assms(2)] waiting_proceeds [OF lock_inv_reachable [OF assms(1)] assms(2)]
  by blast

text \<open>Two handlers on one volume: the first holds its mutex, the second waits for it.\<close>

definition demoLocks :: lockSystem where
  "demoLocks = \<lparr>lsLocker = \<lparr>vlLocks = [(lockKey ''a'' ''b'', 0)], vlMutexes = [Some 0]\<rparr>,
     lsPhase = (\<lambda>_. Outside)(0 := Holding ''a'' ''b'' 0, 1 := Waiting ''a'' ''b'' 0)\<rparr>"

lemma demoLocks_reachable: "lock_step\<^sup>*\<^sup>* initialLocks demoLocks"
proof -
  let ?l = "\<lparr>vlLocks = [(lockKey ''a'' ''b'', 0)], vlMutexes = [None]\<rparr>"
  let ?s1 = "\<lparr>lsLocker = ?l, lsPhase = (lsPhase initialLocks)(0 := Waiting ''a'' ''b'' 0)\<rparr>"
  let ?s2 = "\<lparr>lsLocker = setOwner 0 (Some 0) (lsLocker ?s1), lsPhase = (lsPhase ?s1)(0 := Holding ''a'' ''b'' 0)\<rparr>"
  have 1: "lock_step initialLocks ?s1"
    by (rule Request) (simp_all add: initialLocks_def NewVolumeLocker_def lockFor_def)
  have 2: "lock_step ?s1 ?s2" by (rule Acquire) simp_all
  have 3: "lock_step ?s2 \<lparr>lsLocker = lsLocker ?s2, lsPhase = (lsPhase ?s2)(1 := Waiting ''a'' ''b'' 0)\<rparr>"
    by (rule Request) (simp_all add: initialLocks_def lockFor_def setOwner_def)
  have same: "\<lparr>lsLocker = lsLocker ?s2, lsPhase = (lsPhase ?s2)(1 := Waiting ''a'' ''b'' 0)\<rparr> = demoLocks"
    by (simp add: demoLocks_def initialLocks_def setOwner_def fun_eq_iff)
  show ?thesis
    by (rule converse_rtranclp_into_rtranclp, rule 1, rule converse_rtranclp_into_rtranclp, rule 2, rule r_into_rtranclp, rule 3 [unfolded same])
qed

theorem volume_locks_exclude_witness:
  "\<exists>u ns' v'. lsPhase demoLocks u = Holding ns' v' 0 \<or> (\<exists>s'. lock_step demoLocks s' \<and> lsPhase s' 1 = Holding ''a'' ''b'' 0)"
proof -
  have valid: "\<not> invalidPoolPath (Clean (poolPath demoPool))"
    using demoPool_valid by (simp add: demoVolume_def demoPool_def)
  have "lsPhase demoLocks 1 = Waiting ''a'' ''b'' 0" by (simp add: demoLocks_def)
  then show ?thesis using conjunct2 [OF volume_locks_exclude [OF demoLocks_reachable valid]] by blast
qed
end
