(* ===== verification/Archive.thy ===== *)
theory Archive
  imports Shadow GoUrl
begin

text \<open>
  Archives of a volume, \<^verbatim>\<open>internal/agent/replication.go\<close>: writing a volume as a tar stream,
  extracting one, and clearing a target before that. A tar stream is the sequence of its
  headers with their contents; a file or an entry is read as the sequence of the chunks that
  \<^verbatim>\<open>Read\<close> returns, the last of which comes with the error or the end of the file. Handles,
  links and cache advice are a parameter beside the operating system.
\<close>

section \<open>Streams\<close>

datatype tar_type = TypeReg | TypeDir | TypeSymlink | TypeOther

record tar_header =
  thName :: string
  thType :: tar_type
  thMode :: int
  thLinkname :: string
  thUid :: int
  thGid :: int
  thModTime :: time
  thSize :: int

record reads =
  rdChunks :: "string list"
  rdLast :: string
  rdError :: go_error

definition readBytes :: "reads \<Rightarrow> string" where
  "readBytes r = concat (rdChunks r) @ rdLast r"

record 'w file_api =
  faReads :: "nat \<Rightarrow> ('w, reads) io"
  faCreate :: "string \<Rightarrow> filemode \<Rightarrow> ('w, nat) io"
  faWrite :: "nat \<Rightarrow> string \<Rightarrow> ('w, unit) io"
  faSymlink :: "string \<Rightarrow> string \<Rightarrow> ('w, unit) io"
  faChtimes :: "string \<Rightarrow> time \<Rightarrow> ('w, unit) io"
  faFadvise :: "nat \<Rightarrow> int \<Rightarrow> int \<Rightarrow> ('w, unit) io"
  faSyncFileRange :: "nat \<Rightarrow> int \<Rightarrow> int \<Rightarrow> ('w, unit) io"
  faFdatasync :: "nat \<Rightarrow> ('w, unit) io"

section \<open>The copy loops\<close>

definition archiveCacheDropInterval :: int where "archiveCacheDropInterval = 1024 * 1024"

definition adviseFileRange :: "'w file_api \<Rightarrow> nat \<Rightarrow> int \<Rightarrow> int \<Rightarrow> ('w, unit) io" where
  "adviseFileRange fa file offset len =
     (if len \<le> 0 then io_return ()
      else io_try (faFadvise fa file offset len) (\<lambda>r. case r of
        Inl e \<Rightarrow> if e \<noteq> ErrEINVAL \<and> e \<noteq> ErrENOSYS then io_fail e else io_return ()
      | Inr _ \<Rightarrow> io_return ()))"

definition syncAndAdviseFileRange :: "'w file_api \<Rightarrow> nat \<Rightarrow> int \<Rightarrow> int \<Rightarrow> ('w, unit) io" where
  "syncAndAdviseFileRange fa file offset len =
     (if len \<le> 0 then io_return ()
      else io_bind (io_try (faSyncFileRange fa file offset len) (\<lambda>r. case r of
          Inl e \<Rightarrow>
            if e \<noteq> ErrEINVAL \<and> e \<noteq> ErrENOSYS then
              io_try (faFdatasync fa file) (\<lambda>s. case s of
                Inl syncErr \<Rightarrow> if syncErr \<noteq> ErrEINVAL then io_fail e else io_return ()
              | Inr _ \<Rightarrow> io_return ())
            else io_return ()
        | Inr _ \<Rightarrow> io_return ())) (\<lambda>_.
        adviseFileRange fa file offset len))"

text \<open>
  One turn of a loop for the \<open>n > 0\<close> bytes of a read: write them, and release the cache of the
  range behind once it is long enough. The state is the offset and the start of that range.
\<close>

definition copyChunk :: "(string \<Rightarrow> ('w, unit) io) \<Rightarrow> (int \<Rightarrow> int \<Rightarrow> ('w, unit) io) \<Rightarrow> string \<Rightarrow> int \<times> int \<Rightarrow> ('w, int \<times> int) io" where
  "copyChunk emit drop_cache chunk = (\<lambda>(offset, dropStart).
     if chunk = '''' then io_return (offset, dropStart)
     else io_bind (emit chunk) (\<lambda>_.
       let offset' = offset + int (length chunk) in
       if offset' - dropStart \<ge> archiveCacheDropInterval
       then io_bind (drop_cache dropStart (offset' - dropStart)) (\<lambda>_. io_return (offset', offset'))
       else io_return (offset', dropStart)))"

fun copyLoop :: "(string \<Rightarrow> ('w, unit) io) \<Rightarrow> (int \<Rightarrow> int \<Rightarrow> ('w, unit) io) \<Rightarrow> string list \<Rightarrow> string \<Rightarrow> go_error \<Rightarrow> int \<times> int \<Rightarrow> ('w, unit) io" where
  "copyLoop emit drop_cache [] lastChunk readErr st =
     io_bind (copyChunk emit drop_cache lastChunk st) (\<lambda>(offset, dropStart).
     if readErr = ErrEOF then (if offset > dropStart then drop_cache dropStart (offset - dropStart) else io_return ())
     else io_fail readErr)"
| "copyLoop emit drop_cache (chunk # chunks) lastChunk readErr st =
     io_bind (copyChunk emit drop_cache chunk st) (\<lambda>st'. copyLoop emit drop_cache chunks lastChunk readErr st')"

section \<open>Writing an archive\<close>

text \<open>
  The tar writer: the entries written, the last of which is open. A header is refused while
  bytes of the open entry are missing, and bytes are refused beyond the size in its header.
  \<open>out\<close> is the write to the underlying stream.
\<close>

type_synonym tar_writer = "(tar_header \<times> string) list"

definition WriteHeader :: "('w, unit) io \<Rightarrow> tar_header \<Rightarrow> (tar_writer \<times> 'w, unit) io" where
  "WriteHeader out h =
     io_bind (io_get (\<lambda>tw. tw \<noteq> [] \<and> int (length (snd (last tw))) < thSize (fst (last tw)))) (\<lambda>missing.
     if missing then io_fail (Errorf ''archive/tar: missed writing bytes'')
     else io_bind (io_outside out) (\<lambda>_. io_modify (\<lambda>tw. tw @ [(h, '''')])))"

definition tarWrite :: "('w, unit) io \<Rightarrow> string \<Rightarrow> (tar_writer \<times> 'w, unit) io" where
  "tarWrite out bytes =
     io_bind (io_get (\<lambda>tw. if tw = [] then 0 else thSize (fst (last tw)) - int (length (snd (last tw))))) (\<lambda>room.
     io_bind (if take (nat room) bytes = [] then io_return () else io_outside out) (\<lambda>_.
     io_bind (io_modify (\<lambda>tw. if tw = [] then tw
       else butlast tw @ [(fst (last tw), snd (last tw) @ take (nat room) bytes)])) (\<lambda>_.
     if int (length bytes) > room then io_fail (Errorf ''archive/tar: write too long'') else io_return ())))"

definition copyFileToArchive :: "'w file_api \<Rightarrow> ('w, unit) io \<Rightarrow> nat \<Rightarrow> (tar_writer \<times> 'w, unit) io" where
  "copyFileToArchive fa out src =
     io_bind (io_outside (faReads fa src)) (\<lambda>r.
     copyLoop (tarWrite out) (\<lambda>offset len. io_outside (adviseFileRange fa src offset len)) (rdChunks r) (rdLast r) (rdError r) (0, 0))"

definition IsRegular :: "file_info \<Rightarrow> bool" where
  "IsRegular info \<longleftrightarrow> and (fiMode info) ModeType = 0"

definition ModeDevice :: filemode where "ModeDevice = push_bit 26 1"
definition ModeNamedPipe :: filemode where "ModeNamedPipe = push_bit 25 1"
definition ModeSocket :: filemode where "ModeSocket = push_bit 24 1"

text \<open>\<^verbatim>\<open>tar.FileInfoHeader\<close>; \<open>owner\<close> is what the system-specific part of the file information holds.\<close>

definition headerMode :: "file_info \<Rightarrow> int" where
  "headerMode info = uint (Perm (fiMode info))
     + (if and (fiMode info) ModeSetuid \<noteq> 0 then 2048 else 0)
     + (if and (fiMode info) ModeSetgid \<noteq> 0 then 1024 else 0)
     + (if and (fiMode info) ModeSticky \<noteq> 0 then 512 else 0)"

definition headerType :: "file_info \<Rightarrow> go_error + tar_type" where
  "headerType info =
     (if IsRegular info then Inr TypeReg
      else if IsDir info then Inr TypeDir
      else if IsSymlink info then Inr TypeSymlink
      else if and (fiMode info) ModeDevice \<noteq> 0 \<or> and (fiMode info) ModeNamedPipe \<noteq> 0 then Inr TypeOther
      else if and (fiMode info) ModeSocket \<noteq> 0 then Inl (Errorf ''archive/tar: sockets not supported'')
      else Inl (Errorf ''archive/tar: unknown file mode''))"

definition FileInfoHeader :: "(file_info \<Rightarrow> int \<times> int) \<Rightarrow> file_info \<Rightarrow> string \<Rightarrow> go_error + tar_header" where
  "FileInfoHeader owner info link = (case headerType info of
     Inl e \<Rightarrow> Inl e
   | Inr t \<Rightarrow> Inr \<lparr>thName = '''', thType = t, thMode = headerMode info,
       thLinkname = (if t = TypeSymlink then link else ''''),
       thUid = fst (owner info), thGid = snd (owner info), thModTime = fiModTime info,
       thSize = (if t = TypeReg then fiSize info else 0)\<rparr>)"

text \<open>What the visitor does for a path that the filter selects.\<close>

definition writeArchiveEntry ::
    "'w os_api \<Rightarrow> 'w file_api \<Rightarrow> (file_info \<Rightarrow> int \<times> int) \<Rightarrow> ('w, unit) io \<Rightarrow> string \<Rightarrow> string \<Rightarrow> file_info \<Rightarrow> (tar_writer \<times> 'w, unit) io" where
  "writeArchiveEntry os fa owner out p archivePath info =
     io_bind (if IsSymlink info then io_outside (osReadlink os p) else io_return '''') (\<lambda>linkTarget.
     io_bind (io_lift (FileInfoHeader owner info linkTarget)) (\<lambda>header.
     io_bind (WriteHeader out (header\<lparr>thName := archivePath\<rparr>)) (\<lambda>_.
     if \<not> IsRegular info then io_return ()
     else io_try (io_outside (osOpen os p)) (\<lambda>r. case r of
       Inl e \<Rightarrow> if IsNotExist e then io_return () else io_fail e
     | Inr file \<Rightarrow>
         io_try (copyFileToArchive fa out file) (\<lambda>copyErr.
         io_try (io_outside (osClose os file)) (\<lambda>closeErr.
         io_bind (io_lift copyErr) (\<lambda>_. io_lift closeErr)))))))"

definition archiveVisitor ::
    "'w os_api \<Rightarrow> 'w file_api \<Rightarrow> (file_info \<Rightarrow> int \<times> int) \<Rightarrow> ('w, unit) io \<Rightarrow> string \<Rightarrow> PathFilter \<Rightarrow> (tar_writer \<times> 'w) visitor" where
  "archiveVisitor os fa owner out root filt p isDir err = (case err of
     Some e \<Rightarrow> if IsNotExist e then io_return () else io_fail e
   | None \<Rightarrow>
       if p = root then io_return ()
       else io_bind (io_lift (Rel root p)) (\<lambda>archivePath.
         io_try (io_outside (osLstat os p)) (\<lambda>r. case r of
           Inl e \<Rightarrow> if IsNotExist e then io_return () else io_fail e
         | Inr info \<Rightarrow>
             if IsDir info \<and> \<not> ShouldTraverse filt archivePath then io_fail ErrSkipDir
             else if \<not> IsDir info \<and> \<not> ShouldReplicate filt archivePath then io_return ()
             else writeArchiveEntry os fa owner out p archivePath info)))"

definition WriteTarArchive ::
    "'w os_api \<Rightarrow> 'w file_api \<Rightarrow> (file_info \<Rightarrow> int \<times> int) \<Rightarrow> ('w, unit) io \<Rightarrow> string \<Rightarrow> PathFilter \<Rightarrow> (tar_writer \<times> 'w, unit) io" where
  "WriteTarArchive os fa owner out root0 filt =
     (let root = Clean root0 in WalkDir (outsideOs os) root (archiveVisitor os fa owner out root filt))"

section \<open>Extracting an archive\<close>

definition copyArchiveToFile :: "'w file_api \<Rightarrow> nat \<Rightarrow> reads \<Rightarrow> ('w, unit) io" where
  "copyArchiveToFile fa dst r =
     copyLoop (faWrite fa dst) (\<lambda>offset len. syncAndAdviseFileRange fa dst offset len) (rdChunks r) (rdLast r) (rdError r) (0, 0)"

definition IsPermission :: "go_error \<Rightarrow> bool" where
  "IsPermission e \<longleftrightarrow> e = ErrPermission"

definition headerPerm :: "tar_header \<Rightarrow> filemode" where
  "headerPerm h = Perm (of_int (thMode h))"

definition restorePathMetadata :: "'w os_api \<Rightarrow> 'w file_api \<Rightarrow> string \<Rightarrow> tar_header \<Rightarrow> bool \<Rightarrow> ('w, unit) io" where
  "restorePathMetadata os fa target header symlink =
     io_bind (io_try (if symlink then osLchown os target (thUid header) (thGid header) else osChown os target (thUid header) (thGid header))
       (\<lambda>r. case r of Inl e \<Rightarrow> if \<not> IsPermission e then io_fail e else io_return () | Inr _ \<Rightarrow> io_return ())) (\<lambda>_.
     if symlink then io_return ()
     else io_bind (osChmod os target (headerPerm header)) (\<lambda>_. faChtimes fa target (thModTime header)))"

definition extractEntry :: "'w os_api \<Rightarrow> 'w file_api \<Rightarrow> string \<Rightarrow> tar_header \<times> reads \<Rightarrow> ('w, unit) io" where
  "extractEntry os fa root = (\<lambda>(header, contents).
     io_bind (io_lift (NormalizeEventPath (thName header))) (\<lambda>rel.
     let target = pathJoin [root, rel] in
     io_bind (io_lift (ensurePathInside root target)) (\<lambda>_.
     case thType header of
       TypeDir \<Rightarrow>
         io_bind (osMkdirAll os target (headerPerm header)) (\<lambda>_. restorePathMetadata os fa target header False)
     | TypeSymlink \<Rightarrow>
         io_bind (osMkdirAll os (pathDir target) 0x1ED) (\<lambda>_.
         io_bind (osRemoveAll os target) (\<lambda>_.
         io_bind (faSymlink fa (thLinkname header) target) (\<lambda>_. restorePathMetadata os fa target header True)))
     | TypeReg \<Rightarrow>
         io_bind (osMkdirAll os (pathDir target) 0x1ED) (\<lambda>_.
         io_bind (faCreate fa target (headerPerm header)) (\<lambda>file.
         io_try (copyArchiveToFile fa file contents) (\<lambda>r. case r of
           Inl e \<Rightarrow> io_try (osClose os file) (\<lambda>_. io_fail e)
         | Inr _ \<Rightarrow> io_bind (osClose os file) (\<lambda>_. restorePathMetadata os fa target header False))))
     | TypeOther \<Rightarrow> io_return ())))"

text \<open>A stream ends with the end of the file or with the error of \<^verbatim>\<open>Next\<close>.\<close>

definition ExtractTarArchive :: "'w os_api \<Rightarrow> 'w file_api \<Rightarrow> string \<Rightarrow> (tar_header \<times> reads) list \<times> go_error \<Rightarrow> ('w, unit) io" where
  "ExtractTarArchive os fa root0 = (\<lambda>(entries, ending).
     let root = Clean root0 in
     io_bind (io_foreach (extractEntry os fa root) entries) (\<lambda>_.
     if ending = ErrEOF then io_return () else io_fail ending))"

section \<open>Clearing a target\<close>

text \<open>The recursion is bounded by the depth a path can have, as for \<^const>\<open>walkDir\<close>.\<close>

primrec clearContents :: "nat \<Rightarrow> 'w os_api \<Rightarrow> string \<Rightarrow> ('w, unit) io" where
  "clearContents 0 os root = io_fail ErrNameTooLong"
| "clearContents (Suc n) os root =
     io_bind (osReadDir os root) (\<lambda>entries.
     io_foreach (\<lambda>(name, d).
       let target = pathJoin [root, name] in
       io_try (osLstat os target) (\<lambda>r. case r of
         Inl e \<Rightarrow> if IsNotExist e then io_return () else io_fail e
       | Inr info \<Rightarrow>
           if IsDir info \<and> \<not> IsSymlink info then clearContents n os target
           else osRemoveAll os target)) entries)"

definition clearDirectoryContentsPreservingDirs :: "'w os_api \<Rightarrow> string \<Rightarrow> ('w, unit) io" where
  "clearDirectoryContentsPreservingDirs os root = clearContents walkFuel os root"

fun clearIncludes :: "'w os_api \<Rightarrow> string \<Rightarrow> string list \<Rightarrow> string list \<Rightarrow> ('w, unit) io" where
  "clearIncludes os targetRoot seen [] = io_return ()"
| "clearIncludes os targetRoot seen (inc # incs) =
     (let root = filterStaticPrefix inc in
      if root = '''' then clearIncludes os targetRoot seen incs
      else io_bind (io_lift (NormalizeEventPath root)) (\<lambda>clean.
        if clean \<in> set seen then clearIncludes os targetRoot seen incs
        else
          let target = pathJoin [targetRoot, clean] in
          io_bind (io_try (osLstat os target) (\<lambda>r. case r of
              Inl e \<Rightarrow> if IsNotExist e then io_return () else io_fail e
            | Inr info \<Rightarrow>
                if IsDir info \<and> \<not> IsSymlink info then clearDirectoryContentsPreservingDirs os target
                else osRemoveAll os target)) (\<lambda>_.
          clearIncludes os targetRoot (clean # seen) incs)))"

definition clearFullSyncTarget :: "'w os_api \<Rightarrow> string \<Rightarrow> PathFilter \<Rightarrow> ('w, unit) io" where
  "clearFullSyncTarget os targetRoot filt =
     (if IncludePaths filt = [] then clearDirectoryContentsPreservingDirs os targetRoot
      else clearIncludes os targetRoot [] (IncludePaths filt))"

section \<open>A full sync by archive\<close>

text \<open>
  The URL of an archive. Parsing and printing URLs are a parameter; the query is built and
  escaped here.
\<close>

record url =
  uScheme :: string
  uUser :: string
  uHost :: string
  uPath :: string
  uRawQuery :: string
  uFragment :: string

record url_api =
  urlParse :: "string \<Rightarrow> go_error + url"
  urlString :: "url \<Rightarrow> string"
  urlHostname :: "url \<Rightarrow> string"

definition agentURLFromWebDAV :: "url_api \<Rightarrow> string \<Rightarrow> go_error + string" where
  "agentURLFromWebDAV urls webdavURL = (case urlParse urls (TrimSpace webdavURL) of
     Inl e \<Rightarrow> Inl e
   | Inr u \<Rightarrow>
       if uScheme u = '''' \<or> uHost u = '''' then Inl (Errorf (''invalid source.webdavUrl '' @ webdavURL))
       else
         let host = urlHostname urls u in
         if host = '''' then Inl (Errorf (''invalid source.webdavUrl '' @ webdavURL))
         else Inr (urlString urls (u\<lparr>uHost := JoinHostPort host ''8080'', uPath := '''', uRawQuery := '''', uFragment := ''''\<rparr>)))"

definition archiveQuery :: "string \<Rightarrow> PathFilter \<Rightarrow> url_values \<Rightarrow> url_values" where
  "archiveQuery sourceVolume filt q =
     (let s = Trim sourceVolume ''/''; parts = Cut slash s;
          q1 = AList.update ''namespace'' [fst parts] q;
          q2 = (if slash \<in> set s then AList.update ''volume'' [snd parts] q1 else q1);
          q3 = fold (valuesAdd ''include'') (IncludePaths filt) q2
      in fold (valuesAdd ''exclude'') (ExcludePaths filt) q3)"

definition archiveURLFromSource :: "url_api \<Rightarrow> SourceRef \<Rightarrow> string \<Rightarrow> PathFilter \<Rightarrow> go_error + string" where
  "archiveURLFromSource urls source sourceVolume filt = (case agentURLFromWebDAV urls (srcWebDAVURL source) of
     Inl e \<Rightarrow> Inl e
   | Inr agentURL \<Rightarrow> (case urlParse urls (TrimRight agentURL ''/'' @ ''/replication/archive'') of
       Inl e \<Rightarrow> Inl e
     | Inr u \<Rightarrow> Inr (urlString urls (u\<lparr>uRawQuery := Encode (archiveQuery sourceVolume filt (ParseQuery (uRawQuery u)))\<rparr>))))"

text \<open>
  \<open>get\<close> is the request for a URL with an authorisation: the status code, its text, the body as
  the text of an error, and the body as a stream.
\<close>

definition applyAgentArchiveFullSync ::
    "'w os_api \<Rightarrow> 'w file_api \<Rightarrow> url_api \<Rightarrow> (string \<Rightarrow> string \<Rightarrow> ('w, int \<times> string \<times> string \<times> (tar_header \<times> reads) list \<times> go_error) io) \<Rightarrow>
     SourceRef \<Rightarrow> string \<Rightarrow> string \<Rightarrow> string \<Rightarrow> PathFilter \<Rightarrow> ('w, unit) io" where
  "applyAgentArchiveFullSync os fa urls get source token sourceVolume targetRoot filt =
     io_bind (io_lift (archiveURLFromSource urls source sourceVolume filt)) (\<lambda>archiveURL.
     io_bind (get archiveURL (''Bearer '' @ token)) (\<lambda>(code, status, responseBody, stream).
     if code < 200 \<or> code \<ge> 300
     then io_fail (Errorf (archiveURL @ '' returned '' @ status @ '': '' @ TrimSpace (take 1024 responseBody)))
     else io_bind (clearFullSyncTarget os targetRoot filt) (\<lambda>_. ExtractTarArchive os fa targetRoot stream)))"

text \<open>The query of an archive names its volume and its filter.\<close>

lemma goget_fold_valuesAdd: "goget (fold (valuesAdd key) vs m) k [] = goget m k [] @ (if k = key then vs else [])"
  by (induction vs arbitrary: m) (auto simp: goget_valuesAdd)

lemma archiveQuery_values:
  assumes "segment ns" "segment volume"
  shows "goget (archiveQuery (pathJoin [ns, volume]) filt []) ''namespace'' [] = [ns]"
    and "goget (archiveQuery (pathJoin [ns, volume]) filt []) ''volume'' [] = [volume]"
    and "goget (archiveQuery (pathJoin [ns, volume]) filt []) ''include'' [] = IncludePaths filt"
    and "goget (archiveQuery (pathJoin [ns, volume]) filt []) ''exclude'' [] = ExcludePaths filt"
proof -
  have "pathJoin [ns, volume] = ns @ slash # volume"
    using assms plainComp_segment by (subst pathJoin_plain) (auto simp: segment_def)
  moreover have "Trim (ns @ slash # volume) ''/'' = ns @ slash # volume"
    using plainComp_segment [OF assms(1)] plainComp_segment [OF assms(2)]
    by (intro Trim_id) (auto simp: plainComp_def dest: hd_in_set last_in_set)
  moreover have "Cut slash (ns @ slash # volume) = (ns, volume)"
    using plainComp_segment [OF assms(1)] by (intro Cut_append) (simp add: plainComp_def)
  ultimately have q: "archiveQuery (pathJoin [ns, volume]) filt [] = fold (valuesAdd ''exclude'') (ExcludePaths filt)
      (fold (valuesAdd ''include'') (IncludePaths filt) (AList.update ''volume'' [volume] (AList.update ''namespace'' [ns] [])))"
    by (simp add: archiveQuery_def)
  show "goget (archiveQuery (pathJoin [ns, volume]) filt []) ''namespace'' [] = [ns]"
    and "goget (archiveQuery (pathJoin [ns, volume]) filt []) ''volume'' [] = [volume]"
    and "goget (archiveQuery (pathJoin [ns, volume]) filt []) ''include'' [] = IncludePaths filt"
    and "goget (archiveQuery (pathJoin [ns, volume]) filt []) ''exclude'' [] = ExcludePaths filt"
    unfolding q goget_fold_valuesAdd by (simp_all add: goget_def)
qed

section \<open>Copying is complete\<close>

text \<open>Ranges that follow one another without a gap from \<open>a\<close> to \<open>b\<close>.\<close>

fun tiles :: "int \<Rightarrow> (int \<times> int) list \<Rightarrow> int \<Rightarrow> bool" where
  "tiles a [] b \<longleftrightarrow> a = b"
| "tiles a ((offset, len) # ranges) b \<longleftrightarrow> offset = a \<and> 0 < len \<and> tiles (a + len) ranges b"

lemma tiles_append: "tiles a (xs @ ys) c \<longleftrightarrow> (\<exists>b. tiles a xs b \<and> tiles b ys c)"
  by (induction xs arbitrary: a) auto

text \<open>
  What the loop needs of the two calls it is given: a write appends to what was written, and
  a release is added to the ranges released.
\<close>

locale copy_target =
  fixes emit :: "string \<Rightarrow> ('s, unit) io" and drop_cache :: "int \<Rightarrow> int \<Rightarrow> ('s, unit) io"
    and written :: "'s \<Rightarrow> string" and dropped :: "'s \<Rightarrow> (int \<times> int) list"
  assumes write_appends: "b \<noteq> [] \<Longrightarrow> emit b s = (Inr (), t) \<Longrightarrow> written t = written s @ b \<and> dropped t = dropped s"
    and drop_appends: "0 < len \<Longrightarrow> drop_cache offset len s = (Inr (), t) \<Longrightarrow> written t = written s \<and> dropped t = dropped s @ [(offset, len)]"
begin

lemma chunk_copied:
  assumes "copyChunk emit drop_cache chunk (offset, start) s = (Inr (offset', start'), t)" "start \<le> offset"
  shows "written t = written s @ chunk \<and> offset' = offset + int (length chunk) \<and> start' \<le> offset' \<and>
    (\<exists>ranges. dropped t = dropped s @ ranges \<and> tiles start ranges start')"
proof (cases "chunk = []")
  case True
  with assms show ?thesis by (auto simp: copyChunk_def intro: exI [of _ "[]"])
next
  case False
  obtain s1 where s1: "emit chunk s = (Inr (), s1)"
    and rest: "(if offset + int (length chunk) - start \<ge> archiveCacheDropInterval
      then io_bind (drop_cache start (offset + int (length chunk) - start)) (\<lambda>_. io_return (offset + int (length chunk), offset + int (length chunk)))
      else io_return (offset + int (length chunk), start)) s1 = (Inr (offset', start'), t)"
    using assms(1) False by (auto simp: copyChunk_def Let_def io_bind_Inr)
  note w = write_appends [OF False s1]
  show ?thesis
  proof (cases "offset + int (length chunk) - start \<ge> archiveCacheDropInterval")
    case True
    then have pos: "0 < offset + int (length chunk) - start" by (simp add: archiveCacheDropInterval_def)
    from rest True have d: "drop_cache start (offset + int (length chunk) - start) s1 = (Inr (), t)"
      "offset' = offset + int (length chunk)" "start' = offset + int (length chunk)"
      by (auto simp: io_bind_Inr)
    with w drop_appends [OF pos d(1)] pos show ?thesis by (intro conjI exI) auto
  next
    case False
    with rest w assms(2) show ?thesis by (auto intro: exI [of _ "[]"])
  qed
qed

lemma loop_copied:
  assumes "copyLoop emit drop_cache chunks lastChunk readErr (offset, start) s = (Inr (), t)" "start \<le> offset"
  shows "readErr = ErrEOF \<and> written t = written s @ concat chunks @ lastChunk \<and>
    (\<exists>ranges. dropped t = dropped s @ ranges \<and> tiles start ranges (offset + int (length (concat chunks @ lastChunk))))"
  using assms
proof (induction chunks arbitrary: offset start s)
  case Nil
  obtain offset' start' s1 where c: "copyChunk emit drop_cache lastChunk (offset, start) s = (Inr (offset', start'), s1)"
    and rest: "(if readErr = ErrEOF then (if offset' > start' then drop_cache start' (offset' - start') else io_return ()) else io_fail readErr) s1 = (Inr (), t)"
    using Nil.prems(1) by (auto simp: io_bind_Inr split: prod.splits)
  obtain ranges where k: "written s1 = written s @ lastChunk" "offset' = offset + int (length lastChunk)" "start' \<le> offset'"
    "dropped s1 = dropped s @ ranges" "tiles start ranges start'"
    using chunk_copied [OF c Nil.prems(2)] by blast
  show ?case
  proof (cases "offset' > start'")
    case True
    with rest have "readErr = ErrEOF" "drop_cache start' (offset' - start') s1 = (Inr (), t)" by (auto split: if_splits)
    with True k drop_appends [of "offset' - start'" start' s1 t] show ?thesis
      by (auto simp: tiles_append intro!: exI [of _ "ranges @ [(start', offset' - start')]"])
  next
    case False
    with rest k show ?thesis by (auto split: if_splits)
  qed
next
  case (Cons chunk chunks)
  obtain offset' start' s1 where c: "copyChunk emit drop_cache chunk (offset, start) s = (Inr (offset', start'), s1)"
    and rest: "copyLoop emit drop_cache chunks lastChunk readErr (offset', start') s1 = (Inr (), t)"
    using Cons.prems(1) by (auto simp: io_bind_Inr)
  obtain ranges where k: "written s1 = written s @ chunk" "offset' = offset + int (length chunk)" "start' \<le> offset'"
    "dropped s1 = dropped s @ ranges" "tiles start ranges start'"
    using chunk_copied [OF c Cons.prems(2)] by blast
  obtain ranges' where IH: "readErr = ErrEOF" "written t = written s1 @ concat chunks @ lastChunk"
    "dropped t = dropped s1 @ ranges'" "tiles start' ranges' (offset' + int (length (concat chunks @ lastChunk)))"
    using Cons.IH [OF rest k(3)] by blast
  show ?case using k IH by (auto simp: tiles_append ac_simps intro!: exI [of _ "ranges @ ranges'"])
qed

end


text \<open>
  The calls on handles, recorded: the bytes written and the ranges whose cache is released.
\<close>

datatype handle_event = HWrite nat string | HDrop nat int int

definition loggedFiles :: "'w file_api \<Rightarrow> ('w \<times> handle_event list) file_api" where
  "loggedFiles fa = \<lparr>
     faReads = (\<lambda>f. io_quiet (faReads fa f)),
     faCreate = (\<lambda>p m. io_quiet (faCreate fa p m)),
     faWrite = (\<lambda>f b. io_noisy (HWrite f b) (faWrite fa f b)),
     faSymlink = (\<lambda>t p. io_quiet (faSymlink fa t p)),
     faChtimes = (\<lambda>p t. io_quiet (faChtimes fa p t)),
     faFadvise = (\<lambda>f offset len. io_noisy (HDrop f offset len) (faFadvise fa f offset len)),
     faSyncFileRange = (\<lambda>f offset len. io_quiet (faSyncFileRange fa f offset len)),
     faFdatasync = (\<lambda>f. io_quiet (faFdatasync fa f))\<rparr>"

definition writtenTo :: "nat \<Rightarrow> handle_event list \<Rightarrow> string" where
  "writtenTo f es = concat (List.map_filter (\<lambda>e. case e of HWrite g b \<Rightarrow> if g = f then Some b else None | _ \<Rightarrow> None) es)"

definition releasedOf :: "nat \<Rightarrow> handle_event list \<Rightarrow> (int \<times> int) list" where
  "releasedOf f es = List.map_filter (\<lambda>e. case e of HDrop g offset len \<Rightarrow> if g = f then Some (offset, len) else None | _ \<Rightarrow> None) es"

lemma handle_logs [simp]:
  "writtenTo f [] = []" "releasedOf f [] = []"
  "writtenTo f (es @ [HWrite f b]) = writtenTo f es @ b" "releasedOf f (es @ [HWrite f b]) = releasedOf f es"
  "writtenTo f (es @ [HDrop f offset len]) = writtenTo f es" "releasedOf f (es @ [HDrop f offset len]) = releasedOf f es @ [(offset, len)]"
  by (simp_all add: writtenTo_def releasedOf_def map_filter_def)

lemma adviseFileRange_logged:
  "0 < len \<Longrightarrow> adviseFileRange (loggedFiles fa) f offset len (w, es) = (Inr (), (w', es')) \<Longrightarrow> es' = es @ [HDrop f offset len]"
  by (auto simp: adviseFileRange_def loggedFiles_def io_noisy_def io_defs split: prod.splits sum.splits if_splits)

lemma syncAndAdviseFileRange_logged:
  assumes "0 < len" "syncAndAdviseFileRange (loggedFiles fa) f offset len (w, es) = (Inr (), (w', es'))"
  shows "es' = es @ [HDrop f offset len]"
proof -
  let ?sync = "io_try (faSyncFileRange (loggedFiles fa) f offset len) (\<lambda>r. case r of
      Inl e \<Rightarrow> if e \<noteq> ErrEINVAL \<and> e \<noteq> ErrENOSYS then io_try (faFdatasync (loggedFiles fa) f) (\<lambda>s. case s of
          Inl syncErr \<Rightarrow> if syncErr \<noteq> ErrEINVAL then io_fail e else io_return () | Inr _ \<Rightarrow> io_return ())
        else io_return ()
    | Inr _ \<Rightarrow> io_return ())"
  have keep: "io_inv (logIs (\<lambda>l. l = es)) ?sync"
    by (auto simp: loggedFiles_def intro!: io_inv_intros split: sum.split)
  from assms obtain u v where u: "?sync (w, es) = (Inr v, u)" "adviseFileRange (loggedFiles fa) f offset len u = (Inr (), (w', es'))"
    by (auto simp: syncAndAdviseFileRange_def io_bind_Inr)
  have "snd u = es" using io_invD [OF keep _ u(1)] by (cases u) simp
  then show ?thesis using u(2) adviseFileRange_logged assms(1) by (cases u) auto
qed

interpretation extracted: copy_target "faWrite (loggedFiles fa) f" "syncAndAdviseFileRange (loggedFiles fa) f"
    "\<lambda>(w, es). writtenTo f es" "\<lambda>(w, es). releasedOf f es" for fa f
proof (unfold_locales, goal_cases)
  case (1 b s t)
  then show ?case by (auto simp: loggedFiles_def io_noisy_def split: prod.splits)
next
  case (2 len offset s t)
  then show ?case using syncAndAdviseFileRange_logged [of len fa f offset] by (cases s; cases t) fastforce
qed

lemma tarWrite_Inr:
  "tarWrite out b (tw, k) = (Inr (), (tw', k')) \<longleftrightarrow>
     (if b = [] then True else tw \<noteq> []) \<and> int (length b) \<le> (if tw = [] then 0 else thSize (fst (last tw)) - int (length (snd (last tw)))) \<and>
     tw' = (if tw = [] then tw else butlast tw @ [(fst (last tw), snd (last tw) @ b)]) \<and>
     (if b = [] then k' = k else out k = (Inr (), k'))"
  by (auto simp: tarWrite_def io_bind_Inr split: if_splits)

interpretation archived: copy_target "tarWrite (io_quiet out)" "\<lambda>offset len. io_outside (adviseFileRange (loggedFiles fa) f offset len)"
    "\<lambda>(tw, w, es). snd (last tw)" "\<lambda>(tw, w, es). releasedOf f es" for fa f out
proof (unfold_locales, goal_cases)
  case (1 b s t)
  then show ?case by (cases s; cases t) (auto simp: tarWrite_Inr io_quiet_def split: if_splits prod.splits)
next
  case (2 len offset s t)
  then show ?case using adviseFileRange_logged [of len fa f offset] by (cases s; cases t) fastforce
qed


text \<open>The bytes of an entry that is extracted, and the ranges released, make up all that was read.\<close>

lemma copyArchiveToFile_complete:
  assumes "copyArchiveToFile (loggedFiles fa) dst r (w, []) = (Inr (), (w', es))"
  shows "rdError r = ErrEOF \<and> writtenTo dst es = readBytes r \<and>
    tiles 0 (releasedOf dst es) (int (length (readBytes r)))"
  using extracted.loop_copied [OF assms [unfolded copyArchiveToFile_def]] by (auto simp: readBytes_def)

text \<open>
  C39. Copying into an archive loses nothing: if the copy of a file to the open entry of an
  archive succeeds, the file was read up to its end, the entry has grown by exactly the bytes
  read, in order, and the ranges dropped from the page cache follow one another without a gap
  or an overlap from the first byte to the last.
\<close>

theorem copyFileToArchive_complete:
  assumes "copyFileToArchive (loggedFiles fa) (io_quiet out) src (tw, (w, [])) = (Inr (), (tw', (w', es)))"
  shows "\<exists>r w1. faReads fa src w = (Inr r, w1) \<and> rdError r = ErrEOF \<and>
    snd (last tw') = snd (last tw) @ readBytes r \<and> tiles 0 (releasedOf src es) (int (length (readBytes r)))"
proof -
  obtain r w1 where r: "faReads fa src w = (Inr r, w1)"
    and loop: "copyLoop (tarWrite (io_quiet out)) (\<lambda>offset len. io_outside (adviseFileRange (loggedFiles fa) src offset len))
      (rdChunks r) (rdLast r) (rdError r) (0, 0) (tw, (w1, [])) = (Inr (), (tw', (w', es)))"
    using assms by (auto simp: copyFileToArchive_def loggedFiles_def io_quiet_def io_bind_Inr split: prod.splits)
  show ?thesis using r archived.loop_copied [OF loop] by (auto simp: readBytes_def)
qed

section \<open>An archive is extracted into its volume\<close>

definition tracedFiles :: "'w file_api \<Rightarrow> ('w \<times> os_event list) file_api" where
  "tracedFiles fa = \<lparr>
     faReads = (\<lambda>f. io_quiet (faReads fa f)),
     faCreate = (\<lambda>p m. io_noisy (OsCreate p) (faCreate fa p m)),
     faWrite = (\<lambda>f b. io_quiet (faWrite fa f b)),
     faSymlink = (\<lambda>t p. io_noisy (OsSymlink t p) (faSymlink fa t p)),
     faChtimes = (\<lambda>p t. io_noisy (OsAttr p) (faChtimes fa p t)),
     faFadvise = (\<lambda>f offset len. io_quiet (faFadvise fa f offset len)),
     faSyncFileRange = (\<lambda>f offset len. io_quiet (faSyncFileRange fa f offset len)),
     faFdatasync = (\<lambda>f. io_quiet (faFdatasync fa f))\<rparr>"

definition archiveEffect :: "string \<Rightarrow> os_event \<Rightarrow> bool" where
  "archiveEffect root e = (case e of
     OsMkdir p \<Rightarrow> inTree root p \<or> p = pathDir root
   | OsRemoveAll p \<Rightarrow> inTree root p
   | OsCreate p \<Rightarrow> inTree root p
   | OsSymlink t p \<Rightarrow> inTree root p
   | OsAttr p \<Rightarrow> inTree root p
   | _ \<Rightarrow> False)"

lemma archiveEffect_simps [simp]:
  "archiveEffect root (OsMkdir p) \<longleftrightarrow> inTree root p \<or> p = pathDir root"
  "archiveEffect root (OsRemoveAll p) \<longleftrightarrow> inTree root p"
  "archiveEffect root (OsCreate p) \<longleftrightarrow> inTree root p"
  "archiveEffect root (OsSymlink t p) \<longleftrightarrow> inTree root p"
  "archiveEffect root (OsAttr p) \<longleftrightarrow> inTree root p"
  by (simp_all add: archiveEffect_def)

abbreviation archiveLog :: "string \<Rightarrow> 'w \<times> os_event list \<Rightarrow> bool" where
  "archiveLog root \<equiv> logIs (list_all (archiveEffect root))"

lemma tracedFiles_sel:
  "faReads (tracedFiles fa) f = io_quiet (faReads fa f)"
  "faCreate (tracedFiles fa) p m = io_noisy (OsCreate p) (faCreate fa p m)"
  "faWrite (tracedFiles fa) f b = io_quiet (faWrite fa f b)"
  "faSymlink (tracedFiles fa) t p = io_noisy (OsSymlink t p) (faSymlink fa t p)"
  "faChtimes (tracedFiles fa) p c = io_noisy (OsAttr p) (faChtimes fa p c)"
  "faFadvise (tracedFiles fa) f offset len = io_quiet (faFadvise fa f offset len)"
  "faSyncFileRange (tracedFiles fa) f offset len = io_quiet (faSyncFileRange fa f offset len)"
  "faFdatasync (tracedFiles fa) f = io_quiet (faFdatasync fa f)"
  by (simp_all add: tracedFiles_def)

lemma copyChunk_inv:
  "(\<And>b. io_inv I (emit b)) \<Longrightarrow> (\<And>offset len. io_inv I (drop_cache offset len)) \<Longrightarrow> io_inv I (copyChunk emit drop_cache chunk st)"
  unfolding copyChunk_def Let_def by (auto intro!: io_inv_intros split: prod.split)

lemma copyLoop_inv:
  assumes "\<And>b. io_inv I (emit b)" "\<And>offset len. io_inv I (drop_cache offset len)"
  shows "io_inv I (copyLoop emit drop_cache chunks lastChunk readErr st)"
  by (induction chunks arbitrary: st) (auto intro!: io_inv_intros copyChunk_inv assms split: prod.split)

lemma copyArchiveToFile_quiet: "io_inv (logIs J) (copyArchiveToFile (tracedFiles fa) f r)"
  unfolding copyArchiveToFile_def
  by (rule copyLoop_inv) (auto simp: tracedFiles_sel syncAndAdviseFileRange_def adviseFileRange_def intro!: io_inv_intros split: sum.split)

lemma restorePathMetadata_log:
  "inTree root target \<Longrightarrow> io_inv (archiveLog root) (restorePathMetadata (tracedOs os) (tracedFiles fa) target header symlink)"
  unfolding restorePathMetadata_def tracedOs_sel tracedFiles_sel
  by (auto intro!: io_inv_intros split: sum.split)

lemma archive_parent:
  assumes "properRoot root" "inTree root target"
  shows "archiveEffect root (OsMkdir (pathDir target))"
  using assms pathDir_inTree by (cases "target = root") (auto simp: belowTree_def)

lemma extractEntry_log:
  assumes "properRoot root"
  shows "io_inv (archiveLog root) (extractEntry (tracedOs os) (tracedFiles fa) root entry)"
proof (cases entry)
  case (Pair header contents)
  show ?thesis
    unfolding extractEntry_def Pair prod.case Let_def tracedOs_sel tracedFiles_sel
  proof (rule io_inv_bind_lift, goal_cases)
    case (1 rel)
    note t = normal_target_inTree [OF 1 assms]
    show ?case
      using archive_parent [OF assms t]
      by (auto simp: t intro!: io_inv_intros copyArchiveToFile_quiet restorePathMetadata_log t split: tar_type.split sum.split)
  qed
qed

lemma ExtractTarArchive_log:
  assumes "properRoot root"
  shows "io_inv (archiveLog root) (ExtractTarArchive (tracedOs os) (tracedFiles fa) root stream)"
  using assms unfolding ExtractTarArchive_def properRoot_def Let_def
  by (auto intro!: io_inv_intros extractEntry_log assms split: prod.split)


lemma clearContents_log:
  assumes "properRoot root" "plainListings os" "list_all plainComp ws"
  shows "io_inv (archiveLog root) (clearContents n (tracedOs os) (treePath root ws))"
  using assms(3)
proof (induction n arbitrary: ws)
  case (Suc n)
  have entry: "io_inv (archiveLog root) (io_try (osLstat (tracedOs os) (pathJoin [treePath root ws, name])) (\<lambda>r. case r of
      Inl e \<Rightarrow> if IsNotExist e then io_return () else io_fail e
    | Inr info \<Rightarrow> if IsDir info \<and> \<not> IsSymlink info then clearContents n (tracedOs os) (pathJoin [treePath root ws, name])
        else osRemoveAll (tracedOs os) (pathJoin [treePath root ws, name])))" if "plainComp name" for name
  proof -
    have t: "list_all plainComp (ws @ [name])" using Suc.prems that by simp
    show ?thesis
      unfolding pathJoin_treePath [OF assms(1) Suc.prems that] tracedOs_sel
      using Suc.IH [OF t] inTreeI [OF t, of root] by (auto intro!: io_inv_intros split: sum.split)
  qed
  show ?case
    unfolding clearContents.simps Let_def
  proof (rule io_inv_bind_result [where R = "list_all (\<lambda>(n, d). plainComp n)"], goal_cases)
    case 1
    show ?case using assms(2) by (simp add: plainListings_def tracedOs_sel)
  next
    case 2
    show ?case by (simp add: tracedOs_sel io_inv_intros)
  next
    case (3 entries)
    then have "x \<in> set entries \<Longrightarrow> plainComp (fst x)" for x by (auto simp: list_all_iff)
    then show ?case using entry by (intro io_inv_foreach) auto
  qed
qed simp

lemma clearTree_log:
  assumes "properRoot root" "plainListings os" "inTree root p"
  shows "io_inv (archiveLog root) (clearDirectoryContentsPreservingDirs (tracedOs os) p)"
  using assms(3) clearContents_log [OF assms(1,2)] by (auto simp: inTree_def clearDirectoryContentsPreservingDirs_def)

lemma clearIncludes_log:
  assumes "properRoot root" "plainListings os"
  shows "io_inv (archiveLog root) (clearIncludes (tracedOs os) root seen incs)"
proof (induction incs arbitrary: seen)
  case (Cons inc incs)
  have step: "io_inv (archiveLog root) (io_try (osLstat (tracedOs os) p) (\<lambda>r. case r of
      Inl e \<Rightarrow> if IsNotExist e then io_return () else io_fail e
    | Inr info \<Rightarrow> if IsDir info \<and> \<not> IsSymlink info then clearDirectoryContentsPreservingDirs (tracedOs os) p
        else osRemoveAll (tracedOs os) p))" if "inTree root p" for p
    unfolding tracedOs_sel
    using that clearTree_log [OF assms that] by (auto intro!: io_inv_intros split: sum.split)
  have bind: "io_inv (archiveLog root) (io_bind (io_lift (NormalizeEventPath prefix)) (\<lambda>clean.
      if clean \<in> set seen then clearIncludes (tracedOs os) root seen incs
      else io_bind (io_try (osLstat (tracedOs os) (pathJoin [root, clean])) (\<lambda>r. case r of
          Inl e \<Rightarrow> if IsNotExist e then io_return () else io_fail e
        | Inr info \<Rightarrow> if IsDir info \<and> \<not> IsSymlink info then clearDirectoryContentsPreservingDirs (tracedOs os) (pathJoin [root, clean])
            else osRemoveAll (tracedOs os) (pathJoin [root, clean]))) (\<lambda>_. clearIncludes (tracedOs os) root (clean # seen) incs)))" for prefix
    by (rule io_inv_bind_lift) (simp add: Cons io_inv_bind step normal_target_inTree [OF _ assms(1)])
  show ?case unfolding clearIncludes.simps Let_def using bind Cons by simp
qed simp

lemma clearFullSyncTarget_log:
  assumes "properRoot root" "plainListings os"
  shows "io_inv (archiveLog root) (clearFullSyncTarget (tracedOs os) root filt)"
  unfolding clearFullSyncTarget_def using clearIncludes_log [OF assms] clearTree_log [OF assms] by simp

text \<open>
  A full sync by archive stays in its volume: whatever the archive of the source holds,
  every path that is cleared, created, linked, written to or given attributes on the target is,
  as a path, the volume's root or below it. The one other change is that the directory above
  the root is made, for an entry that names the root itself.
\<close>

theorem applyAgentArchiveFullSync_contained:
  assumes "ResolveVolumePath v = Inr root" "plainListings os"
    and "applyAgentArchiveFullSync (tracedOs os) (tracedFiles fa) urls (\<lambda>u a. io_quiet (get u a)) source token sourceVolume root filt (w, []) = (r, (w', es))"
  shows "list_all (archiveEffect root) es"
proof -
  note root = volume_root [OF assms(1)]
  have "io_inv (archiveLog root) (applyAgentArchiveFullSync (tracedOs os) (tracedFiles fa) urls (\<lambda>u a. io_quiet (get u a)) source token sourceVolume root filt)"
    unfolding applyAgentArchiveFullSync_def
    by (auto intro!: io_inv_intros clearFullSyncTarget_log ExtractTarArchive_log root assms(2) split: prod.split)
  from io_invD [OF this _ assms(3)] show ?thesis by simp
qed


section \<open>An archive holds what its filter selects\<close>

lemma regular_not_dir:
  assumes "IsRegular info"
  shows "\<not> IsDir info"
proof -
  have "ModeDir = and ModeType ModeDir" by (simp add: ModeType_def ModeDir_def)
  then have "and (fiMode info) ModeDir = and (and (fiMode info) ModeType) ModeDir" by (metis and.assoc)
  then show ?thesis using assms by (simp add: IsRegular_def IsDir_def)
qed

lemma headerType_dir: "headerType info = Inr t \<Longrightarrow> t = TypeDir \<longleftrightarrow> IsDir info"
  using regular_not_dir [of info] by (auto simp: headerType_def split: if_splits)

definition selected :: "PathFilter \<Rightarrow> tar_header \<Rightarrow> bool" where
  "selected filt h \<longleftrightarrow> (if thType h = TypeDir then ShouldTraverse filt (thName h) else ShouldReplicate filt (thName h))"

definition complete :: "tar_header \<times> string \<Rightarrow> bool" where
  "complete = (\<lambda>(h, content). length content = nat (thSize h))"

definition archiveOK :: "PathFilter \<Rightarrow> tar_writer \<Rightarrow> bool" where
  "archiveOK filt tw \<longleftrightarrow> list_all (selected filt \<circ> fst) tw \<and> list_all complete (butlast tw) \<and>
     (\<forall>(h, content) \<in> set tw. length content \<le> nat (thSize h))"

lemma archiveOK_snoc:
  "archiveOK filt (tw @ [(h, content)]) \<longleftrightarrow>
     selected filt h \<and> length content \<le> nat (thSize h) \<and> list_all (selected filt \<circ> fst) tw \<and> list_all complete tw"
  by (auto simp: archiveOK_def complete_def list_all_iff)

lemma WriteHeader_ok:
  assumes "selected filt h"
  shows "io_inv (\<lambda>(tw, k). archiveOK filt tw) (WriteHeader out h)"
proof (rule io_inv_triple, unfold WriteHeader_def, rule io_triple_bind
    [where R = "\<lambda>missing (tw, k). archiveOK filt tw \<and> (\<not> missing \<longrightarrow> archiveOK filt (tw @ [(h, '''')]))"], goal_cases)
  case 1
  have next_ok: "archiveOK filt tw \<Longrightarrow> \<not> (tw \<noteq> [] \<and> int (length (snd (last tw))) < thSize (fst (last tw))) \<Longrightarrow> archiveOK filt (tw @ [(h, '''')])" for tw
    unfolding archiveOK_snoc using assms by (cases tw rule: rev_cases) (auto simp: archiveOK_snoc complete_def)
  show ?case by (rule io_triple_get) (use next_ok in blast)
next
  case (2 missing)
  have "io_triple (\<lambda>(tw, k). archiveOK filt tw \<and> archiveOK filt (tw @ [(h, '''')])) (io_bind (io_outside out) (\<lambda>_. io_modify (\<lambda>tw. tw @ [(h, '''')])))
      (\<lambda>_ (tw, k). archiveOK filt tw) (\<lambda>(tw, k). archiveOK filt tw)"
    by (rule io_triple_bind [where R = "\<lambda>_ (tw, k). archiveOK filt (tw @ [(h, '''')])"],
        rule io_triple_conseq [OF io_triple_inv [OF io_inv_fst [where P = "\<lambda>tw. archiveOK filt tw \<and> archiveOK filt (tw @ [(h, '''')])"]]])
      (auto intro!: io_triple_modify)
  then show ?case by (cases missing) (auto intro!: io_triple_fail)
qed

lemma tarWrite_ok: "io_inv (\<lambda>(tw, k). archiveOK filt tw) (tarWrite out b)"
proof (rule io_inv_triple, unfold tarWrite_def, rule io_triple_bind
    [where R = "\<lambda>room (tw, k). archiveOK filt tw \<and> (tw \<noteq> [] \<longrightarrow> room = thSize (fst (last tw)) - int (length (snd (last tw))))"], goal_cases)
  case 1
  show ?case by (rule io_triple_get) simp
next
  case (2 room)
  let ?I = "\<lambda>tw. archiveOK filt tw \<and> (tw \<noteq> [] \<longrightarrow> room = thSize (fst (last tw)) - int (length (snd (last tw))))"
  have step: "?I tw \<Longrightarrow> archiveOK filt (if tw = [] then tw else butlast tw @ [(fst (last tw), snd (last tw) @ take (nat room) b)])" for tw
    by (cases tw rule: rev_cases) (auto simp: archiveOK_snoc)
  have out: "io_inv (\<lambda>(tw, k). ?I tw) (if take (nat room) b = [] then io_return () else io_outside out)"
    by (simp add: io_inv_fst)
  show ?case
  proof (rule io_triple_bind [OF io_triple_conseq [OF io_triple_inv [OF out]]], assumption, assumption, simp add: case_prod_beta, rule io_triple_bind)
    show "io_triple (\<lambda>(tw, k). ?I tw) (io_modify (\<lambda>tw. if tw = [] then tw else butlast tw @ [(fst (last tw), snd (last tw) @ take (nat room) b)]))
      (\<lambda>_ (tw, k). archiveOK filt tw) (\<lambda>(tw, k). archiveOK filt tw)"
      by (rule io_triple_modify) (use step in auto)
  qed (auto intro!: io_triple_if io_triple_fail io_triple_return)
qed

lemma copyFileToArchive_ok: "io_inv (\<lambda>(tw, k). archiveOK filt tw) (copyFileToArchive fa out src)"
  unfolding copyFileToArchive_def by (auto intro!: io_inv_intros copyLoop_inv tarWrite_ok io_inv_fst)

lemma writeArchiveEntry_ok:
  assumes "if IsDir info then ShouldTraverse filt archivePath else ShouldReplicate filt archivePath"
  shows "io_inv (\<lambda>(tw, k). archiveOK filt tw) (writeArchiveEntry os fa owner out p archivePath info)"
proof -
  have header: "selected filt (h\<lparr>thName := archivePath\<rparr>)" if "FileInfoHeader owner info link = Inr h" for link h
    using that assms headerType_dir by (auto simp: FileInfoHeader_def selected_def split: sum.splits if_splits)
  show ?thesis
    unfolding writeArchiveEntry_def
    by (auto intro!: io_inv_bind io_inv_bind_lift io_inv_try io_inv_lift WriteHeader_ok header copyFileToArchive_ok io_inv_fst
        split: sum.split)
qed

lemma archiveVisitor_ok: "io_inv (\<lambda>(tw, k). archiveOK filt tw) (archiveVisitor os fa owner out root filt p isDir err)"
  unfolding archiveVisitor_def
  by (auto intro!: io_inv_intros io_inv_fst writeArchiveEntry_ok split: option.split sum.split)

text \<open>
  C38. An archive is well formed and holds what its filter selects: whatever the file system
  does while it is written, every directory in it is one the filter traverses and every other
  entry one the filter replicates, no entry has more bytes than its header says, and every
  entry but the last has exactly that many.
\<close>

theorem WriteTarArchive_selected:
  assumes "WriteTarArchive os fa owner out root filt ([], w) = (r, (tw, w'))"
  shows "archiveOK filt tw"
proof -
  have "io_inv (\<lambda>(tw, k). archiveOK filt tw) (WriteTarArchive os fa owner out root filt)"
    unfolding WriteTarArchive_def Let_def by (rule WalkDir_inv) (simp_all add: io_inv_fst archiveVisitor_ok)
  from io_invD [OF this _ assms] show ?thesis by (simp add: archiveOK_def)
qed

section \<open>Witnesses\<close>

definition demoFiles :: "mworld file_api" where
  "demoFiles = \<lparr>
     faReads = (\<lambda>_. io_return \<lparr>rdChunks = [''ab''], rdLast = ''c'', rdError = ErrEOF\<rparr>),
     faCreate = (\<lambda>_ _. io_return 4), faWrite = (\<lambda>_ _. io_return ()), faSymlink = (\<lambda>_ _. io_return ()),
     faChtimes = (\<lambda>_ _. io_return ()), faFadvise = (\<lambda>_ _ _. io_return ()),
     faSyncFileRange = (\<lambda>_ _ _. io_fail ErrENOSYS), faFdatasync = (\<lambda>_. io_return ())\<rparr>"

definition demoReads :: reads where
  "demoReads = \<lparr>rdChunks = [''ab''], rdLast = ''c'', rdError = ErrEOF\<rparr>"

definition demoHeader :: tar_header where
  "demoHeader = \<lparr>thName = ''../../etc/passwd'', thType = TypeReg, thMode = 420, thLinkname = '''', thUid = 0, thGid = 0,
     thModTime = 0, thSize = 3\<rparr>"

lemma demo_copy:
  "copyFileToArchive (loggedFiles demoFiles) (io_quiet (io_return ())) 4 ([(demoHeader, '''')], (memWorld [], [])) =
     (Inr (), ([(demoHeader, ''abc'')], (memWorld [], [HDrop 4 0 3])))"
  by (simp add: copyFileToArchive_def copyChunk_def demoFiles_def loggedFiles_def adviseFileRange_def archiveCacheDropInterval_def
      tarWrite_def demoHeader_def io_get_def io_modify_def io_outside_def io_quiet_def io_noisy_def io_bind_def io_try_def io_return_def)

theorem copyFileToArchive_complete_witness:
  "\<exists>r w1. faReads demoFiles 4 (memWorld []) = (Inr r, w1) \<and> ''abc'' = readBytes r \<and> tiles 0 (releasedOf 4 [HDrop 4 0 3]) 3"
  using copyFileToArchive_complete [OF demo_copy] by (metis append_Nil last_ConsL snd_conv length_Cons list.size(3) of_nat_numeral numeral_3_eq_3)

definition demoArchive :: "(tar_header \<times> reads) list \<times> go_error" where
  "demoArchive = ([(demoHeader, demoReads)], ErrEOF)"

definition demoUrls :: url_api where
  "demoUrls = \<lparr>urlParse = (\<lambda>s. Inr \<lparr>uScheme = ''http'', uUser = '''', uHost = ''h'', uPath = s, uRawQuery = '''', uFragment = ''''\<rparr>),
     urlString = uPath, urlHostname = uHost\<rparr>"

theorem applyAgentArchiveFullSync_contained_witness:
  "list_all (archiveEffect demoRoot) (snd (snd (applyAgentArchiveFullSync (tracedOs (envOs (demoEnv 200))) (tracedFiles demoFiles)
     demoUrls (\<lambda>u a. io_quiet (io_return (200, '''', '''', demoArchive))) demoSource ''t'' ''games/etc'' demoRoot noFilter (memWorld [], []))))"
  by (rule applyAgentArchiveFullSync_contained [OF demoVolume_root plainListings_demo io_run_eta])

theorem WriteTarArchive_selected_witness:
  "archiveOK noFilter (fst (snd (WriteTarArchive memOs demoFiles (\<lambda>_. (0, 0)) (io_return ()) demoRoot noFilter ([], demoWorld))))"
  by (rule WriteTarArchive_selected [OF io_run_eta])

end
