(* ===== verification/Csi.thy ===== *)
theory Csi
  imports Ownership ApiTypes
begin

text \<open>
  The CSI server, \<^verbatim>\<open>internal/csi/server.go\<close> and \<^verbatim>\<open>node.go\<close>: the identity, controller and node
  services, and the publisher that bind-mounts a volume directory into a pod. An answer is a
  response or a gRPC status, which keeps the error it was made from. The gRPC server and the
  socket it listens on are parameters of \<open>RunServer\<close>.
\<close>

section \<open>Answers and configuration\<close>

datatype grpc_code = InvalidArgument | FailedPrecondition | Internal | PermissionDenied

type_synonym ('w, 'a) rpc = "'w \<Rightarrow> ((grpc_code \<times> go_error) + 'a) \<times> 'w"

definition rpc_return :: "'a \<Rightarrow> ('w, 'a) rpc" where
  "rpc_return x = (\<lambda>w. (Inr x, w))"

definition rpc_status :: "grpc_code \<Rightarrow> go_error \<Rightarrow> ('w, 'a) rpc" where
  "rpc_status code e = (\<lambda>w. (Inl (code, e), w))"

text \<open>A call whose error becomes a status of the given code.\<close>

definition rpc_bind :: "(go_error \<Rightarrow> grpc_code) \<Rightarrow> ('w, 'a) io \<Rightarrow> ('a \<Rightarrow> ('w, 'b) rpc) \<Rightarrow> ('w, 'b) rpc" where
  "rpc_bind code m f = (\<lambda>w. case m w of (Inl e, w') \<Rightarrow> (Inl (code e, e), w') | (Inr x, w') \<Rightarrow> f x w')"

definition volumeContextStoragePool :: string where "volumeContextStoragePool = ''storagePool''"
definition volumeContextPVCNamespace :: string where "volumeContextPVCNamespace = ''simple-volume.shipstuff.io/pvc-namespace''"
definition volumeContextPVCName :: string where "volumeContextPVCName = ''simple-volume.shipstuff.io/pvc-name''"
definition provisionerPVCNamespace :: string where "provisionerPVCNamespace = ''csi.storage.k8s.io/pvc/namespace''"
definition provisionerPVCName :: string where "provisionerPVCName = ''csi.storage.k8s.io/pvc/name''"

record ServerConfig =
  scEndpoint :: string
  scNodeName :: string
  scPoolName :: string
  scPoolPath :: string
  scValidatePool :: bool
  scAllowNonEmptyPool :: bool

record Server =
  svNodeName :: string
  svPoolName :: string
  svPoolPath :: string

definition defaultString :: "string \<Rightarrow> string \<Rightarrow> string" where
  "defaultString s fallback = (if s \<noteq> '''' then s else fallback)"

definition parseEndpoint :: "string \<Rightarrow> go_error + string \<times> string" where
  "parseEndpoint endpoint =
     (if endpoint = '''' then Inl (Errorf ''endpoint is required'')
      else if HasPrefix endpoint ''unix://'' then Inr (''unix'', TrimPrefix endpoint ''unix://'')
      else if HasPrefix endpoint ''tcp://'' then Inr (''tcp'', TrimPrefix endpoint ''tcp://'')
      else Inl (Errorf (''unsupported endpoint '' @ endpoint)))"

text \<open>
  \<^verbatim>\<open>RunServer\<close> up to \<^verbatim>\<open>net.Listen\<close>: the server it will register, and the socket to listen on.
\<close>

definition newServer :: "ServerConfig \<Rightarrow> Server" where
  "newServer cfg = \<lparr>svNodeName = scNodeName cfg, svPoolName = defaultString (scPoolName cfg) ''default'',
     svPoolPath = defaultString (scPoolPath cfg) ''/var/lib/simple-volume''\<rparr>"

definition prepareServer :: "'w os_api \<Rightarrow> ServerConfig \<Rightarrow> ('w, Server \<times> string \<times> string) io" where
  "prepareServer os cfg =
     io_bind (if scValidatePool cfg
         then EnsurePool os \<lparr>poolName = defaultString (scPoolName cfg) ''default'',
             poolPath = defaultString (scPoolPath cfg) ''/var/lib/simple-volume''\<rparr> (scAllowNonEmptyPool cfg)
         else io_return ()) (\<lambda>_.
     io_bind (io_lift (parseEndpoint (scEndpoint cfg))) (\<lambda>(network, address).
     io_bind (if network = ''unix''
         then io_try (osRemove os address) (\<lambda>_. osMkdirAll os (pathDir address) 0x1ED)
         else io_return ()) (\<lambda>_.
     io_return (newServer cfg, network, address))))"

text \<open>
  \<^verbatim>\<open>RunServer\<close>: \<open>listen\<close> opens the socket and \<open>serve\<close> answers requests on it until the server
  stops, which closes it.
\<close>

definition RunServer ::
    "'w os_api \<Rightarrow> (string \<Rightarrow> string \<Rightarrow> ('w, 'l) io) \<Rightarrow> (Server \<Rightarrow> 'l \<Rightarrow> ('w, unit) io) \<Rightarrow> ServerConfig \<Rightarrow> ('w, unit) io" where
  "RunServer os listen serve cfg =
     io_bind (prepareServer os cfg) (\<lambda>(server, network, address).
     io_bind (listen network address) (serve server))"

section \<open>Identity and controller services\<close>

datatype csiCapability = CONTROLLER_SERVICE | CREATE_DELETE_VOLUME | STAGE_UNSTAGE_VOLUME | VOLUME_MOUNT_GROUP

definition GetPluginInfo :: "string \<times> string" where
  "GetPluginInfo = (DriverName, DriverVersion)"

definition Probe :: bool where
  "Probe = True"

definition GetPluginCapabilities :: "csiCapability list" where
  "GetPluginCapabilities = [CONTROLLER_SERVICE]"

definition ControllerGetCapabilities :: "csiCapability list" where
  "ControllerGetCapabilities = [CREATE_DELETE_VOLUME]"

definition NodeGetCapabilities :: "csiCapability list" where
  "NodeGetCapabilities = [STAGE_UNSTAGE_VOLUME, VOLUME_MOUNT_GROUP]"

record CsiCreateRequest =
  ccName :: string
  ccRequiredBytes :: "int option"
  ccParameters :: "(string, string) gomap"

record CsiVolume =
  cvolID :: string
  cvolCapacityBytes :: int
  cvolContext :: "(string, string) gomap"

definition serverCreateVolume :: "Server \<Rightarrow> CsiCreateRequest \<Rightarrow> (grpc_code \<times> go_error) + CsiVolume" where
  "serverCreateVolume s req =
     (if ccName req = '''' then Inl (InvalidArgument, Errorf ''name is required'')
      else
        let capacity = (case ccRequiredBytes req of None \<Rightarrow> 0 | Some b \<Rightarrow> b);
            pvcNamespace = TrimSpace (gostr (ccParameters req) provisionerPVCNamespace);
            pvcName = TrimSpace (gostr (ccParameters req) provisionerPVCName) in
        if pvcNamespace = '''' \<or> pvcName = ''''
        then Inl (FailedPrecondition, Errorf ''PVC metadata is required; configure external-provisioner with --extra-create-metadata'')
        else Inr \<lparr>cvolID = ccName req, cvolCapacityBytes = capacity, cvolContext =
          [(volumeContextStoragePool, svPoolName s), (volumeContextPVCName, pvcName), (volumeContextPVCNamespace, pvcNamespace)]\<rparr>)"

text \<open>\<^verbatim>\<open>DeleteVolume\<close>, \<^verbatim>\<open>ValidateVolumeCapabilities\<close>, \<^verbatim>\<open>NodeStageVolume\<close> and \<^verbatim>\<open>NodeUnstageVolume\<close> answer without doing anything.\<close>

definition DeleteVolume :: "('w, unit) rpc" where "DeleteVolume = rpc_return ()"
definition ValidateVolumeCapabilities :: "('w, unit) rpc" where "ValidateVolumeCapabilities = rpc_return ()"
definition NodeStageVolume :: "('w, unit) rpc" where "NodeStageVolume = rpc_return ()"
definition NodeUnstageVolume :: "('w, unit) rpc" where "NodeUnstageVolume = rpc_return ()"

definition NodeGetInfo :: "Server \<Rightarrow> (grpc_code \<times> go_error) + string" where
  "NodeGetInfo s = (if svNodeName s = '''' then Inl (FailedPrecondition, Errorf ''node name is required'') else Inr (svNodeName s))"

section \<open>Publishing a volume\<close>

type_synonym StaticAuthorizer = "(string, (string, string) gomap) gomap"

definition Allowed :: "StaticAuthorizer \<Rightarrow> string \<Rightarrow> string \<Rightarrow> string option" where
  "Allowed s volumeHandle nodeName = (case map_of s volumeHandle of None \<Rightarrow> None | Some nodes \<Rightarrow> map_of nodes nodeName)"

text \<open>The optional functions of the publisher are options.\<close>

record 'w NodePublisher =
  npNodeName :: string
  npAuthorize :: "string \<Rightarrow> string \<Rightarrow> string option"
  npBindMount :: "(string \<Rightarrow> string \<Rightarrow> ('w, unit) io) option"
  npMakeTarget :: "(string \<Rightarrow> ('w, unit) io) option"

record PublishRequest =
  pbVolumeHandle :: string
  pbTargetPath :: string
  pbReadOnly :: bool

definition Publish :: "'w os_api \<Rightarrow> 'w NodePublisher \<Rightarrow> PublishRequest \<Rightarrow> ('w, unit) io" where
  "Publish os p req =
     (if pbVolumeHandle req = '''' then io_fail (Errorf ''volume handle is required'')
      else
        let target = Clean (pbTargetPath req) in
        if target = ''.'' \<or> target = ''/'' \<or> target = '''' then io_fail ErrInvalidMountPath
        else case npAuthorize p (pbVolumeHandle req) (npNodeName p) of
          None \<Rightarrow> io_fail ErrNodeNotAuthorized
        | Some source \<Rightarrow>
            io_bind (case npMakeTarget p of Some mk \<Rightarrow> mk target | None \<Rightarrow> osMkdirAll os target 0x1ED) (\<lambda>_.
            case npBindMount p of None \<Rightarrow> io_return () | Some bind \<Rightarrow> bind source target))"

definition bindMount :: "'w os_api \<Rightarrow> string \<Rightarrow> string \<Rightarrow> ('w, unit) io" where
  "bindMount os source target =
     io_bind (osMkdirAll os source 0x1ED) (\<lambda>_.
     io_bind (osMkdirAll os target 0x1ED) (\<lambda>_.
     osMount os source target))"

text \<open>
  \<^verbatim>\<open>DirEntry.Info\<close> is an \<^verbatim>\<open>lstat\<close> of the entry; for the root of the walk Go reuses the one the walk
  began with, which the model repeats.
\<close>

definition mountGroupVisitor :: "'w os_api \<Rightarrow> int \<Rightarrow> 'w visitor" where
  "mountGroupVisitor os gid p isDir err = (case err of
     Some e \<Rightarrow> io_fail e
   | None \<Rightarrow>
       io_bind (osLstat os p) (\<lambda>info.
       if IsSymlink info then io_return ()
       else io_bind (osChown os p (- 1) gid) (\<lambda>_.
         if IsDir info then osChmod os p (or (Perm (fiMode info)) 0x1F8)
         else osChmod os p (or (Perm (fiMode info)) 0x1B0))))"

definition applyVolumeMountGroup :: "'w os_api \<Rightarrow> string \<Rightarrow> string \<Rightarrow> ('w, unit) io" where
  "applyVolumeMountGroup os path grp = (case ParseInt64 grp of
     None \<Rightarrow> io_fail (Errorf (''invalid volume mount group '' @ grp))
   | Some gid \<Rightarrow> WalkDir os path (mountGroupVisitor os gid))"

definition volumePath :: "'w os_api \<Rightarrow> Server \<Rightarrow> string \<Rightarrow> (string, string) gomap \<Rightarrow> ('w, string) io" where
  "volumePath os s volumeID volumeContext =
     (let namespace = TrimSpace (gostr volumeContext volumeContextPVCNamespace) in
      if namespace = '''' then io_fail (Errorf (''PVC namespace volume context is required for volume '' @ volumeID))
      else EnsureVolumePath os (volumeAt \<lparr>poolName = svPoolName s, poolPath = svPoolPath s\<rparr> namespace volumeID) 0x1ED)"

record NodePublishRequest =
  nqVolumeId :: string
  nqTargetPath :: string
  nqVolumeContext :: "(string, string) gomap"
  nqMountGroup :: string
  nqReadonly :: bool

definition serverPublisher :: "'w os_api \<Rightarrow> Server \<Rightarrow> string \<Rightarrow> string \<Rightarrow> 'w NodePublisher" where
  "serverPublisher os s volumeID source = \<lparr>npNodeName = svNodeName s,
     npAuthorize = Allowed [(volumeID, [(svNodeName s, source)])], npBindMount = Some (bindMount os), npMakeTarget = None\<rparr>"

definition publishCode :: "go_error \<Rightarrow> grpc_code" where
  "publishCode e = (if e = ErrNodeNotAuthorized then PermissionDenied else Internal)"

definition NodePublishVolume :: "'w os_api \<Rightarrow> Server \<Rightarrow> NodePublishRequest \<Rightarrow> ('w, unit) rpc" where
  "NodePublishVolume os s req =
     (if nqVolumeId req = '''' then rpc_status InvalidArgument (Errorf ''volume id is required'')
      else if nqTargetPath req = '''' then rpc_status InvalidArgument (Errorf ''target path is required'')
      else
        rpc_bind (\<lambda>_. Internal) (volumePath os s (nqVolumeId req) (nqVolumeContext req)) (\<lambda>source.
        rpc_bind (\<lambda>_. Internal) (if nqMountGroup req \<noteq> '''' then applyVolumeMountGroup os source (nqMountGroup req) else io_return ()) (\<lambda>_.
        rpc_bind publishCode (Publish os (serverPublisher os s (nqVolumeId req) source)
          \<lparr>pbVolumeHandle = nqVolumeId req, pbTargetPath = nqTargetPath req, pbReadOnly = nqReadonly req\<rparr>) (\<lambda>_.
        rpc_return ()))))"

definition NodeUnpublishVolume :: "'w os_api \<Rightarrow> string \<Rightarrow> ('w, unit) rpc" where
  "NodeUnpublishVolume os target =
     (if target = '''' then rpc_status InvalidArgument (Errorf ''target path is required'')
      else (\<lambda>w. case osUnmount os target w of
        (Inl e, w') \<Rightarrow> if IsNotExist e then (Inr (), w') else (Inl (Internal, e), w')
      | (Inr _, w') \<Rightarrow> (Inr (), w')))"

section \<open>What publishing does to the node\<close>

text \<open>The effects before the mount: the two directories, and attributes inside the volume.\<close>

definition publishEffect :: "string \<Rightarrow> string \<Rightarrow> os_event \<Rightarrow> bool" where
  "publishEffect source target e \<longleftrightarrow> e = OsMkdir source \<or> e = OsMkdir target \<or> (\<exists>p. e = OsAttr p \<and> inTree source p)"

abbreviation serverVolume :: "Server \<Rightarrow> NodePublishRequest \<Rightarrow> VolumePath" where
  "serverVolume s req \<equiv> volumeAt \<lparr>poolName = svPoolName s, poolPath = svPoolPath s\<rparr>
     (TrimSpace (gostr (nqVolumeContext req) volumeContextPVCNamespace)) (nqVolumeId req)"

lemma volumePath_run:
  assumes "volumePath (tracedOs os) s (nqVolumeId req) (nqVolumeContext req) (w, []) = (r, (w', es))"
  shows "es = [] \<and> (\<exists>e. r = Inl e) \<or>
    (\<exists>source. ResolveVolumePath (serverVolume s req) = Inr source \<and> es = [OsMkdir source] \<and> (\<forall>x. r = Inr x \<longrightarrow> x = source))"
proof (cases "ResolveVolumePath (serverVolume s req)")
  case (Inl e)
  then show ?thesis
    using assms by (auto simp: volumePath_def EnsureVolumePath_def Let_def io_defs dest: sym split: if_splits)
next
  case (Inr source)
  then show ?thesis
    using assms
    by (auto simp: volumePath_def EnsureVolumePath_def Let_def tracedOs_sel io_noisy_def io_defs split: if_splits prod.splits sum.splits)
qed

lemma mountGroup_log:
  assumes "properRoot source" "plainListings os"
  shows "io_inv (logIs (list_all (publishEffect source target))) (applyVolumeMountGroup (tracedOs os) source grp)"
proof -
  have "io_inv (logIs (list_all (publishEffect source target))) (mountGroupVisitor (tracedOs os) gid p d e)"
    if "inTree source p" for gid p d e
    unfolding mountGroupVisitor_def tracedOs_sel
    using that by (auto intro!: io_inv_intros simp: publishEffect_def split: option.split)
  then show ?thesis
    unfolding applyVolumeMountGroup_def
    by (auto intro!: io_inv_intros WalkDir_log [OF assms(1) _ assms(2)] split: option.split)
qed

text \<open>The authorizer that the server builds for a request always admits the request's own node.\<close>

lemma server_authorizes_itself: "npAuthorize (serverPublisher os s volumeID source) volumeID (npNodeName (serverPublisher os s volumeID source)) = Some source"
  by (simp add: serverPublisher_def Allowed_def)

lemma Publish_run:
  assumes "Publish (tracedOs os) (serverPublisher (tracedOs os) s volumeID source)
      \<lparr>pbVolumeHandle = volumeID, pbTargetPath = target, pbReadOnly = ro\<rparr> (w, es) = (r, (w', es'))"
    and "list_all (publishEffect source (Clean target)) es"
  shows "\<exists>pre. list_all (publishEffect source (Clean target)) pre \<and>
    (es' = pre \<and> (\<exists>e. r = Inl e) \<or> es' = pre @ [OsMount source (Clean target)] \<and> Clean target \<noteq> ''.'' \<and> Clean target \<noteq> ''/'')"
  using assms(1)
proof (cases "Clean target = ''.'' \<or> Clean target = ''/'' \<or> Clean target = '''' \<or> volumeID = ''''")
  case True
  then show ?thesis using assms by (auto simp: Publish_def Let_def io_fail_def split: if_splits)
next
  case False
  have auth: "Allowed [(volumeID, [(svNodeName s, source)])] volumeID (svNodeName s) = Some source" by (simp add: Allowed_def)
  have "(es' = es @ [OsMkdir (Clean target)] \<or> es' = es @ [OsMkdir (Clean target), OsMkdir source] \<or>
      es' = es @ [OsMkdir (Clean target), OsMkdir source, OsMkdir (Clean target)]) \<and> (\<exists>e. r = Inl e) \<or>
      es' = es @ [OsMkdir (Clean target), OsMkdir source, OsMkdir (Clean target), OsMount source (Clean target)]"
    using assms(1) False
    by (auto simp: Publish_def serverPublisher_def auth bindMount_def Let_def tracedOs_sel io_noisy_def io_defs split: prod.splits sum.splits)
  then show ?thesis
    using assms(2) False
    by (elim disjE conjE) (auto simp: publishEffect_def intro: exI [of _ "es @ [OsMkdir (Clean target)]"]
        exI [of _ "es @ [OsMkdir (Clean target), OsMkdir source]"] exI [of _ "es @ [OsMkdir (Clean target), OsMkdir source, OsMkdir (Clean target)]"])
qed

text \<open>
  C14. Publishing a volume makes at most one mount, as its last effect: the directory that the
  request's namespace and volume resolve to inside the pool, on the cleaned target path, which
  is never the root directory. Before it only the two directories are made and attributes
  are changed inside the volume; a successful answer means that the mount was made.
\<close>

theorem NodePublishVolume_mounts:
  assumes "plainListings os" "NodePublishVolume (tracedOs os) s req (w, []) = (r, (w', es))"
  shows "es = [] \<and> (\<exists>st. r = Inl st) \<or>
    (\<exists>source pre. ResolveVolumePath (serverVolume s req) = Inr source \<and>
       list_all (publishEffect source (Clean (nqTargetPath req))) pre \<and>
       (es = pre \<and> (\<exists>st. r = Inl st) \<or>
        es = pre @ [OsMount source (Clean (nqTargetPath req))] \<and> Clean (nqTargetPath req) \<noteq> ''.'' \<and> Clean (nqTargetPath req) \<noteq> ''/''))"
proof (cases "nqVolumeId req = '''' \<or> nqTargetPath req = ''''")
  case True
  then show ?thesis using assms(2) by (auto simp: NodePublishVolume_def rpc_status_def split: if_splits)
next
  case False
  note run = assms(2) [unfolded NodePublishVolume_def if_not_P [OF conjunct1 [OF False [unfolded de_Morgan_disj]]]
      if_not_P [OF conjunct2 [OF False [unfolded de_Morgan_disj]]]]
  let ?tgt = "Clean (nqTargetPath req)"
  obtain r1 w1 es1 where vol: "volumePath (tracedOs os) s (nqVolumeId req) (nqVolumeContext req) (w, []) = (r1, (w1, es1))" by (metis prod.exhaust)
  show ?thesis
  proof (cases r1)
    case (Inl e)
    then show ?thesis
      using volumePath_run [OF vol] vol run by (auto simp: rpc_bind_def publishEffect_def)
  next
    case (Inr source)
    then have source: "ResolveVolumePath (serverVolume s req) = Inr source" "es1 = [OsMkdir source]"
      using volumePath_run [OF vol] by auto
    let ?group = "if nqMountGroup req \<noteq> '''' then applyVolumeMountGroup (tracedOs os) source (nqMountGroup req) else io_return ()"
    obtain r2 w2 es2 where grp: "?group (w1, es1) = (r2, (w2, es2))" by (metis prod.exhaust)
    have "io_inv (logIs (list_all (publishEffect source ?tgt))) ?group"
      using mountGroup_log [OF volume_root [OF source(1)] assms(1)] by auto
    from io_invD [OF this _ grp] have es2: "list_all (publishEffect source ?tgt) es2"
      by (simp add: source(2) publishEffect_def)
    show ?thesis
    proof (cases r2)
      case (Inl e)
      then show ?thesis using vol \<open>r1 = Inr source\<close> grp es2 source(1) run by (auto simp: rpc_bind_def)
    next
      case [simp]: (Inr u)
      obtain r3 w3 es3 where pub: "Publish (tracedOs os) (serverPublisher (tracedOs os) s (nqVolumeId req) source)
          \<lparr>pbVolumeHandle = nqVolumeId req, pbTargetPath = nqTargetPath req, pbReadOnly = nqReadonly req\<rparr> (w2, es2) = (r3, (w3, es3))"
        by (metis prod.exhaust)
      have "es = es3" "(\<exists>e. r3 = Inl e) \<Longrightarrow> (\<exists>st. r = Inl st)"
        using vol \<open>r1 = Inr source\<close> grp pub run by (auto simp: rpc_bind_def rpc_return_def split: sum.splits)
      then show ?thesis using Publish_run [OF pub es2] source(1) by blast
    qed
  qed
qed


lemma plainListings_memOs: "plainListings memOs"
  by (auto simp: plainListings_def memOs_def mReadDir_def io_result_def list_all_iff mPlain_def plainComp_def)

definition demoPublish :: NodePublishRequest where
  "demoPublish = \<lparr>nqVolumeId = ''pvc-1'', nqTargetPath = ''/pods/a/mount'',
     nqVolumeContext = [(volumeContextPVCNamespace, ''games''), (volumeContextPVCName, ''save'')], nqMountGroup = '''', nqReadonly = False\<rparr>"

definition demoServer :: Server where
  "demoServer = \<lparr>svNodeName = ''n1'', svPoolName = ''default'', svPoolPath = ''/pool''\<rparr>"

theorem NodePublishVolume_mounts_witness:
  "\<exists>r w' es. NodePublishVolume (tracedOs memOs) demoServer demoPublish (memWorld [], []) = (r, (w', es)) \<and>
     (es = [] \<and> (\<exists>st. r = Inl st) \<or> (\<exists>source. ResolveVolumePath (serverVolume demoServer demoPublish) = Inr source))"
  using NodePublishVolume_mounts [OF plainListings_memOs io_run_eta, of demoServer demoPublish "memWorld []"]
    io_run_eta [of "NodePublishVolume (tracedOs memOs) demoServer demoPublish (memWorld [], [])"] by blast

end
