(* ===== verification/Handlers.thy ===== *)
theory Handlers
  imports Locker Archive WatchManager Controller Csi
begin

text \<open>
  The HTTP interface: the handlers of an agent in \<^verbatim>\<open>internal/agent/replication.go\<close> and
  \<^verbatim>\<open>internal/agent/watch_manager.go\<close>, the routes that \<^verbatim>\<open>cmd/simple-volume/main.go\<close> gives them, the
  controller's routes, and the configurations of the commands. A request is a record of what the
  handlers read of it; the JSON decoders are parameters. A response is its status with the body,
  or with the error whose text is the body.
\<close>

section \<open>Requests and responses\<close>

text \<open>\<open>rqPath\<close> is the cleaned path; the standard multiplexer redirects every other spelling to it.\<close>

record http_request =
  rqMethod :: string
  rqPath :: string
  rqAuthorization :: string
  rqRemoteUser :: string
  rqRawQuery :: string
  rqBody :: string

definition queryAll :: "http_request \<Rightarrow> string \<Rightarrow> string list" where
  "queryAll r key = goget (ParseQuery (rqRawQuery r)) key []"

definition queryGet :: "http_request \<Rightarrow> string \<Rightarrow> string" where
  "queryGet r key = (case queryAll r key of [] \<Rightarrow> '''' | v # _ \<Rightarrow> v)"

datatype 'b response = HttpError int go_error | HttpReply int 'b

type_synonym ('w, 'b) handled = "'w \<Rightarrow> 'b response \<times> 'w"

definition http_error :: "int \<Rightarrow> go_error \<Rightarrow> ('w, 'b) handled" where
  "http_error code e = (\<lambda>w. (HttpError code e, w))"

definition http_reply :: "int \<Rightarrow> 'b \<Rightarrow> ('w, 'b) handled" where
  "http_reply code b = (\<lambda>w. (HttpReply code b, w))"

text \<open>A call whose error is answered with a status.\<close>

definition http_call :: "(go_error \<Rightarrow> int) \<Rightarrow> ('w, 'a) io \<Rightarrow> ('a \<Rightarrow> ('w, 'b) handled) \<Rightarrow> ('w, 'b) handled" where
  "http_call code m f = (\<lambda>w. case m w of (Inl e, w') \<Rightarrow> (HttpError (code e) e, w') | (Inr x, w') \<Rightarrow> f x w')"

text \<open>The two checks that open the handlers of an agent.\<close>

definition requireMethod :: "string \<Rightarrow> http_request \<Rightarrow> ('w, 'b) handled \<Rightarrow> ('w, 'b) handled" where
  "requireMethod method r h = (if rqMethod r \<noteq> method then http_error 405 (Errorf ''method not allowed'') else h)"

definition requireToken :: "string \<Rightarrow> http_request \<Rightarrow> ('w, 'b) handled \<Rightarrow> ('w, 'b) handled" where
  "requireToken token r h = (if \<not> Authorize token (rqAuthorization r) then http_error 401 (Errorf ''unauthorized'') else h)"

definition decodeBody :: "(string \<Rightarrow> go_error + 'q) \<Rightarrow> http_request \<Rightarrow> ('q \<Rightarrow> ('w, 'b) handled) \<Rightarrow> ('w, 'b) handled" where
  "decodeBody decode r = http_call (\<lambda>_. 400) (io_lift (decode (rqBody r)))"

section \<open>Operations under the lock of their volume\<close>

text \<open>
  The locker as a handler uses it: obtaining and releasing the mutex of a key. A handler may be
  made without one.
\<close>

record 'w volume_locks =
  vlAcquire :: "string \<Rightarrow> 'w \<Rightarrow> 'w"
  vlRelease :: "string \<Rightarrow> 'w \<Rightarrow> 'w"

definition withVolumeLock :: "'w volume_locks option \<Rightarrow> string \<Rightarrow> string \<Rightarrow> ('w, 'b) handled \<Rightarrow> ('w, 'b) handled" where
  "withVolumeLock locker namespace volume h = (case locker of
     None \<Rightarrow> h
   | Some l \<Rightarrow> (\<lambda>w. case h (vlAcquire l (lockKey namespace volume) w) of
       (resp, w') \<Rightarrow> (resp, vlRelease l (lockKey namespace volume) w')))"

text \<open>The shape that the three handlers below share.\<close>

definition lockedOperation ::
    "'w volume_locks option \<Rightarrow> (string \<Rightarrow> go_error + 'q) \<Rightarrow> ('q \<Rightarrow> string) \<Rightarrow> ('q \<Rightarrow> string) \<Rightarrow>
     ('q \<Rightarrow> ('w, 'a) io) \<Rightarrow> ('q \<Rightarrow> 'a \<Rightarrow> 'b) \<Rightarrow> string \<Rightarrow> http_request \<Rightarrow> ('w, 'b) handled" where
  "lockedOperation locker decode namespace volume op answer token r =
     requireMethod ''POST'' r (requireToken token r (decodeBody decode r (\<lambda>q.
     withVolumeLock locker (namespace q) (volume q)
       (http_call (\<lambda>_. 500) (op q) (\<lambda>x. http_reply 200 (answer q x))))))"

text \<open>What the routes of an agent answer with.\<close>

datatype agent_body =
    OkText string
  | PathBody string
  | BatchBody string nat
  | SyncBody string
  | ShadowBody ShadowPrepareResponse
  | ArchiveBody tar_writer
  | WatchBody WatchStatus
  | WatchesBody "WatchStatus list"

definition SyncBatchHandler ::
    "'w agent_env \<Rightarrow> 'w volume_locks option \<Rightarrow> (string \<Rightarrow> go_error + EventBatch) \<Rightarrow> Pool \<Rightarrow> string \<Rightarrow> http_request \<Rightarrow> ('w, agent_body) handled" where
  "SyncBatchHandler env locker decode pool =
     lockedOperation locker decode ebNamespace ebVolume (ApplyEventBatch env pool)
       (\<lambda>batch _. BatchBody (ebVolume batch) (length (ebEvents batch)))"

definition FullSyncHandler ::
    "'w agent_env \<Rightarrow> 'w volume_locks option \<Rightarrow> (string \<Rightarrow> go_error + FullSyncRequest) \<Rightarrow> Pool \<Rightarrow> string \<Rightarrow> http_request \<Rightarrow> ('w, agent_body) handled" where
  "FullSyncHandler env locker decode pool token r =
     lockedOperation locker decode fsNamespace fsVolume
       (\<lambda>req. ApplyFullSyncWithToken env pool req (TrimPrefix (rqAuthorization r) ''Bearer '')) (\<lambda>req _. SyncBody (fsVolume req)) token r"

definition ShadowPrepareHandler ::
    "'w agent_env \<Rightarrow> 'w volume_locks option \<Rightarrow> (string \<Rightarrow> go_error + ShadowPrepareRequest) \<Rightarrow> Pool \<Rightarrow> string \<Rightarrow> http_request \<Rightarrow> ('w, agent_body) handled" where
  "ShadowPrepareHandler env locker decode pool =
     lockedOperation locker decode spNamespace spVolume (PrepareShadow env pool) (\<lambda>_ resp. ShadowBody resp)"

section \<open>The other routes of an agent\<close>

text \<open>
  The archive is streamed into the response: its status is sent before the first entry, and an
  error after that only ends the stream.
\<close>

definition ArchiveHandler ::
    "'w os_api \<Rightarrow> 'w file_api \<Rightarrow> (file_info \<Rightarrow> int \<times> int) \<Rightarrow> ('w, unit) io \<Rightarrow> Pool \<Rightarrow> string \<Rightarrow> http_request \<Rightarrow> ('w, agent_body) handled" where
  "ArchiveHandler os fa owner out pool token r =
     requireMethod ''GET'' r (requireToken token r (
       let namespace = queryGet r ''namespace''; volume = queryGet r ''volume'' in
       if volume = '''' then http_error 400 (Errorf ''volume is required'')
       else http_call (\<lambda>_. 400) (io_lift (ResolveVolumePath (volumeAt pool namespace volume))) (\<lambda>root.
         \<lambda>w. case osStat os root w of
           (Inl e, w') \<Rightarrow> (if IsNotExist e then http_error 404 (Errorf ''volume not found'') w' else http_error 500 e w')
         | (Inr _, w') \<Rightarrow>
             (case WriteTarArchive os fa owner out root
                 \<lparr>IncludePaths = queryAll r ''include'', ExcludePaths = queryAll r ''exclude'', PruneExcluded = False\<rparr> ([], w') of
                (_, (tw, w'')) \<Rightarrow> (HttpReply 200 (ArchiveBody tw), w'')))))"

definition StartHandler ::
    "'w os_api \<Rightarrow> (string \<Rightarrow> go_error + WatchStartRequest) \<Rightarrow> Pool \<Rightarrow> string \<Rightarrow> http_request \<Rightarrow> (watchManager \<times> 'w, agent_body) handled" where
  "StartHandler os decode pool token r =
     requireMethod ''POST'' r (requireToken token r (decodeBody decode r (\<lambda>req.
     http_call (\<lambda>_. 400) (StartWatch os pool req) (\<lambda>status. http_reply 200 (WatchBody status)))))"

definition StopHandler ::
    "'w os_api \<Rightarrow> (string \<Rightarrow> go_error + WatchStopRequest) \<Rightarrow> string \<Rightarrow> http_request \<Rightarrow> (watchManager \<times> 'w, agent_body) handled" where
  "StopHandler os decode token r =
     requireMethod ''POST'' r (requireToken token r (decodeBody decode r (\<lambda>req.
     http_call (\<lambda>_. 500) (io_get (watchStatusOf (wpNamespace req) (wpVolume req))) (\<lambda>found.
     if found = None then http_error 404 (Errorf ''watch not found'')
     else http_call (\<lambda>_. 500) (io_outside (timeNow os)) (\<lambda>now (m, w).
       case StopWatch (wpNamespace req) (wpVolume req) now m of
         (None, m') \<Rightarrow> (HttpError 404 (Errorf ''watch not found''), (m', w))
       | (Some status, m') \<Rightarrow> (HttpReply 200 (WatchBody status), (m', w)))))))"

definition StatusHandler :: "string \<Rightarrow> http_request \<Rightarrow> (watchManager \<times> 'w, agent_body) handled" where
  "StatusHandler token r =
     requireMethod ''GET'' r (requireToken token r (
       let namespace = queryGet r ''namespace''; volume = queryGet r ''volume'' in
       http_call (\<lambda>_. 500) (io_get (\<lambda>m. (watchStatusOf namespace volume m, watchStatuses m))) (\<lambda>(status, statuses).
         if volume = '''' then http_reply 200 (WatchesBody statuses)
         else case status of
           None \<Rightarrow> http_error 404 (Errorf ''watch not found'')
         | Some st \<Rightarrow> http_reply 200 (WatchBody st))))"

definition poolHandler :: "Pool \<Rightarrow> string \<Rightarrow> http_request \<Rightarrow> ('w, agent_body) handled" where
  "poolHandler pool token r =
     requireToken token r (http_reply 200 (OkText (''name='' @ poolName pool @ [CHR 0x0A] @ ''path='' @ poolPath pool @ [CHR 0x0A])))"

definition prepareHandler ::
    "'w os_api \<Rightarrow> (string \<Rightarrow> go_error + string \<times> string) \<Rightarrow> Pool \<Rightarrow> string \<Rightarrow> http_request \<Rightarrow> ('w, agent_body) handled" where
  "prepareHandler os decode pool token r =
     requireMethod ''POST'' r (requireToken token r (decodeBody decode r (\<lambda>(namespace, name).
     http_call (\<lambda>_. 500) (EnsureVolumePath os (volumeAt pool namespace name) 0x1ED) (\<lambda>path. http_reply 200 (PathBody path)))))"

definition healthHandler :: "('w, agent_body) handled" where
  "healthHandler = http_reply 200 (OkText (''ok'' @ [CHR 0x0A]))"

text \<open>The decoders of the request bodies.\<close>

record decoders =
  deBatch :: "string \<Rightarrow> go_error + EventBatch"
  deFullSync :: "string \<Rightarrow> go_error + FullSyncRequest"
  deShadow :: "string \<Rightarrow> go_error + ShadowPrepareRequest"
  deStart :: "string \<Rightarrow> go_error + WatchStartRequest"
  deStop :: "string \<Rightarrow> go_error + WatchStopRequest"
  dePrepare :: "string \<Rightarrow> go_error + string \<times> string"

text \<open>A handler that does not use the watch manager, beside it.\<close>

definition besideManager :: "('w, 'b) handled \<Rightarrow> (watchManager \<times> 'w, 'b) handled" where
  "besideManager h = (\<lambda>(m, w). case h w of (resp, w') \<Rightarrow> (resp, (m, w')))"

text \<open>The routes of an agent, \<^verbatim>\<open>runAgent\<close>; a path without a route is not found.\<close>

definition serveAgent ::
    "'w agent_env \<Rightarrow> 'w file_api \<Rightarrow> (file_info \<Rightarrow> int \<times> int) \<Rightarrow> ('w, unit) io \<Rightarrow> 'w volume_locks option \<Rightarrow> decoders \<Rightarrow>
     Pool \<Rightarrow> string \<Rightarrow> http_request \<Rightarrow> (watchManager \<times> 'w, agent_body) handled" where
  "serveAgent env fa owner out locker de pool token r =
     (if rqPath r = ''/healthz'' \<or> rqPath r = ''/readyz'' then healthHandler
      else if rqPath r = ''/pool'' then poolHandler pool token r
      else if rqPath r = ''/volumes/prepare'' then besideManager (prepareHandler (envOs env) (dePrepare de) pool token r)
      else if rqPath r = ''/replication/sync-batch'' then besideManager (SyncBatchHandler env locker (deBatch de) pool token r)
      else if rqPath r = ''/replication/full-sync'' then besideManager (FullSyncHandler env locker (deFullSync de) pool token r)
      else if rqPath r = ''/replication/shadow/prepare'' then besideManager (ShadowPrepareHandler env locker (deShadow de) pool token r)
      else if rqPath r = ''/replication/archive'' then besideManager (ArchiveHandler (envOs env) fa owner out pool token r)
      else if rqPath r = ''/replication/watch/start'' then StartHandler (envOs env) (deStart de) pool token r
      else if rqPath r = ''/replication/watch/stop'' then StopHandler (envOs env) (deStop de) token r
      else if rqPath r = ''/replication/watch/status'' then StatusHandler token r
      else http_error 404 (Errorf ''404 page not found''))"


section \<open>The controller's routes\<close>

text \<open>
  \<^verbatim>\<open>hasRBACProxyUser\<close> compares with the empty text in constant time: the comparison gives 0 for
  texts that differ.
\<close>

definition ConstantTimeCompare :: "string \<Rightarrow> string \<Rightarrow> int" where
  "ConstantTimeCompare x y = (if x = y then 1 else 0)"

definition hasRBACProxyUser :: "http_request \<Rightarrow> bool" where
  "hasRBACProxyUser r \<longleftrightarrow> ConstantTimeCompare (TrimSpace (rqRemoteUser r)) '''' = 0"

definition triggerStatus :: "(go_error \<Rightarrow> string) \<Rightarrow> go_error \<Rightarrow> int" where
  "triggerStatus text e =
     (if Contains (errorText text e) ''required'' then 400 else if Contains (errorText text e) ''not found'' then 404 else 500)"

record ManualFullSyncRequest =
  mrNamespace :: string
  mrClaimName :: string

text \<open>\<open>text\<close> gives the messages of the errors that come from the cluster.\<close>

definition manualFullSyncHandler ::
    "'k kube \<Rightarrow> (Pod list \<Rightarrow> Pod list) \<Rightarrow> ReplicationControllerConfig \<Rightarrow> (go_error \<Rightarrow> string) \<Rightarrow> (string \<Rightarrow> go_error + ManualFullSyncRequest) \<Rightarrow>
     http_request \<Rightarrow> (ControllerState \<times> 'k, ManualFullSyncResponse) handled" where
  "manualFullSyncHandler kube sortByAge cfg text decode r =
     requireMethod ''POST'' r (decodeBody decode r (\<lambda>req.
     let queryNamespace = queryGet r ''namespace'' in
     if queryNamespace = '''' then http_error 400 (Errorf ''namespace query parameter is required'')
     else
       let namespace = (if mrNamespace req = '''' then queryNamespace else mrNamespace req) in
       if queryNamespace \<noteq> '''' \<and> namespace \<noteq> queryNamespace
       then http_error 400 (Errorf ''namespace query parameter must match request body'')
       else if \<not> hasRBACProxyUser r then http_error 401 (Errorf ''unauthorized'')
       else http_call (triggerStatus text) (TriggerFullSync kube sortByAge cfg namespace (mrClaimName req)) (\<lambda>resp. http_reply 202 resp)))"

datatype controller_body = ControllerText string | TriggerBody ManualFullSyncResponse

definition mapReply :: "('a \<Rightarrow> 'b) \<Rightarrow> ('w, 'a) handled \<Rightarrow> ('w, 'b) handled" where
  "mapReply f h = (\<lambda>w. case h w of (HttpError code e, w') \<Rightarrow> (HttpError code e, w') | (HttpReply code b, w') \<Rightarrow> (HttpReply code (f b), w'))"

definition serveHealth :: "http_request \<Rightarrow> ('w, controller_body) handled" where
  "serveHealth r =
     (if rqPath r = ''/healthz'' \<or> rqPath r = ''/readyz'' then http_reply 200 (ControllerText (''ok'' @ [CHR 0x0A]))
      else http_error 404 (Errorf ''404 page not found''))"

definition serveControllerHTTP ::
    "'k kube \<Rightarrow> (Pod list \<Rightarrow> Pod list) \<Rightarrow> ReplicationControllerConfig \<Rightarrow> (go_error \<Rightarrow> string) \<Rightarrow> (string \<Rightarrow> go_error + ManualFullSyncRequest) \<Rightarrow>
     http_request \<Rightarrow> (ControllerState \<times> 'k, controller_body) handled" where
  "serveControllerHTTP kube sortByAge cfg text decode r =
     (if rqPath r = ''/healthz'' \<or> rqPath r = ''/readyz'' then http_reply 200 (ControllerText (''ok'' @ [CHR 0x0A]))
      else if rqPath r = ''/replication/full-sync/trigger''
      then mapReply TriggerBody (manualFullSyncHandler kube sortByAge cfg text decode r)
      else http_error 404 (Errorf ''404 page not found''))"

section \<open>Commands\<close>

text \<open>
  The environment gives the defaults of the flags; \<open>flags\<close> are the texts given on the command
  line, which the flag package has accepted: it ends the program on a text that does not parse.
\<close>

definition getenv :: "(string, string) gomap \<Rightarrow> string \<Rightarrow> string \<Rightarrow> string" where
  "getenv env name fallback = (if gostr env name \<noteq> '''' then gostr env name else fallback)"

definition stringFlag :: "(string, string) gomap \<Rightarrow> string \<Rightarrow> string \<Rightarrow> string" where
  "stringFlag flags name fallback = goget flags name fallback"

definition boolFlag :: "(string, string) gomap \<Rightarrow> string \<Rightarrow> bool \<Rightarrow> bool" where
  "boolFlag flags name fallback = (case map_of flags name of
     None \<Rightarrow> fallback
   | Some v \<Rightarrow> v \<in> set [''1'', ''t'', ''T'', ''TRUE'', ''true'', ''True''])"

definition durationFlag :: "(string, string) gomap \<Rightarrow> string \<Rightarrow> duration \<Rightarrow> duration" where
  "durationFlag flags name fallback = (case map_of flags name of
     None \<Rightarrow> fallback
   | Some v \<Rightarrow> (case ParseDuration v of None \<Rightarrow> fallback | Some d \<Rightarrow> d))"

datatype command = RunController | RunCSIController | RunAgent | RunCSINode | Usage

definition mainCommand :: "string list \<Rightarrow> command" where
  "mainCommand args =
     (if length args < 2 then Usage
      else if args ! 1 = ''controller'' then RunController
      else if args ! 1 = ''csi-controller'' then RunCSIController
      else if args ! 1 = ''agent'' then RunAgent
      else if args ! 1 = ''csi-node'' then RunCSINode
      else Usage)"

definition poolFlags :: "(string, string) gomap \<Rightarrow> (string, string) gomap \<Rightarrow> Pool" where
  "poolFlags env flags = \<lparr>
     poolName = stringFlag flags ''pool-name'' (getenv env ''SIMPLE_VOLUME_POOL_NAME'' ''default''),
     poolPath = stringFlag flags ''pool-path'' (getenv env ''SIMPLE_VOLUME_POOL_PATH'' ''/var/lib/simple-volume'')\<rparr>"

definition csiNodeConfig :: "(string, string) gomap \<Rightarrow> (string, string) gomap \<Rightarrow> ServerConfig" where
  "csiNodeConfig env flags = \<lparr>
     scEndpoint = stringFlag flags ''endpoint'' (getenv env ''CSI_ENDPOINT'' ''unix:///csi/csi.sock''),
     scNodeName = stringFlag flags ''node-name'' (gostr env ''NODE_NAME''),
     scPoolName = poolName (poolFlags env flags), scPoolPath = poolPath (poolFlags env flags),
     scValidatePool = True,
     scAllowNonEmptyPool = boolFlag flags ''allow-non-empty-pool'' (getenv env ''SIMPLE_VOLUME_ALLOW_NON_EMPTY_POOL'' '''' = ''true'')\<rparr>"

definition csiControllerConfig :: "(string, string) gomap \<Rightarrow> (string, string) gomap \<Rightarrow> ServerConfig" where
  "csiControllerConfig env flags = \<lparr>
     scEndpoint = stringFlag flags ''endpoint'' (getenv env ''CSI_ENDPOINT'' ''unix:///csi/csi.sock''),
     scNodeName = ''controller'',
     scPoolName = poolName (poolFlags env flags), scPoolPath = poolPath (poolFlags env flags),
     scValidatePool = False, scAllowNonEmptyPool = False\<rparr>"

text \<open>\<open>listen\<close> and \<open>serve\<close> are those of \<^const>\<open>RunServer\<close>; the commands end with its error.\<close>

definition runCSINode ::
    "'w os_api \<Rightarrow> (string \<Rightarrow> string \<Rightarrow> ('w, 'l) io) \<Rightarrow> (Server \<Rightarrow> 'l \<Rightarrow> ('w, unit) io) \<Rightarrow> (string, string) gomap \<Rightarrow> (string, string) gomap \<Rightarrow> ('w, unit) io" where
  "runCSINode os listen serve env flags = RunServer os listen serve (csiNodeConfig env flags)"

definition runCSIController ::
    "'w os_api \<Rightarrow> (string \<Rightarrow> string \<Rightarrow> ('w, 'l) io) \<Rightarrow> (Server \<Rightarrow> 'l \<Rightarrow> ('w, unit) io) \<Rightarrow> (string, string) gomap \<Rightarrow> (string, string) gomap \<Rightarrow> ('w, unit) io" where
  "runCSIController os listen serve env flags = RunServer os listen serve (csiControllerConfig env flags)"

text \<open>An error that \<^verbatim>\<open>log.Fatalf\<close> ends the program with.\<close>

definition fatalf :: "string \<Rightarrow> ('w, 'a) io \<Rightarrow> ('w, 'a) io" where
  "fatalf msg m = (\<lambda>w. case m w of (Inl e, w') \<Rightarrow> (Inl (Wrapf msg e), w') | (Inr x, w') \<Rightarrow> (Inr x, w'))"

text \<open>
  \<open>start\<close> starts a process. One that ends later with an error ends the program, at a moment that
  is not modelled.
\<close>

definition startBackgroundCommand :: "(CommandSpec \<Rightarrow> ('w, unit) io) \<Rightarrow> CommandSpec \<Rightarrow> ('w, unit) io" where
  "startBackgroundCommand start spec = fatalf (''start '' @ cmdName spec @ '': '') (start spec)"

text \<open>\<^verbatim>\<open>runAgent\<close> before it serves: the pool is prepared, then the file server is started.\<close>

definition startAgent ::
    "'w os_api \<Rightarrow> (CommandSpec \<Rightarrow> ('w, unit) io) \<Rightarrow> (string, string) gomap \<Rightarrow> (string, string) gomap \<Rightarrow> ('w, Pool \<times> string) io" where
  "startAgent os start env flags =
     (let pool = poolFlags env flags;
          allowNonEmptyPool = boolFlag flags ''allow-non-empty-pool'' (getenv env ''SIMPLE_VOLUME_ALLOW_NON_EMPTY_POOL'' '''' = ''true'');
          webdavEnabled = boolFlag flags ''webdav-enabled'' (getenv env ''SIMPLE_VOLUME_WEBDAV_ENABLED'' ''true'' = ''true'');
          webdavAddr = stringFlag flags ''webdav-addr'' (getenv env ''SIMPLE_VOLUME_WEBDAV_ADDR'' '':8081'');
          token = stringFlag flags ''token'' (gostr env ''SIMPLE_VOLUME_TOKEN'') in
      io_bind (fatalf ''initialize storage pool: '' (EnsurePool os pool allowNonEmptyPool)) (\<lambda>_.
      io_bind (if webdavEnabled
          then startBackgroundCommand start (BuildRcloneServeWebDAVCommand (poolPath pool) webdavAddr True)
          else io_return ()) (\<lambda>_.
      io_return (pool, token))))"

definition controllerConfig :: "(string, string) gomap \<Rightarrow> (string, string) gomap \<Rightarrow> ReplicationControllerConfig" where
  "controllerConfig env flags = \<lparr>
     cfgNamespace = stringFlag flags ''namespace'' (getenv env ''POD_NAMESPACE'' ''simple-volume-system''),
     cfgStorageClassName = stringFlag flags ''storage-class'' (getenv env ''SIMPLE_VOLUME_STORAGE_CLASS'' ''simple-volume''),
     cfgTokenSecretName = stringFlag flags ''sync-token-secret-name'' (getenv env ''SIMPLE_VOLUME_TOKEN_SECRET_NAME'' ''simple-volume-sync-token''),
     cfgTokenSecretKey = stringFlag flags ''sync-token-secret-key'' (getenv env ''SIMPLE_VOLUME_TOKEN_SECRET_KEY'' ''token''),
     cfgReconcileInterval = durationFlag flags ''reconcile-interval'' (30 * second),
     cfgFailoverTimeout = durationFlag flags ''failover-timeout'' (10 * second), cfgHTTPTimeout = 0, cfgAgentLabelSelector = ''''\<rparr>"

text \<open>
  \<^verbatim>\<open>runController\<close>: the routes it serves, or the error that ends it. The loop of reconciliations
  that it starts beside them is \<open>controllerRun\<close>.
\<close>

definition runController ::
    "(go_error + 'r) \<Rightarrow> ('r \<Rightarrow> go_error + 'k kube) \<Rightarrow> (Pod list \<Rightarrow> Pod list) \<Rightarrow> (go_error \<Rightarrow> string) \<Rightarrow> (string \<Rightarrow> go_error + ManualFullSyncRequest) \<Rightarrow>
     (string, string) gomap \<Rightarrow> (string, string) gomap \<Rightarrow> go_error + (http_request \<Rightarrow> (ControllerState \<times> 'k, controller_body) handled)" where
  "runController load newClient sortByAge text decode env flags =
     (let enableReplication = boolFlag flags ''enable-replication-controller''
            (getenv env ''SIMPLE_VOLUME_ENABLE_REPLICATION_CONTROLLER'' ''true'' = ''true'') in
      if \<not> enableReplication then Inr serveHealth
      else case NewInClusterReplicationController load newClient (controllerConfig env flags) of
        Inl e \<Rightarrow> Inl (Wrapf ''replication controller: '' e)
      | Inr (kube, cfg) \<Rightarrow> Inr (serveControllerHTTP kube sortByAge cfg text decode))"

section \<open>Requests without the token\<close>

lemmas handler_defs = http_error_def http_reply_def http_call_def requireMethod_def requireToken_def

text \<open>
  C2. Without its token an agent does nothing: a request that does not carry it is refused by
  every route but the two health checks, with status 401, 404 or 405, before anything is
  decoded or done. An agent without a token refuses them all.
\<close>

theorem serveAgent_refuses:
  assumes "token = '''' \<or> rqAuthorization r \<noteq> ''Bearer '' @ token" "rqPath r \<noteq> ''/healthz''" "rqPath r \<noteq> ''/readyz''"
  shows "\<exists>code e. serveAgent env fa owner out locker de pool token r s = (HttpError code e, s) \<and> code \<in> {401, 404, 405}"
proof -
  have "\<not> Authorize token (rqAuthorization r)" using assms(1) by (auto simp: Authorize_def)
  then show ?thesis using assms(2,3)
    by (cases s) (simp add: serveAgent_def besideManager_def poolHandler_def prepareHandler_def SyncBatchHandler_def FullSyncHandler_def
        ShadowPrepareHandler_def lockedOperation_def ArchiveHandler_def StartHandler_def StopHandler_def StatusHandler_def handler_defs)
qed


section \<open>Everything an operation does, it does under the lock of its volume\<close>

definition tracedLocks :: "'w volume_locks \<Rightarrow> ('w \<times> os_event list) volume_locks" where
  "tracedLocks l = \<lparr>
     vlAcquire = (\<lambda>key (w, es). (vlAcquire l key w, es @ [OsLock key])),
     vlRelease = (\<lambda>key (w, es). (vlRelease l key w, es @ [OsUnlock key]))\<rparr>"

text \<open>The changes between the two moments, or none at all for a request that is refused.\<close>

definition bracketed :: "string \<Rightarrow> (os_event \<Rightarrow> bool) \<Rightarrow> os_event list \<Rightarrow> bool" where
  "bracketed key effect es \<longleftrightarrow> (\<exists>fs. es = OsLock key # fs @ [OsUnlock key] \<and> list_all effect fs)"

lemma lockedOperation_traced:
  assumes run: "lockedOperation (Some (tracedLocks l)) decode ns vol op answer token r (w, []) = (resp, (w', es))"
    and op: "\<And>q. io_inv (logIs (continues [OsLock (lockKey (ns q) (vol q))] (effect q))) (op q)"
  shows "es = [] \<and> (\<exists>code e. resp = HttpError code e) \<or>
    (\<exists>q. decode (rqBody r) = Inr q \<and> rqAuthorization r = ''Bearer '' @ token \<and> token \<noteq> '''' \<and>
       bracketed (lockKey (ns q) (vol q)) (effect q) es)"
proof (cases "rqMethod r = ''POST'' \<and> Authorize token (rqAuthorization r)")
  case False
  then show ?thesis using run by (auto simp: lockedOperation_def handler_defs split: if_splits)
next
  case True
  show ?thesis
  proof (cases "decode (rqBody r)")
    case (Inl e)
    then show ?thesis using run True by (auto simp: lockedOperation_def decodeBody_def io_lift_def handler_defs)
  next
    case (Inr q)
    let ?key = "lockKey (ns q) (vol q)"
    obtain x w1 es1 where opr: "op q (vlAcquire l ?key w, [OsLock ?key]) = (x, (w1, es1))" by (metis prod.exhaust)
    have "es = es1 @ [OsUnlock ?key]"
      using run True Inr opr
      by (auto simp: lockedOperation_def decodeBody_def withVolumeLock_def tracedLocks_def io_lift_def handler_defs split: sum.splits)
    moreover have "continues [OsLock ?key] (effect q) es1"
      using io_invD [OF op _ opr] by (simp add: continues_def)
    ultimately have "bracketed ?key (effect q) es" by (auto simp: continues_def bracketed_def)
    then show ?thesis using Inr True by (auto simp: Authorize_def split: if_splits)
  qed
qed

text \<open>What such a handler needs of the operation it runs: which changes it makes.\<close>

locale locked_operation =
  fixes op :: "'q \<Rightarrow> ('w \<times> os_event list, 'a) io" and effect :: "'q \<Rightarrow> os_event \<Rightarrow> bool"
  assumes op_log: "(\<And>e. effect q e \<Longrightarrow> admits J e) \<Longrightarrow> io_inv (logIs J) (op q)"
begin

lemma under_lock:
  assumes "lockedOperation (Some (tracedLocks l)) decode ns vol op answer token r (w, []) = (resp, (w', es))"
  shows "es = [] \<and> (\<exists>code e. resp = HttpError code e) \<or>
    (\<exists>q. decode (rqBody r) = Inr q \<and> rqAuthorization r = ''Bearer '' @ token \<and> token \<noteq> '''' \<and>
       bracketed (lockKey (ns q) (vol q)) (effect q) es)"
  by (rule lockedOperation_traced [OF assms]) (intro op_log admits_continues)

end

text \<open>The changes of the three operations, for a request whose volume resolves.\<close>

definition batchChange :: "Pool \<Rightarrow> EventBatch \<Rightarrow> os_event \<Rightarrow> bool" where
  "batchChange pool batch e \<longleftrightarrow>
     (\<exists>root. ResolveVolumePath (volumeAt pool (ebNamespace batch) (ebVolume batch)) = Inr root \<and> batchEffect root batch e)"

definition shadowChange :: "Pool \<Rightarrow> ShadowPrepareRequest \<Rightarrow> os_event \<Rightarrow> bool" where
  "shadowChange pool req e \<longleftrightarrow>
     (\<exists>live shadow g. ResolveVolumePath (volumeAt pool (spNamespace req) (spVolume req)) = Inr live \<and>
       ResolveShadowPath pool (spNamespace req) (spVolume req) = Inr shadow \<and> e \<in> set (shadowTrace live shadow req g))"

lemma ApplyEventBatch_changes:
  assumes "plainListings (envOs env)" "\<And>e. batchChange pool batch e \<Longrightarrow> admits J e"
  shows "io_inv (logIs J) (ApplyEventBatch (tracedEnv env) pool batch)"
proof (cases "ResolveVolumePath (volumeAt pool (ebNamespace batch) (ebVolume batch))")
  case (Inl e)
  then show ?thesis by (simp add: ApplyEventBatch_def EnsureVolumePath_def tracedEnv_sel io_inv_def io_bind_def io_lift_def)
next
  case (Inr root)
  then show ?thesis using assms by (intro ApplyEventBatch_log) (auto simp: batchChange_def)
qed

lemma PrepareShadow_changes:
  assumes "\<And>e. shadowChange pool req e \<Longrightarrow> admits J e"
  shows "io_inv (logIs J) (PrepareShadow (tracedEnv env) pool req)"
proof (cases "ResolveVolumePath (volumeAt pool (spNamespace req) (spVolume req))")
  case (Inl e)
  then show ?thesis by (simp add: PrepareShadow_def io_inv_def io_bind_def io_lift_def io_fail_def)
next
  case (Inr live)
  then obtain shadow where shadow: "ResolveShadowPath pool (spNamespace req) (spVolume req) = Inr shadow"
    by (auto simp: ResolveVolumePath_Inr ResolveShadowPath_Inr)
  have adm: "admits J e" if "e \<in> set (shadowTrace live shadow req g)" for e g
    using that assms Inr shadow by (auto simp: shadowChange_def)
  have lift: "io_bind (io_lift (Inr live)) f = f live" for f :: "string \<Rightarrow> ('b \<times> os_event list, 'c) io" by (simp add: io_defs)
  show ?thesis
    unfolding PrepareShadow_def Inr lift tracedEnv_sel validateRequiredLocalPaths_quiet EnsureShadowPath_bind [OF shadow] tracedOs_sel
      runFullSyncCommand_traced Let_def
    by (auto intro!: io_inv_intros adm simp: shadowTrace_def)
qed

interpretation shadow_prepare: locked_operation "PrepareShadow (tracedEnv env) pool" "shadowChange pool" for env pool
  by unfold_locales (rule PrepareShadow_changes)


text \<open>
  C10. A batch is applied under the lock of its volume: a request to apply one either is refused
  or fails before it has changed anything, or it carries the token, obtains the lock that stands
  for its volume's directory, makes only changes that the batch calls for inside that directory,
  and releases the lock as its last step, whether it succeeds or fails.
\<close>

theorem SyncBatchHandler_under_lock:
  assumes "plainListings (envOs env)"
    and "SyncBatchHandler (tracedEnv env) (Some (tracedLocks l)) decode pool token r (w, []) = (resp, (w', es))"
  shows "es = [] \<and> (\<exists>code e. resp = HttpError code e) \<or>
    (\<exists>batch. decode (rqBody r) = Inr batch \<and> rqAuthorization r = ''Bearer '' @ token \<and> token \<noteq> '''' \<and>
       bracketed (lockKey (ebNamespace batch) (ebVolume batch)) (batchChange pool batch) es)"
proof -
  have "locked_operation (ApplyEventBatch (tracedEnv env) pool) (batchChange pool)"
    by unfold_locales (rule ApplyEventBatch_changes [OF assms(1)])
  from locked_operation.under_lock [OF this assms(2) [unfolded SyncBatchHandler_def]] show ?thesis .
qed

text \<open>The same of a shadow: it is prepared and published under the lock of its volume.\<close>

lemma ShadowPrepareHandler_under_lock:
  assumes "ShadowPrepareHandler (tracedEnv env) (Some (tracedLocks l)) decode pool token r (w, []) = (resp, (w', es))"
  shows "es = [] \<and> (\<exists>code e. resp = HttpError code e) \<or>
    (\<exists>req. decode (rqBody r) = Inr req \<and> rqAuthorization r = ''Bearer '' @ token \<and> token \<noteq> '''' \<and>
       bracketed (lockKey (spNamespace req) (spVolume req)) (shadowChange pool req) es)"
  using shadow_prepare.under_lock [OF assms [unfolded ShadowPrepareHandler_def]] .

section \<open>A manual synchronisation is for the authorised namespace\<close>

lemma io_bind_InrE:
  assumes "io_bind m f s = (Inr x, t)"
  obtains y u where "f y u = (Inr x, t)"
  using assms by (auto simp: io_bind_Inr)

lemma TriggerFullSync_names:
  "TriggerFullSync kube sortByAge cfg namespace claimName s = (Inr resp, s') \<Longrightarrow> mfNamespace resp = TrimSpace namespace"
  unfolding TriggerFullSync_def Let_def
  by (auto elim!: io_bind_InrE simp: find_Some_iff split: option.split_asm if_split_asm)


section \<open>Witnesses\<close>

definition demoRequest :: http_request where
  "demoRequest = \<lparr>rqMethod = ''POST'', rqPath = ''/replication/full-sync'', rqAuthorization = ''Bearer wrong'', rqRemoteUser = '''',
     rqRawQuery = ''namespace=games'', rqBody = ''{}''\<rparr>"

definition demoDecoders :: decoders where
  "demoDecoders = \<lparr>deBatch = (\<lambda>_. Inr demoBatch), deFullSync = (\<lambda>_. Inr demoSync), deShadow = (\<lambda>_. Inr demoPrepare),
     deStart = (\<lambda>_. Inr demoStart), deStop = (\<lambda>_. Inr \<lparr>wpNamespace = '''', wpVolume = ''''\<rparr>), dePrepare = (\<lambda>_. Inr ('''', ''''))\<rparr>"

theorem serveAgent_refuses_witness:
  "\<exists>code e. serveAgent (demoEnv 200) demoFiles (\<lambda>_. (0, 0)) (io_return ()) None demoDecoders demoPool ''secret'' demoRequest
     (NewWatchManager, demoWorld) = (HttpError code e, (NewWatchManager, demoWorld)) \<and> code \<in> {401, 404, 405}"
  by (rule serveAgent_refuses) (simp_all add: demoRequest_def)

definition demoVolumeLocks :: "mworld volume_locks" where
  "demoVolumeLocks = \<lparr>vlAcquire = (\<lambda>_ w. w), vlRelease = (\<lambda>_ w. w)\<rparr>"

theorem SyncBatchHandler_under_lock_witness:
  "\<exists>resp w' es. SyncBatchHandler (tracedEnv (demoEnv 200)) (Some (tracedLocks demoVolumeLocks)) (\<lambda>_. Inr demoBatch) (vpPool demoVolume) ''secret''
       (demoRequest\<lparr>rqAuthorization := ''Bearer secret''\<rparr>) (memWorld [], []) = (resp, (w', es)) \<and>
     (es = [] \<and> (\<exists>code e. resp = HttpError code e) \<or>
      bracketed (lockKey (ebNamespace demoBatch) (ebVolume demoBatch)) (batchChange (vpPool demoVolume) demoBatch) es)"
  using SyncBatchHandler_under_lock [OF plainListings_demo io_run_eta, of 200 demoVolumeLocks "\<lambda>_. Inr demoBatch" "vpPool demoVolume"
      "''secret''" "demoRequest\<lparr>rqAuthorization := ''Bearer secret''\<rparr>" "memWorld []"] io_run_eta by blast




end
