(* ===== verification/Spec2Isabelle.thy ===== *)
theory Spec2Isabelle
  imports FailoverProps Placement ControllerRun Watch Handlers
begin

text \<open>
  \<^bold>\<open>simple-volume.\<close> A Kubernetes storage driver for directories on the nodes' own disks. Every
  node has a storage pool; a volume is a directory of the pool, mounted into pods by a CSI
  server. The node that runs the workload holds the active copy; an agent on each node watches
  the files of the active copies and sends the changes to the agents of the other nodes. A
  controller decides from the claims' annotations what is replicated where, starts the initial
  full synchronisations and the watches, and moves a claim to the freshest replica when its
  node is lost.

  \<^bold>\<open>Method.\<close> The Go code is translated into HOL functions: structs are records, methods are
  functions on them, a call that can fail returns an error or a value. Services that are not
  part of the program, the operating system, the Kubernetes API, HTTP peers, \<^verbatim>\<open>rclone\<close>, the
  file-notification library, the clock and the JSON decoders, are records of functions over a
  world that the definitions take as an argument; nothing is assumed of them but what a theorem
  states. Their effects are observed by instances that record every change in a log. A
  goroutine, a handler or a critical section is a step of an inductive relation where the
  interleaving matters. Log output is left out, and so are contexts and timeouts, which show
  only as errors of the services.

  \<^bold>\<open>Theories, bottom up.\<close>
  \<^item> \<^verbatim>\<open>Prelude\<close>: errors, world-passing computations with their rules for invariants and
    pre- and postconditions, Go maps, durations, stable sorting. \<^verbatim>\<open>GoStrings\<close>, \<^verbatim>\<open>GoPath\<close>,
    \<^verbatim>\<open>GoUrl\<close>, \<^verbatim>\<open>GoTime\<close>, \<^verbatim>\<open>GoDuration\<close>: the parts of Go's library the program uses; a query
    that was encoded is parsed back. \<^verbatim>\<open>OsApi\<close>: the operating system as a parameter, the log of
    its changes, a small concrete world.
  \<^item> \<^verbatim>\<open>Agent\<close> (\<^verbatim>\<open>internal/agent/agent.go\<close>): pools and the directories of volumes, shadows and
    backups. Names never lead out of the pool and the three trees are disjoint; a pool is
    adopted only if it is marked or empty; a backup is a rename.
  \<^item> \<^verbatim>\<open>internal/agent/replication.go\<close> is split into \<^verbatim>\<open>PathFilter\<close> (events, filters,
    coalescing, lock keys), \<^verbatim>\<open>Rclone\<close> (commands and their output), \<^verbatim>\<open>Ownership\<close> (directory walks
    and ownership), \<^verbatim>\<open>BatchApply\<close> (batches and full synchronisations), \<^verbatim>\<open>Shadow\<close> (shadow
    copies), \<^verbatim>\<open>Archive\<close> (tar archives) and \<^verbatim>\<open>Locker\<close> (the volume locks). They show what each
    operation may change on a node, in which order, and when it is refused.
  \<^item> \<^verbatim>\<open>Watch\<close> (\<^verbatim>\<open>watch.go\<close>) and \<^verbatim>\<open>WatchManager\<close> (\<^verbatim>\<open>watch_manager.go\<close>): the watch loop as a
    function of the messages it receives, the manager as a heap of watches with a map. The
    difference of two snapshots, replayed on a mirror of the first, gives the second; batches
    hold only what the filter replicates; the number of waiting events is bounded; the status
    counters stay balanced, and a watch that was replaced is never changed again.
  \<^item> \<^verbatim>\<open>ApiTypes\<close> (\<^verbatim>\<open>types.go\<close>), \<^verbatim>\<open>Labels\<close> (\<^verbatim>\<open>labels.go\<close>), \<^verbatim>\<open>Placement\<close> (\<^verbatim>\<open>promotion.go\<close>,
    \<^verbatim>\<open>provision.go\<close>, \<^verbatim>\<open>csi/controller.go\<close>), \<^verbatim>\<open>KubeTypes\<close> (Kubernetes objects and calls).
  \<^item> \<^verbatim>\<open>Failover\<close>, \<^verbatim>\<open>FailoverProps\<close> (\<^verbatim>\<open>failover_controller.go\<close>): which replica is promoted, that
    map iteration order does not matter, and that pods are evicted only after the grace period,
    from nodes that are registered for a backup first.
  \<^item> \<^verbatim>\<open>Desired\<close>, \<^verbatim>\<open>Controller\<close>, \<^verbatim>\<open>ControllerProps\<close>, \<^verbatim>\<open>ControllerRun\<close>
    (\<^verbatim>\<open>replication_controller.go\<close>): the desired replications, the loop of reconcile passes, the
    synchronisation goroutines, the manual trigger. The step relation of their critical
    sections has at most one synchronisation of a volume at a time, and a watch only after a
    full synchronisation of the same epoch; the loop, the trigger and the goroutines are
    sequences of its steps. The loop is given the number of ticks before it is cancelled.
  \<^item> \<^verbatim>\<open>Csi\<close> (\<^verbatim>\<open>csi/server.go\<close>, \<^verbatim>\<open>csi/node.go\<close>): the CSI services; publishing makes one mount,
    last.
  \<^item> \<^verbatim>\<open>Handlers\<close>: the HTTP handlers and the routes of the agent and of the controller, and the
    commands of \<^verbatim>\<open>cmd/simple-volume/main.go\<close>. Requests without the token do nothing;
    operations run under the lock of their volume; a manual synchronisation stays in the
    namespace that was authorised.
  \<^item> This theory: what holds of the parts together. The directory that is published is the one
    that is replicated; the controller finds the watch that it started; an archive is served
    with the volume and the filter that were asked for.

  \<^bold>\<open>Interfaces.\<close> \<^verbatim>\<open>go_less\<close> and \<^verbatim>\<open>go_less_keyed\<close> (Prelude) are what a comparison function has
  to satisfy for Go's sorting, interpreted for each order the code sorts by. \<^verbatim>\<open>copy_target\<close>
  (Archive) is what the copy loops need of a sink, interpreted for a file and for an archive.
  \<^verbatim>\<open>restore_registry\<close> (Failover) is the register of demoted nodes that the replication
  controller asks before it restores a target. \<^verbatim>\<open>locked_operation\<close> (Handlers) is what a locked handler needs of the operation it runs.

  \<^bold>\<open>Bounds.\<close> A directory walk and the clearing of a tree recurse at most 4096 deep
  (\<^const>\<open>walkFuel\<close>): a path the operating system accepts has at most 4096 bytes, so at most 2048
  components, and a deeper tree is answered with the error for a name that is too long. The
  walk from a file up to the root of its volume gets one turn more than its path has bytes,
  which is shown to be enough. All other loops recurse on their data. Counters are 64-bit
  words and wrap; sizes, offsets, times and epochs are unbounded integers.

  \<^bold>\<open>Not modelled.\<close> What runs inside the Kubernetes client, the HTTP and gRPC servers, sockets and
  child processes, which are parameters; signals, and the end of the program when its file
  server dies; JSON encoding and the parsing of URLs, which are parts of the parameters; the
  text of some error messages; symbolic links as aliases of other paths: containment is about
  the paths handed to the operating system.
\<close>

section \<open>The program as a whole\<close>

lemma safeSegment_TrimSpace: "safeSegment (TrimSpace s) = safeSegment s"
  by (simp add: safeSegment_def TrimSpace_idem)

text \<open>
  C1. What is published is what is replicated: for a volume that the CSI server created for a
  claim, the directory that a node publishes is the directory of the same pool that the
  controller's requests for that claim name, both for a full synchronisation and for a watch.
\<close>

theorem published_directory_is_replicated:
  assumes created: "serverCreateVolume creator creq = Inr vol"
    and published: "nqVolumeId req = cvolID vol" "nqVolumeContext req = cvolContext vol"
    and claim: "pvcVolumeName pvc = cvolID vol" "pvcNamespace pvc = gostr (ccParameters creq) provisionerPVCNamespace"
    and desired: "desiredFor pvc agents token activePod ownership = Some d"
    and pool: "poolPath pool = svPoolPath node"
  shows "ResolveVolumePath (serverVolume node req) =
      ResolveVolumePath (volumeAt pool (fsNamespace (fullSyncRequest d basePath backup)) (fsVolume (fullSyncRequest d basePath backup))) \<and>
    ResolveVolumePath (serverVolume node req) =
      ResolveVolumePath (volumeAt pool (wsNamespace (startWatchRequest d)) (wsVolume (startWatchRequest d)))"
proof -
  have ctx: "gostr (nqVolumeContext req) volumeContextPVCNamespace = TrimSpace (pvcNamespace pvc)"
    using created published(2) claim(2)
    by (auto simp: serverCreateVolume_def Let_def goget_def volumeContextStoragePool_def volumeContextPVCName_def
        volumeContextPVCNamespace_def split: if_splits)
  have d: "drNamespace d = pvcNamespace pvc" "drVolume d = pvcVolumeName pvc"
    using desired by (auto simp: desiredFor_def Let_def split: if_splits option.splits)
  show ?thesis
    using pool by (simp add: ResolveVolumePath_eq ctx d published(1) claim(1) safeSegment_TrimSpace
        fullSyncRequest_def startWatchRequest_def Let_def)
qed


definition demoCreateRequest :: CsiCreateRequest where
  "demoCreateRequest = \<lparr>ccName = ''pv1'', ccRequiredBytes = None,
     ccParameters = [(provisionerPVCNamespace, ''games''), (provisionerPVCName, ''world'')]\<rparr>"

definition demoCsiVolume :: CsiVolume where
  "demoCsiVolume = \<lparr>cvolID = ''pv1'', cvolCapacityBytes = 0,
     cvolContext = [(volumeContextStoragePool, ''default''), (volumeContextPVCName, ''world''), (volumeContextPVCNamespace, ''games'')]\<rparr>"

lemma demo_trim: "TrimSpace ''games'' = ''games''" "TrimSpace ''world'' = ''world''" "TrimSpace ''n1'' = ''n1''"
  by (rule TrimSpace_id; simp add: spaceByte_def)+

lemma demo_created: "serverCreateVolume demoServer demoCreateRequest = Inr demoCsiVolume"
  by (simp add: serverCreateVolume_def demoServer_def demoCreateRequest_def demoCsiVolume_def demo_trim goget_def
      provisionerPVCNamespace_def provisionerPVCName_def Let_def)

lemma demo_desired:
  "\<exists>d. desiredFor demoClaim [(''n1'', Desired.demoAgent ''n1'' ''1''), (''n2'', Desired.demoAgent ''n2'' ''2'')] ''t'' None noOwnership = Some d"
proof -
  have "gostr (pvcAnnotations demoClaim) AnnotationActiveNode = ''n1''"
    by (simp add: demoClaim_def goget_def AnnotationActiveNode_def AnnotationReplicationEnabled_def)
  then show ?thesis by (simp add: desiredFor_def Let_def demo_trim desiredTargets_eq)
qed

theorem published_directory_is_replicated_witness:
  "\<exists>d. desiredFor demoClaim [(''n1'', Desired.demoAgent ''n1'' ''1''), (''n2'', Desired.demoAgent ''n2'' ''2'')] ''t'' None noOwnership = Some d \<and>
     ResolveVolumePath (serverVolume demoServer (demoPublish\<lparr>nqVolumeId := ''pv1'', nqVolumeContext := cvolContext demoCsiVolume\<rparr>)) =
     ResolveVolumePath (volumeAt demoPool (wsNamespace (startWatchRequest d)) (wsVolume (startWatchRequest d)))"
proof -
  obtain d where d: "desiredFor demoClaim [(''n1'', Desired.demoAgent ''n1'' ''1''), (''n2'', Desired.demoAgent ''n2'' ''2'')] ''t'' None noOwnership = Some d"
    using demo_desired by blast
  have "poolPath demoPool = svPoolPath demoServer" by (simp add: demoPool_def demoServer_def)
  from published_directory_is_replicated [OF demo_created _ _ _ _ d this,
      of "demoPublish\<lparr>nqVolumeId := ''pv1'', nqVolumeContext := cvolContext demoCsiVolume\<rparr>"] d
  show ?thesis
    by (simp add: demoCsiVolume_def demoClaim_def demoCreateRequest_def goget_def)
qed

section \<open>Both ends of a request\<close>

lemma set_ReplaceFirst: "set (ReplaceFirst s a b) \<subseteq> set s \<union> set b"
  by (induction s a b rule: ReplaceFirst.induct) (auto dest: in_set_dropD)

lemma QueryEscape_names: "QueryEscape ''namespace'' = ''namespace''" "QueryEscape ''volume'' = ''volume''"
  by code_simp+

text \<open>The address of an agent has none of the characters that end the path of a URL.\<close>

definition plainAddress :: "string \<Rightarrow> bool" where
  "plainAddress ip \<longleftrightarrow> CHR ''?'' \<notin> set ip \<and> CHR ''#'' \<notin> set ip"

lemma statusURL_query:
  assumes "drSourceURL d = agentWebDAVURL ip" "plainAddress ip"
  shows "RawQuery (statusURL d) = Join ''&'' (map queryPair [(''namespace'', drNamespace d), (''volume'', drVolume d)])"
proof -
  let ?base = "TrimRight (agentHTTPURLFromWebDAV (drSourceURL d)) ''/'' @ ''/replication/watch/status''"
  let ?q = "Join ''&'' (map queryPair [(''namespace'', drNamespace d), (''volume'', drVolume d)])"
  have url: "statusURL d = ?base @ ''?'' @ ?q"
    by (simp add: statusURL_def queryPair_def QueryEscape_names)
  have "set ?base \<subseteq> set (agentWebDAVURL ip) \<union> set '':8080/replication/watch/status''"
    using set_ReplaceFirst [of "agentWebDAVURL ip" "'':8081''" "'':8080''"] set_TrimRight
    by (fastforce simp: agentHTTPURLFromWebDAV_def assms(1))
  then have "CHR ''?'' \<notin> set ?base" "CHR ''#'' \<notin> set ?base"
    using assms(2) by (auto simp: agentWebDAVURL_def plainAddress_def)
  moreover have "CHR ''#'' \<notin> set ?q"
    using QueryEscape_plain by (fastforce simp: queryPair_def QueryEscape_names)
  ultimately show ?thesis unfolding url by (rule RawQuery_append)
qed

lemma status_query_values:
  assumes "drSourceURL d = agentWebDAVURL ip" "plainAddress ip" "rqRawQuery q = RawQuery (statusURL d)"
  shows "queryGet q ''namespace'' = drNamespace d" "queryGet q ''volume'' = drVolume d"
  unfolding queryGet_def queryAll_def assms(3) statusURL_query [OF assms(1,2)] ParseQuery_pairs goget_pairs
  by (simp_all add: goget_def)

lemma watchStatusOf_installWatch:
  "watchStatusOf (wsNamespace req) (wsVolume req) (installWatch pool req debounce now m) = Some (initialStatus req now)"
  by (simp add: watchStatusOf_def installWatch_def Let_def update_conv split: option.split)

text \<open>
  C19. The controller finds the watch that it started: when an agent has accepted the request
  that the controller sends for a replication, the request for its status, with the query that
  the controller builds, is answered with the status that the start was answered with, and that
  status is of the namespace and the volume of the replication, whatever characters their names
  have.
\<close>

theorem status_of_started_watch:
  assumes started: "serveAgent env fa owner out locker de pool token r s = (HttpReply code (WatchBody st), s')"
    and start: "rqPath r = ''/replication/watch/start''" "deStart de (rqBody r) = Inr (startWatchRequest d)"
    and source: "drSourceURL d = agentWebDAVURL ip" "plainAddress ip"
    and status: "rqMethod q = ''GET''" "rqAuthorization q = ''Bearer '' @ token" "rqPath q = ''/replication/watch/status''"
      "rqRawQuery q = RawQuery (statusURL d)"
  shows "serveAgent env fa owner out locker de pool token q s' = (HttpReply 200 (WatchBody st), s') \<and>
    stNamespace st = drNamespace d \<and> stVolume st = drVolume d"
proof -
  obtain m w where s: "s = (m, w)" by (cases s)
  have "StartHandler (envOs env) (deStart de) pool token r (m, w) = (HttpReply code (WatchBody st), s')"
    using started start(1) by (simp add: serveAgent_def s)
  then obtain debounce now w' where auth: "Authorize token (rqAuthorization r)"
      and check: "checkStart (startWatchRequest d) = Inr debounce"
      and st: "st = initialStatus (startWatchRequest d) now"
      and s': "s' = (installWatch pool (startWatchRequest d) debounce now m, w')"
    by (auto simp: StartHandler_def StartWatch_def decodeBody_def start(2) handler_defs io_defs
        split: if_splits sum.splits prod.splits)
  have names: "drNamespace d = wsNamespace (startWatchRequest d)" "drVolume d = wsVolume (startWatchRequest d)"
    by (simp_all add: startWatchRequest_def)
  have "wsVolume (startWatchRequest d) \<noteq> ''''" using check by (auto simp: checkStart_def split: if_splits)
  moreover have "Authorize token (rqAuthorization q)" using auth status(2) by (auto simp: Authorize_def split: if_splits)
  ultimately show ?thesis
    using status watchStatusOf_installWatch [of "startWatchRequest d" pool debounce now m]
    by (simp add: serveAgent_def StatusHandler_def handler_defs io_defs status_query_values [OF source status(4)] names Let_def s' st)
      (simp add: initialStatus_def)
qed

text \<open>An archive is asked for and served by the same names: the filter is the client's, pattern by pattern.\<close>

lemma archive_query_served:
  assumes "segment ns" "segment volume" "rqRawQuery r = Encode (archiveQuery (pathJoin [ns, volume]) filt [])"
  shows "queryGet r ''namespace'' = ns" "queryGet r ''volume'' = volume"
    "queryAll r ''include'' = IncludePaths filt" "queryAll r ''exclude'' = ExcludePaths filt"
  by (simp_all add: queryGet_def queryAll_def assms(3) ParseQuery_Encode archiveQuery_values [OF assms(1,2)])

definition demoStartRequest :: http_request where
  "demoStartRequest = demoRequest\<lparr>rqPath := ''/replication/watch/start'', rqAuthorization := ''Bearer secret''\<rparr>"

definition demoStatusRequest :: http_request where
  "demoStatusRequest = demoRequest\<lparr>rqMethod := ''GET'', rqPath := ''/replication/watch/status'', rqAuthorization := ''Bearer secret'',
     rqRawQuery := RawQuery (statusURL demoDesired)\<rparr>"

abbreviation demoServe :: "http_request \<Rightarrow> (watchManager \<times> mworld, agent_body) handled" where
  "demoServe \<equiv> serveAgent (demoEnv 200) demoFiles (\<lambda>_. (0, 0)) (io_return ()) None
     (demoDecoders\<lparr>deStart := \<lambda>_. Inr (startWatchRequest demoDesired)\<rparr>) demoPool ''secret''"

lemma demo_started: "\<exists>st s'. demoServe demoStartRequest (NewWatchManager, demoWorld) = (HttpReply 200 (WatchBody st), s')"
proof -
  have "TrimSpace ''http://n2:8080'' = ''http://n2:8080''" by (rule TrimSpace_id) (simp_all add: spaceByte_def)
  then have "checkStart (startWatchRequest demoDesired) = Inr (5 * second)"
    by (simp add: checkStart_def startWatchRequest_def demoDesired_def targetRefs_def parseOptionalDuration_def)
  then show ?thesis
    by (simp add: demoStartRequest_def demoRequest_def serveAgent_def StartHandler_def StartWatch_def decodeBody_def Authorize_def
        demoEnv_def memOs_def handler_defs io_defs)
qed

theorem status_of_started_watch_witness:
  "\<exists>st s'. demoServe demoStartRequest (NewWatchManager, demoWorld) = (HttpReply 200 (WatchBody st), s') \<and>
     demoServe demoStatusRequest s' = (HttpReply 200 (WatchBody st), s') \<and> stNamespace st = ''games'' \<and> stVolume st = ''pv1''"
proof -
  obtain st s' where run: "demoServe demoStartRequest (NewWatchManager, demoWorld) = (HttpReply 200 (WatchBody st), s')"
    using demo_started by blast
  have "demoServe demoStatusRequest s' = (HttpReply 200 (WatchBody st), s') \<and>
      stNamespace st = drNamespace demoDesired \<and> stVolume st = drVolume demoDesired"
    by (rule status_of_started_watch [OF run, where ip = "''n1''"])
      (simp_all add: demoStartRequest_def demoStatusRequest_def demoRequest_def demoDesired_def agentWebDAVURL_def plainAddress_def)
  with run show ?thesis by (auto simp: demoDesired_def)
qed

end
